(* ===== verification/Prelude.thy ===== *)
theory Prelude
  imports Main "HOL-Library.Word" "HOL-Library.Multiset"
begin

text \<open>
  Shared vocabulary of the development: Go results and errors, the fragments of the Go standard
  library that the components call (strings, object pools, map iteration), and the generic lemmas
  their proofs share.

  Go strings and byte slices are lists of bytes, \<open>string\<close> in HOL.  A Go function that
  returns an \<open>error\<close> is a function into \<open>'a res\<close>: \<open>Ok\<close> for a nil
  error, \<open>Err\<close> for an error, \<open>Panic\<close> for a run-time panic (nil dereference,
  failed type assertion, index out of range) and \<open>Block\<close> for a channel operation that no
  other goroutine can ever complete.  Functions that mutate an object take the object and return
  the updated object beside the result, since in Go the mutation survives an error return.
\<close>

named_theorems go_simps \<open>unfolding rules of the Go vocabulary\<close>
named_theorems inv_intros \<open>an operation keeps the invariant of its component\<close>

type_synonym bytes = string
type_synonym u64 = "64 word"
type_synonym u32 = "32 word"
type_synonym u8 = "8 word"

section \<open>Errors and results\<close>

text \<open>The kinds of \<open>github.com/spiral/errors\<close> that the sources test for or attach.\<close>

datatype err_kind =
    NoKeys | EmptyKey | EmptyItem | NoSuchBucket | Disabled | SkipFile | TimeOut
  | NoFreeWorkers | SoftJob | WatcherStopped | WorkerAllocate | ExecTTL | IdleTTL | KTTL
  | Encode | Decode | Network

datatype error = Kind err_kind | Str string | EOp string error

text \<open>\<open>errors.Is(kind, err)\<close>: the kind of an error survives wrapping by \<open>errors.E(op, err)\<close>.\<close>

primrec err_is :: "err_kind \<Rightarrow> error \<Rightarrow> bool" where
  "err_is k (Kind k') = (k = k')"
| "err_is k (Str s) = False"
| "err_is k (EOp op e) = err_is k e"

datatype 'a res = Ok 'a | Err error | Panic | Block

primrec is_ok :: "'a res \<Rightarrow> bool" where
  "is_ok (Ok a) = True"
| "is_ok (Err e) = False"
| "is_ok Panic = False"
| "is_ok Block = False"

primrec is_err :: "'a res \<Rightarrow> bool" where
  "is_err (Ok a) = False"
| "is_err (Err e) = True"
| "is_err Panic = False"
| "is_err Block = False"

text \<open>\<open>if err != nil { return errors.E(op, err) }\<close> on the last call of a function.\<close>

primrec wrap :: "string \<Rightarrow> 'a res \<Rightarrow> 'a res" where
  "wrap op (Ok a) = Ok a"
| "wrap op (Err e) = Err (EOp op e)"
| "wrap op Panic = Panic"
| "wrap op Block = Block"

lemma is_ok_wrap [simp]: "is_ok (wrap op r) = is_ok r"
  by (cases r) auto

lemma is_err_wrap [simp]: "is_err (wrap op r) = is_err r"
  by (cases r) auto

lemma wrap_eq_Ok [simp]: "wrap op r = Ok a \<longleftrightarrow> r = Ok a"
  by (cases r) auto

lemma wrap_eq_Err [simp]: "wrap op r = Err e \<longleftrightarrow> (\<exists>e'. r = Err e' \<and> e = EOp op e')"
  by (cases r) auto

lemma wrap_eq_Panic [simp]: "wrap op r = Panic \<longleftrightarrow> r = Panic"
  by (cases r) auto

lemma wrap_eq_Block [simp]: "wrap op r = Block \<longleftrightarrow> r = Block"
  by (cases r) auto

lemma is_ok_unit: "is_ok (r :: unit res) \<longleftrightarrow> r = Ok ()"
  by (cases r) auto

definition map_res :: "('a \<Rightarrow> 'b) \<Rightarrow> 'a res \<Rightarrow> 'b res" where
  "map_res f r = (case r of Ok a \<Rightarrow> Ok (f a) | Err e \<Rightarrow> Err e | Panic \<Rightarrow> Panic | Block \<Rightarrow> Block)"

lemma map_res_Ok: "map_res f r = Ok b \<longleftrightarrow> (\<exists>a. r = Ok a \<and> b = f a)"
  by (auto simp: map_res_def split: res.splits)

section \<open>Payloads\<close>

text \<open>The message to and from a worker (\<open>payload.Payload\<close>).\<close>

datatype codec = CODEC_NONE | CODEC_JSON

record payload =
  pld_body :: bytes
  pld_context :: bytes
  pld_codec :: codec

section \<open>Map iteration\<close>

text \<open>
  Go iterates over a map in an unspecified order.  A loop over a map takes the order as an
  argument; a theorem about it assumes only that the order lists every key exactly once.
\<close>

definition range_order :: "('k \<rightharpoonup> 'v) \<Rightarrow> 'k list \<Rightarrow> bool" where
  "range_order m ks \<longleftrightarrow> distinct ks \<and> set ks = dom m"

lemma range_orderD:
  "range_order m ks \<Longrightarrow> distinct ks"
  "range_order m ks \<Longrightarrow> set ks = dom m"
  "range_order m ks \<Longrightarrow> k \<in> set ks \<longleftrightarrow> (\<exists>v. m k = Some v)"
  by (auto simp: range_order_def dom_def)

section \<open>Object pools\<close>

text \<open>
  \<open>sync.Pool\<close>: \<open>Get\<close> returns any object that was put back, or a new one.  The argument
  \<open>i\<close> is the pool's choice, so a theorem for every \<open>i\<close> holds whatever the pool returns.
\<close>

definition pool_get :: "'a \<Rightarrow> nat \<Rightarrow> 'a list \<Rightarrow> 'a \<times> 'a list" where
  "pool_get new i p = (if i < length p then (p ! i, take i p @ drop (Suc i) p) else (new, p))"

definition pool_put :: "'a \<Rightarrow> 'a list \<Rightarrow> 'a list" where
  "pool_put x p = x # p"

text \<open>
  The contract a pooled type must keep: the reset that precedes \<open>Put\<close> restores the zero
  object.  Under it every object \<open>Get\<close> returns equals a new one, whatever was pooled before.
\<close>

definition clean :: "'a \<Rightarrow> 'a list \<Rightarrow> bool" where
  "clean new p \<longleftrightarrow> (\<forall>x \<in> set p. x = new)"

lemma clean_Nil [simp]: "clean new []"
  by (simp add: clean_def)

lemma clean_take_drop: "clean new p \<Longrightarrow> clean new (take i p @ drop j p)"
  by (auto simp: clean_def dest: in_set_takeD in_set_dropD)

lemma pool_get_clean: "clean new p \<Longrightarrow> pool_get new i p = (x, p') \<Longrightarrow> x = new \<and> clean new p'"
  by (auto simp: pool_get_def clean_take_drop split: if_splits) (simp add: clean_def)

locale clean_pool =
  fixes zero :: 'a and reset :: "'a \<Rightarrow> 'a"
  assumes reset_zero: "reset x = zero"
begin

lemma put_clean: "clean zero p \<Longrightarrow> clean zero (pool_put (reset x) p)"
  by (simp add: clean_def pool_put_def reset_zero)

lemma get_zero: "clean zero p \<Longrightarrow> fst (pool_get zero i p) = zero"
  by (metis pool_get_clean prod.collapse)

lemma get_clean: "clean zero p \<Longrightarrow> clean zero (snd (pool_get zero i p))"
  by (metis pool_get_clean prod.collapse)

lemma get_put_clean:
  "clean zero p \<Longrightarrow> clean zero (pool_put (reset x) (snd (pool_get zero i p)))"
  by (rule put_clean) (rule get_clean)

end

end
