(* ===== verification/Go_Lib.thy ===== *)
theory Go_Lib
  imports Prelude "HOL-Library.List_Lexorder" "HOL-Library.Char_ord"
begin

text \<open>
  The functions of Go's \<open>strings\<close>, \<open>strconv\<close> and \<open>time\<close> packages that the
  components call, as executable functions on byte strings, with the facts the components rely on:
  splitting and joining are inverse, decimal printing and parsing are inverse, and the RFC 3339
  form of UTC instants is ordered like the instants themselves.
\<close>

section \<open>strings\<close>

text \<open>The UTF-8 encodings of the code points for which \<open>unicode.IsSpace\<close> holds.\<close>

definition go_spaces :: "string list" where
  "go_spaces =
     [[CHR 0x09], [CHR 0x0A], [CHR 0x0B], [CHR 0x0C], [CHR 0x0D], [CHR 0x20],
      [CHR 0xC2, CHR 0x85], [CHR 0xC2, CHR 0xA0], [CHR 0xE1, CHR 0x9A, CHR 0x80],
      [CHR 0xE2, CHR 0x80, CHR 0x80], [CHR 0xE2, CHR 0x80, CHR 0x81], [CHR 0xE2, CHR 0x80, CHR 0x82],
      [CHR 0xE2, CHR 0x80, CHR 0x83], [CHR 0xE2, CHR 0x80, CHR 0x84], [CHR 0xE2, CHR 0x80, CHR 0x85],
      [CHR 0xE2, CHR 0x80, CHR 0x86], [CHR 0xE2, CHR 0x80, CHR 0x87], [CHR 0xE2, CHR 0x80, CHR 0x88],
      [CHR 0xE2, CHR 0x80, CHR 0x89], [CHR 0xE2, CHR 0x80, CHR 0x8A], [CHR 0xE2, CHR 0x80, CHR 0xA8],
      [CHR 0xE2, CHR 0x80, CHR 0xA9], [CHR 0xE2, CHR 0x80, CHR 0xAF], [CHR 0xE2, CHR 0x81, CHR 0x9F],
      [CHR 0xE3, CHR 0x80, CHR 0x80]]"

definition has_prefix :: "string \<Rightarrow> string \<Rightarrow> bool" where
  "has_prefix s p \<longleftrightarrow> take (length p) s = p"

definition has_suffix :: "string \<Rightarrow> string \<Rightarrow> bool" where
  "has_suffix s p \<longleftrightarrow> length p \<le> length s \<and> drop (length s - length p) s = p"

function trim_left_any :: "string list \<Rightarrow> string \<Rightarrow> string" where
  "trim_left_any ps s =
     (case find (\<lambda>p. p \<noteq> [] \<and> has_prefix s p) ps of
        None \<Rightarrow> s
      | Some p \<Rightarrow> trim_left_any ps (drop (length p) s))"
  by pat_completeness auto
termination
  by (relation "measure (\<lambda>(ps, s). length s)")
     (auto simp: find_Some_iff has_prefix_def intro!: diff_less)

declare trim_left_any.simps [simp del]

definition trim_space :: "string \<Rightarrow> string" where
  "trim_space s = rev (trim_left_any (map rev go_spaces) (rev (trim_left_any go_spaces s)))"

definition trim_set :: "string \<Rightarrow> string \<Rightarrow> string" where
  "trim_set cs s =
     rev (dropWhile (\<lambda>c. c \<in> set cs) (rev (dropWhile (\<lambda>c. c \<in> set cs) s)))"

definition trim_left_set :: "string \<Rightarrow> string \<Rightarrow> string" where
  "trim_left_set cs s = dropWhile (\<lambda>c. c \<in> set cs) s"

fun split_byte :: "char \<Rightarrow> string \<Rightarrow> string list" where
  "split_byte c [] = [[]]"
| "split_byte c (x # xs) =
     (if x = c then [] # split_byte c xs
      else (case split_byte c xs of [] \<Rightarrow> [[x]] | w # ws \<Rightarrow> (x # w) # ws))"

fun join_byte :: "char \<Rightarrow> string list \<Rightarrow> string" where
  "join_byte c [] = []"
| "join_byte c [w] = w"
| "join_byte c (w # v # ws) = w @ c # join_byte c (v # ws)"

fun contains :: "string \<Rightarrow> string \<Rightarrow> bool" where
  "contains [] p = (p = [])"
| "contains (x # xs) p = (has_prefix (x # xs) p \<or> contains xs p)"

fun index_byte :: "string \<Rightarrow> char \<Rightarrow> nat option" where
  "index_byte [] c = None"
| "index_byte (x # xs) c = (if x = c then Some 0 else map_option Suc (index_byte xs c))"

text \<open>\<open>strings.Split\<close> at a separator that is not empty.\<close>

function split_str :: "string \<Rightarrow> string \<Rightarrow> string list" where
  "split_str sep [] = [[]]"
| "split_str sep (x # xs) =
     (if sep \<noteq> [] \<and> has_prefix (x # xs) sep then [] # split_str sep (drop (length sep) (x # xs))
      else (case split_str sep xs of [] \<Rightarrow> [[x]] | w # ws \<Rightarrow> (x # w) # ws))"
  by pat_completeness auto
termination
  by (relation "measure (\<lambda>(sep, s). length s)") (auto intro!: diff_less)

text \<open>\<open>strings.ReplaceAll(s, "\n", "")\<close> followed by the same for \<open>"\r"\<close>.\<close>

definition strip_crlf :: "string \<Rightarrow> string" where
  "strip_crlf s = filter (\<lambda>c. c \<noteq> CHR 0x0A \<and> c \<noteq> CHR 0x0D) s"

text \<open>\<open>strings.ToLower\<close> and \<open>ToUpper\<close> on ASCII letters; other bytes are kept.\<close>

definition lower_char :: "char \<Rightarrow> char" where
  "lower_char c =
     (if 65 \<le> (of_char c :: nat) \<and> (of_char c :: nat) \<le> 90 then char_of ((of_char c :: nat) + 32) else c)"

definition to_lower :: "string \<Rightarrow> string" where
  "to_lower s = map lower_char s"

section \<open>strconv\<close>

definition digit_char :: "nat \<Rightarrow> char" where
  "digit_char d = char_of (48 + d)"

definition is_digit :: "char \<Rightarrow> bool" where
  "is_digit c \<longleftrightarrow> 48 \<le> (of_char c :: nat) \<and> (of_char c :: nat) \<le> 57"

definition digit_val :: "char \<Rightarrow> nat" where
  "digit_val c = of_char c - 48"

fun show_nat :: "nat \<Rightarrow> string" where
  "show_nat n = (if n < 10 then [digit_char n] else show_nat (n div 10) @ [digit_char (n mod 10)])"

declare show_nat.simps [simp del]

definition digits_val :: "string \<Rightarrow> nat" where
  "digits_val s = foldl (\<lambda>a c. a * 10 + digit_val c) 0 s"

text \<open>\<open>strconv.ParseUint(s, 10, 64)\<close> and \<open>strconv.ParseInt(s, 10, 64)\<close>; \<open>None\<close> is an error.\<close>

definition parse_uint :: "string \<Rightarrow> nat option" where
  "parse_uint s =
     (if s \<noteq> [] \<and> list_all is_digit s \<and> digits_val s < 2 ^ 64 then Some (digits_val s) else None)"

definition parse_int :: "string \<Rightarrow> int option" where
  "parse_int s =
     (case s of
        [] \<Rightarrow> None
      | c # cs \<Rightarrow>
          if c = CHR ''-'' then
            (if cs \<noteq> [] \<and> list_all is_digit cs \<and> digits_val cs \<le> 2 ^ 63
             then Some (- int (digits_val cs)) else None)
          else (let ds = (if c = CHR ''+'' then cs else s) in
            if ds \<noteq> [] \<and> list_all is_digit ds \<and> digits_val ds < 2 ^ 63
            then Some (int (digits_val ds)) else None))"

text \<open>\<open>strconv.Itoa\<close>, and an \<open>int64\<close> result that may wrap around.\<close>

definition itoa :: "int \<Rightarrow> string" where
  "itoa n = (if n < 0 then CHR ''-'' # show_nat (nat (- n)) else show_nat (nat n))"

definition wrap64 :: "int \<Rightarrow> int" where
  "wrap64 x = sint (word_of_int x :: u64)"

section \<open>Facts about strings\<close>

lemma split_byte_nonempty [simp]: "split_byte c s \<noteq> []"
  by (induction s) (auto split: list.splits)

lemma join_byte_Cons: "ws \<noteq> [] \<Longrightarrow> join_byte c (w # ws) = w @ c # join_byte c ws"
  by (cases ws) auto

lemma join_split_byte: "join_byte c (split_byte c s) = s"
proof (induction s)
  case Nil
  then show ?case by simp
next
  case (Cons x xs)
  obtain w ws where split: "split_byte c xs = w # ws"
    by (cases "split_byte c xs") auto
  with Cons show ?case
    by (cases ws) (auto simp: join_byte_Cons)
qed

lemma split_byte_no_sep: "w \<in> set (split_byte c s) \<Longrightarrow> c \<notin> set w"
  by (induction s arbitrary: w) (auto split: if_splits list.splits)

lemma trim_left_any_length: "length (trim_left_any ps s) \<le> length s"
proof (induction ps s rule: trim_left_any.induct)
  case (1 ps s)
  show ?case
  proof (cases "find (\<lambda>p. p \<noteq> [] \<and> has_prefix s p) ps")
    case None
    then show ?thesis by (simp add: trim_left_any.simps [of ps s])
  next
    case (Some p)
    with 1 have "length (trim_left_any ps (drop (length p) s)) \<le> length (drop (length p) s)"
      by blast
    with Some show ?thesis by (simp add: trim_left_any.simps [of ps s])
  qed
qed

lemma trim_space_Nil [simp]: "trim_space [] = []"
  using trim_left_any_length [of go_spaces "[]"] trim_left_any_length [of "map rev go_spaces" "[]"]
  by (simp add: trim_space_def)

lemma digit_val_char [simp]: "d < 10 \<Longrightarrow> digit_val (digit_char d) = d"
  by (simp add: digit_val_def digit_char_def)

lemma is_digit_char [simp]: "d < 10 \<Longrightarrow> is_digit (digit_char d)"
  by (simp add: is_digit_def digit_char_def)

lemma digits_val_snoc [simp]: "digits_val (s @ [c]) = digits_val s * 10 + digit_val c"
  by (simp add: digits_val_def)

lemma show_nat_digits: "list_all is_digit (show_nat n) \<and> show_nat n \<noteq> []"
proof (induction n rule: show_nat.induct)
  case (1 n)
  then show ?case by (cases "n < 10") (simp_all add: show_nat.simps [of n])
qed

lemma digits_val_show_nat: "digits_val (show_nat n) = n"
proof (induction n rule: show_nat.induct)
  case (1 n)
  show ?case
  proof (cases "n < 10")
    case True
    then show ?thesis by (simp add: show_nat.simps [of n] digits_val_def)
  next
    case False
    with 1 show ?thesis by (simp add: show_nat.simps [of n])
  qed
qed

lemma parse_uint_show_nat: "n < 2 ^ 64 \<Longrightarrow> parse_uint (show_nat n) = Some n"
  using show_nat_digits [of n] by (simp add: parse_uint_def digits_val_show_nat)

lemma parse_int_show_nat: "n < 2 ^ 63 \<Longrightarrow> parse_int (show_nat n) = Some (int n)"
  using show_nat_digits [of n] digits_val_show_nat [of n]
  by (cases "show_nat n") (auto simp: parse_int_def is_digit_def)

lemma parse_int_itoa: "- (2 ^ 63) \<le> n \<Longrightarrow> n < 2 ^ 63 \<Longrightarrow> parse_int (itoa n) = Some n"
proof (cases "n < 0")
  case True
  assume "- (2 ^ 63) \<le> n"
  then have "nat (- n) \<le> 2 ^ 63" by (simp add: nat_le_iff)
  with True show ?thesis
    using show_nat_digits [of "nat (- n)"] by (simp add: itoa_def parse_int_def digits_val_show_nat)
next
  case False
  assume "n < 2 ^ 63"
  then have "nat n < 2 ^ 63" by (simp add: nat_less_iff)
  with False show ?thesis by (simp add: itoa_def parse_int_show_nat)
qed

lemma wrap64_id: "- (2 ^ 63) \<le> x \<Longrightarrow> x < 2 ^ 63 \<Longrightarrow> wrap64 x = x"
  unfolding wrap64_def sint_sbintrunc' by (intro signed_take_bit_int_eq_self) simp_all

text \<open>Printable ASCII is not trimmed.\<close>

definition printable :: "char \<Rightarrow> bool" where
  "printable c \<longleftrightarrow> 33 \<le> (of_char c :: nat) \<and> (of_char c :: nat) < 128"

lemma trim_left_any_id: "(\<And>p. p \<in> set ps \<Longrightarrow> p \<noteq> [] \<Longrightarrow> \<not> has_prefix s p) \<Longrightarrow> trim_left_any ps s = s"
  by (subst trim_left_any.simps) (auto split: option.splits simp: find_Some_iff)

lemma go_spaces_ends: "p \<in> set go_spaces \<Longrightarrow> \<not> printable (hd p) \<and> \<not> printable (last p)"
  unfolding go_spaces_def by (elim set_ConsD [elim_format] disjE) (simp_all add: printable_def)

lemma has_prefix_hd: "has_prefix s p \<Longrightarrow> p \<noteq> [] \<Longrightarrow> s \<noteq> [] \<and> hd s = hd p"
  by (cases s; cases p) (simp_all add: has_prefix_def)

lemma trim_space_printable: "list_all printable s \<Longrightarrow> trim_space s = s"
proof -
  assume s: "list_all printable s"
  have 1: "trim_left_any go_spaces s = s"
  proof (rule trim_left_any_id)
    fix p assume p: "p \<in> set go_spaces" "p \<noteq> []"
    from s have "s \<noteq> [] \<Longrightarrow> printable (hd s)" by (cases s) simp_all
    with go_spaces_ends [OF p(1)] has_prefix_hd [OF _ p(2), of s] show "\<not> has_prefix s p" by metis
  qed
  have "trim_left_any (map rev go_spaces) (rev s) = rev s"
  proof (rule trim_left_any_id)
    fix p assume p: "p \<in> set (map rev go_spaces)" "p \<noteq> []"
    then obtain p' where p': "p' \<in> set go_spaces" "p = rev p'" by auto
    from s have "rev s \<noteq> [] \<Longrightarrow> printable (hd (rev s))" by (auto simp: hd_rev list_all_iff)
    with go_spaces_ends [OF p'(1)] p' p(2) has_prefix_hd [OF _ p(2), of "rev s"] show "\<not> has_prefix (rev s) p"
      by (metis hd_rev rev_rev_ident)
  qed
  with 1 show ?thesis by (simp add: trim_space_def)
qed

lemma split_str_first:
  assumes "sep \<noteq> []" "\<not> contains (w @ butlast sep) sep"
  shows "split_str sep (w @ sep @ s) = w # split_str sep s"
  using assms(2)
proof (induction w)
  case Nil
  obtain x xs where "sep = x # xs" using assms(1) by (cases sep) auto
  then show ?case by (simp add: has_prefix_def)
next
  case (Cons a w)
  have "\<not> has_prefix (a # w @ sep @ s) sep"
  proof
    assume "has_prefix (a # w @ sep @ s) sep"
    then have "take (length sep) (a # w @ sep @ s) = sep" by (simp add: has_prefix_def)
    moreover have "take (length sep) (a # w @ sep @ s) = take (length sep) (a # w @ butlast sep)"
    proof -
      have "sep @ s = butlast sep @ last sep # s" using assms(1) by simp
      then have "a # w @ sep @ s = (a # w @ butlast sep) @ last sep # s" by simp
      moreover have "length sep \<le> length (a # w @ butlast sep)" using assms(1) by (cases sep) auto
      ultimately show ?thesis by (metis take_append diff_is_0_eq take0 append_Nil2)
    qed
    ultimately have "has_prefix (a # w @ butlast sep) sep" by (simp add: has_prefix_def)
    with Cons.prems show False by simp
  qed
  with Cons show ?case by simp
qed

lemma split_str_last: "\<not> contains w sep \<Longrightarrow> split_str sep w = [w]"
  by (induction w) auto

fun join_str :: "string \<Rightarrow> string list \<Rightarrow> string" where
  "join_str sep [] = []"
| "join_str sep [w] = w"
| "join_str sep (w # v # ws) = w @ sep @ join_str sep (v # ws)"

lemma contains_append: "contains w p \<Longrightarrow> contains (w @ v) p"
proof (induction w)
  case Nil
  then show ?case by (cases v) (auto simp: has_prefix_def)
next
  case (Cons a w)
  have "has_prefix (a # w) p \<Longrightarrow> has_prefix (a # w @ v) p"
    unfolding has_prefix_def
    by (metis append_Cons append_take_drop_id append_same_eq append_eq_conv_conj append_assoc)
  with Cons show ?case by auto
qed

text \<open>A separated text is split where it was joined when no piece, even followed by a part of the separator, contains it.\<close>

lemma split_join_str:
  "sep \<noteq> [] \<Longrightarrow> ws \<noteq> [] \<Longrightarrow> list_all (\<lambda>w. \<not> contains (w @ butlast sep) sep) ws \<Longrightarrow> split_str sep (join_str sep ws) = ws"
proof (induction sep ws rule: join_str.induct)
  case (2 sep w)
  then have "\<not> contains w sep" using contains_append [of w sep "butlast sep"] by auto
  then show ?case by (simp add: split_str_last)
next
  case (3 sep w v ws)
  then show ?case by (simp add: split_str_first)
qed simp

end
