(* ===== verification/Jobs_Api.thy ===== *)
theory Jobs_Api
  imports Go_Lib
begin

text \<open>
  The data and the interfaces of the jobs subsystem, as the sources use them: the job and pipeline
  values that travel between the plugin and its drivers, the \<open>Acknowledger\<close> of a job item and
  the \<open>Consumer\<close> of a driver.  A Go interface value is a record of its methods; a method that
  mutates the object behind the interface takes and returns that object's state.

  The locale \<open>consumer_core\<close> is the contract the plugin relies on, and \<open>job_consumer\<close> the stronger
  one of the drivers that have no remote broker.  The drivers interpret them in their own theories.
\<close>

type_synonym headers = "string \<rightharpoonup> string list"

text \<open>A pipeline, seen through the accessors the sources call on it.\<close>

record pipeline =
  pl_name :: string
  pl_driver :: string
  pl_priority :: int
  pl_int :: "string \<Rightarrow> int \<Rightarrow> int"
  pl_string :: "string \<Rightarrow> string \<Rightarrow> string"
  pl_bool :: "string \<Rightarrow> bool \<Rightarrow> bool"

record options =
  op_priority :: int
  op_pipeline :: string
  op_delay :: int

record job =
  job_name :: string
  job_ident :: string
  job_payload :: string
  job_headers :: headers
  job_options :: options

record jstate =
  st_pipeline :: string
  st_driver :: string
  st_queue :: string
  st_active :: int
  st_delayed :: int
  st_reserved :: int
  st_ready :: bool

section \<open>The interfaces\<close>

record 's acknowledger =
  ack :: "'s \<Rightarrow> 's \<times> unit res"
  nack :: "'s \<Rightarrow> 's \<times> unit res"
  requeue :: "headers \<Rightarrow> int \<Rightarrow> 's \<Rightarrow> 's \<times> unit res"
  respond :: "bytes \<Rightarrow> string \<Rightarrow> 's \<Rightarrow> 's \<times> unit res"

record 'c consumer_ops =
  c_push :: "'c \<Rightarrow> job \<Rightarrow> 'c \<times> unit res"
  c_register :: "'c \<Rightarrow> pipeline \<Rightarrow> 'c \<times> unit res"
  c_run :: "'c \<Rightarrow> pipeline \<Rightarrow> 'c \<times> unit res"
  c_pause :: "'c \<Rightarrow> string \<Rightarrow> 'c \<times> unit res"
  c_resume :: "'c \<Rightarrow> string \<Rightarrow> 'c \<times> unit res"
  c_stop :: "'c \<Rightarrow> 'c \<times> unit res"
  c_state :: "'c \<Rightarrow> jstate res"

text \<open>What \<open>State\<close> reports, for a consumer whose \<open>State\<close> succeeds.\<close>

definition ready :: "'c consumer_ops \<Rightarrow> 'c \<Rightarrow> bool" where
  "ready ops c = (case c_state ops c of Ok st \<Rightarrow> st_ready st | _ \<Rightarrow> False)"

definition counts :: "'c consumer_ops \<Rightarrow> 'c \<Rightarrow> (int \<times> int) option" where
  "counts ops c = (case c_state ops c of Ok st \<Rightarrow> Some (st_active st, st_delayed st) | _ \<Rightarrow> None)"

text \<open>
  What every driver keeps, whatever the broker behind it answers: a registered consumer stays
  registered under its pipeline, and \<open>State\<close> fails only with an error.
\<close>

locale consumer_core =
  fixes ops :: "'c consumer_ops"
    and inv :: "'c \<Rightarrow> bool"
    and registered :: "'c \<Rightarrow> pipeline option"
  assumes core_register:
      "inv c \<Longrightarrow> c_register ops c p = (c', r) \<Longrightarrow>
         r = Ok () \<and> inv c' \<and> registered c' = Some p \<and> (\<not> ready ops c \<longrightarrow> \<not> ready ops c')"
    and core_push:
      "inv c \<Longrightarrow> c_push ops c j = (c', r) \<Longrightarrow> inv c' \<and> registered c' = registered c"
    and core_run:
      "inv c \<Longrightarrow> registered c = Some p \<Longrightarrow> \<not> ready ops c \<Longrightarrow> c_run ops c p = (c', r) \<Longrightarrow>
         inv c' \<and> registered c' = Some p"
    and core_pause:
      "inv c \<Longrightarrow> registered c = Some p \<Longrightarrow> c_pause ops c (pl_name p) = (c', r) \<Longrightarrow>
         inv c' \<and> registered c' = Some p"
    and core_resume:
      "inv c \<Longrightarrow> registered c = Some p \<Longrightarrow> c_resume ops c (pl_name p) = (c', r) \<Longrightarrow>
         inv c' \<and> registered c' = Some p"
    and core_state:
      "inv c \<Longrightarrow> registered c = Some p \<Longrightarrow>
         (\<exists>st. c_state ops c = Ok st \<and> st_pipeline st = pl_name p \<and> st_driver st = pl_driver p)
         \<or> is_err (c_state ops c)"

text \<open>What the drivers without a remote broker add: starting, pausing and resuming always succeed.\<close>

locale job_consumer =
  fixes ops :: "'c consumer_ops"
    and inv :: "'c \<Rightarrow> bool"
    and registered :: "'c \<Rightarrow> pipeline option"
  assumes register:
      "inv c \<Longrightarrow> c_register ops c p = (c', r) \<Longrightarrow>
         r = Ok () \<and> inv c' \<and> registered c' = Some p \<and> (\<not> ready ops c \<longrightarrow> \<not> ready ops c')"
    and push:
      "inv c \<Longrightarrow> c_push ops c j = (c', r) \<Longrightarrow>
         inv c' \<and> registered c' = registered c \<and> ready ops c' = ready ops c"
    and run:
      "inv c \<Longrightarrow> registered c = Some p \<Longrightarrow> \<not> ready ops c \<Longrightarrow> c_run ops c p = (c', r) \<Longrightarrow>
         r = Ok () \<and> inv c' \<and> registered c' = Some p \<and> ready ops c'"
    and pause:
      "inv c \<Longrightarrow> registered c = Some p \<Longrightarrow> c_pause ops c n = (c', r) \<Longrightarrow>
         r = Ok () \<and> inv c' \<and> registered c' = Some p \<and> \<not> ready ops c'
         \<and> counts ops c' = counts ops c"
    and resume:
      "inv c \<Longrightarrow> registered c = Some p \<Longrightarrow> c_resume ops c n = (c', r) \<Longrightarrow>
         r = Ok () \<and> inv c' \<and> registered c' = Some p \<and> ready ops c'
         \<and> counts ops c' = counts ops c"
    and state:
      "inv c \<Longrightarrow> registered c = Some p \<Longrightarrow>
         \<exists>st. c_state ops c = Ok st \<and> st_pipeline st = pl_name p \<and> st_driver st = pl_driver p"
begin

lemma pause_resume:
  assumes "inv c" "registered c = Some p"
    and "c_pause ops c n = (c1, r1)" "c_resume ops c1 m = (c2, r2)"
  shows "r1 = Ok () \<and> r2 = Ok () \<and> inv c2 \<and> registered c2 = Some p \<and> ready ops c2
     \<and> counts ops c2 = counts ops c"
  using pause [OF assms(1-3)] resume [OF _ _ assms(4)] by simp

lemma register_run:
  assumes "inv c" "\<not> ready ops c"
    and "c_register ops c p = (c1, r1)" "c_run ops c1 p = (c2, r2)"
  shows "r1 = Ok () \<and> r2 = Ok () \<and> inv c2 \<and> registered c2 = Some p \<and> ready ops c2"
  using register [OF assms(1,3)] run [OF _ _ _ assms(4)] assms(2) by simp

end

sublocale job_consumer \<subseteq> consumer_core ops inv registered
proof unfold_locales
  fix c c' p r
  assume "inv c" "registered c = Some p" "\<not> ready ops c" "c_run ops c p = (c', r)"
  then show "inv c' \<and> registered c' = Some p" using run by blast
next
  fix c c' p r
  assume "inv c" "registered c = Some p" "c_pause ops c (pl_name p) = (c', r)"
  then show "inv c' \<and> registered c' = Some p" using pause by blast
next
  fix c c' p r
  assume "inv c" "registered c = Some p" "c_resume ops c (pl_name p) = (c', r)"
  then show "inv c' \<and> registered c' = Some p" using resume by blast
qed (use register push state in blast)+

section \<open>Two drivers\<close>

text \<open>
  A Go interface value holds either of two concrete consumers and dispatches to its methods.  If both
  keep the contract, so does the dispatch.
\<close>

definition sum_ops :: "'a consumer_ops \<Rightarrow> 'b consumer_ops \<Rightarrow> ('a + 'b) consumer_ops" where
  "sum_ops o1 o2 = \<lparr>
     c_push = (\<lambda>c j. case c of Inl a \<Rightarrow> map_prod Inl id (c_push o1 a j) | Inr b \<Rightarrow> map_prod Inr id (c_push o2 b j)),
     c_register = (\<lambda>c p. case c of Inl a \<Rightarrow> map_prod Inl id (c_register o1 a p) | Inr b \<Rightarrow> map_prod Inr id (c_register o2 b p)),
     c_run = (\<lambda>c p. case c of Inl a \<Rightarrow> map_prod Inl id (c_run o1 a p) | Inr b \<Rightarrow> map_prod Inr id (c_run o2 b p)),
     c_pause = (\<lambda>c n. case c of Inl a \<Rightarrow> map_prod Inl id (c_pause o1 a n) | Inr b \<Rightarrow> map_prod Inr id (c_pause o2 b n)),
     c_resume = (\<lambda>c n. case c of Inl a \<Rightarrow> map_prod Inl id (c_resume o1 a n) | Inr b \<Rightarrow> map_prod Inr id (c_resume o2 b n)),
     c_stop = (\<lambda>c. case c of Inl a \<Rightarrow> map_prod Inl id (c_stop o1 a) | Inr b \<Rightarrow> map_prod Inr id (c_stop o2 b)),
     c_state = (\<lambda>c. case c of Inl a \<Rightarrow> c_state o1 a | Inr b \<Rightarrow> c_state o2 b)\<rparr>"

lemma sum_observe [simp]:
  "ready (sum_ops o1 o2) (Inl a) = ready o1 a" "ready (sum_ops o1 o2) (Inr b) = ready o2 b"
  "counts (sum_ops o1 o2) (Inl a) = counts o1 a" "counts (sum_ops o1 o2) (Inr b) = counts o2 b"
  by (simp_all add: ready_def counts_def sum_ops_def)

lemma sum_ops_simps [simp]:
  "c_push (sum_ops o1 o2) (Inl a) y_push = map_prod Inl id (c_push o1 a y_push)"
  "c_push (sum_ops o1 o2) (Inr b) y_push = map_prod Inr id (c_push o2 b y_push)"
  "c_register (sum_ops o1 o2) (Inl a) y_register = map_prod Inl id (c_register o1 a y_register)"
  "c_register (sum_ops o1 o2) (Inr b) y_register = map_prod Inr id (c_register o2 b y_register)"
  "c_run (sum_ops o1 o2) (Inl a) y_run = map_prod Inl id (c_run o1 a y_run)"
  "c_run (sum_ops o1 o2) (Inr b) y_run = map_prod Inr id (c_run o2 b y_run)"
  "c_pause (sum_ops o1 o2) (Inl a) y_pause = map_prod Inl id (c_pause o1 a y_pause)"
  "c_pause (sum_ops o1 o2) (Inr b) y_pause = map_prod Inr id (c_pause o2 b y_pause)"
  "c_resume (sum_ops o1 o2) (Inl a) y_resume = map_prod Inl id (c_resume o1 a y_resume)"
  "c_resume (sum_ops o1 o2) (Inr b) y_resume = map_prod Inr id (c_resume o2 b y_resume)"
  "c_state (sum_ops o1 o2) (Inl a) = c_state o1 a" "c_state (sum_ops o1 o2) (Inr b) = c_state o2 b"
  by (simp_all add: sum_ops_def)

lemma map_prod_eq [simp]: "map_prod f id p = (x, r) \<longleftrightarrow> (\<exists>y. p = (y, r) \<and> x = f y)"
  by (cases p) auto

lemma sum_core:
  assumes 1: "consumer_core o1 I1 r1" and 2: "consumer_core o2 I2 r2"
  shows "consumer_core (sum_ops o1 o2) (case_sum I1 I2) (case_sum r1 r2)"
proof unfold_locales
  fix c c' p r
  assume "case_sum I1 I2 c" "c_register (sum_ops o1 o2) c p = (c', r)"
  then show "r = Ok () \<and> case_sum I1 I2 c' \<and> case_sum r1 r2 c' = Some p
      \<and> (\<not> ready (sum_ops o1 o2) c \<longrightarrow> \<not> ready (sum_ops o1 o2) c')"
    by (cases c) (auto dest: consumer_core.core_register [OF 1] consumer_core.core_register [OF 2])
next
  fix c c' j r
  assume "case_sum I1 I2 c" "c_push (sum_ops o1 o2) c j = (c', r)"
  then show "case_sum I1 I2 c' \<and> case_sum r1 r2 c' = case_sum r1 r2 c"
    by (cases c) (auto dest: consumer_core.core_push [OF 1] consumer_core.core_push [OF 2])
next
  fix c c' p r
  assume "case_sum I1 I2 c" "case_sum r1 r2 c = Some p" "\<not> ready (sum_ops o1 o2) c"
    "c_run (sum_ops o1 o2) c p = (c', r)"
  then show "case_sum I1 I2 c' \<and> case_sum r1 r2 c' = Some p"
    by (cases c) (auto dest: consumer_core.core_run [OF 1] consumer_core.core_run [OF 2])
next
  fix c c' p r
  assume "case_sum I1 I2 c" "case_sum r1 r2 c = Some p" "c_pause (sum_ops o1 o2) c (pl_name p) = (c', r)"
  then show "case_sum I1 I2 c' \<and> case_sum r1 r2 c' = Some p"
    by (cases c) (auto dest: consumer_core.core_pause [OF 1] consumer_core.core_pause [OF 2])
next
  fix c c' p r
  assume "case_sum I1 I2 c" "case_sum r1 r2 c = Some p" "c_resume (sum_ops o1 o2) c (pl_name p) = (c', r)"
  then show "case_sum I1 I2 c' \<and> case_sum r1 r2 c' = Some p"
    by (cases c) (auto dest: consumer_core.core_resume [OF 1] consumer_core.core_resume [OF 2])
next
  fix c p
  assume "case_sum I1 I2 c" "case_sum r1 r2 c = Some p"
  then show "(\<exists>st. c_state (sum_ops o1 o2) c = Ok st \<and> st_pipeline st = pl_name p \<and> st_driver st = pl_driver p)
      \<or> is_err (c_state (sum_ops o1 o2) c)"
    using consumer_core.core_state [OF 1] consumer_core.core_state [OF 2] by (cases c) auto
qed

lemma sum_consumer:
  assumes 1: "job_consumer o1 I1 r1" and 2: "job_consumer o2 I2 r2"
  shows "job_consumer (sum_ops o1 o2) (case_sum I1 I2) (case_sum r1 r2)"
proof unfold_locales
  fix c c' p r
  assume "case_sum I1 I2 c" "c_register (sum_ops o1 o2) c p = (c', r)"
  then show "r = Ok () \<and> case_sum I1 I2 c' \<and> case_sum r1 r2 c' = Some p
      \<and> (\<not> ready (sum_ops o1 o2) c \<longrightarrow> \<not> ready (sum_ops o1 o2) c')"
    by (cases c) (auto dest: job_consumer.register [OF 1] job_consumer.register [OF 2])
next
  fix c c' j r
  assume "case_sum I1 I2 c" "c_push (sum_ops o1 o2) c j = (c', r)"
  then show "case_sum I1 I2 c' \<and> case_sum r1 r2 c' = case_sum r1 r2 c
      \<and> ready (sum_ops o1 o2) c' = ready (sum_ops o1 o2) c"
    by (cases c) (auto dest: job_consumer.push [OF 1] job_consumer.push [OF 2])
next
  fix c c' p r
  assume "case_sum I1 I2 c" "case_sum r1 r2 c = Some p" "\<not> ready (sum_ops o1 o2) c"
    "c_run (sum_ops o1 o2) c p = (c', r)"
  then show "r = Ok () \<and> case_sum I1 I2 c' \<and> case_sum r1 r2 c' = Some p \<and> ready (sum_ops o1 o2) c'"
    by (cases c) (auto dest: job_consumer.run [OF 1] job_consumer.run [OF 2])
next
  fix c c' p n r
  assume "case_sum I1 I2 c" "case_sum r1 r2 c = Some p" "c_pause (sum_ops o1 o2) c n = (c', r)"
  then show "r = Ok () \<and> case_sum I1 I2 c' \<and> case_sum r1 r2 c' = Some p \<and> \<not> ready (sum_ops o1 o2) c'
      \<and> counts (sum_ops o1 o2) c' = counts (sum_ops o1 o2) c"
    by (cases c) (auto dest: job_consumer.pause [OF 1] job_consumer.pause [OF 2])
next
  fix c c' p n r
  assume "case_sum I1 I2 c" "case_sum r1 r2 c = Some p" "c_resume (sum_ops o1 o2) c n = (c', r)"
  then show "r = Ok () \<and> case_sum I1 I2 c' \<and> case_sum r1 r2 c' = Some p \<and> ready (sum_ops o1 o2) c'
      \<and> counts (sum_ops o1 o2) c' = counts (sum_ops o1 o2) c"
    by (cases c) (auto dest: job_consumer.resume [OF 1] job_consumer.resume [OF 2])
next
  fix c p
  assume "case_sum I1 I2 c" "case_sum r1 r2 c = Some p"
  then show "\<exists>st. c_state (sum_ops o1 o2) c = Ok st \<and> st_pipeline st = pl_name p \<and> st_driver st = pl_driver p"
    using job_consumer.state [OF 1] job_consumer.state [OF 2] by (cases c) auto
qed

end
