(* ===== verification/Protocol.thy ===== *)
theory Protocol
  imports Jobs_Api
begin

text \<open>
  The response protocol between a worker and the jobs plugin (\<open>jobs/protocol\<close>): the decoding
  of a worker's answer into one of the three message types, the resulting call on the job's
  \<open>Acknowledger\<close>, and the three \<open>sync.Pool\<close>s of message objects.

  The JSON decoder is a parameter.  \<open>json.Unmarshal(data, v)\<close> writes into the object
  \<open>v\<close> it is given, so a decoder takes the object's previous value and returns its new value
  beside the error.
\<close>

section \<open>Messages and pools\<close>

record protocol =
  pT :: u32
  pData :: bytes

record errorResp =
  er_msg :: string
  er_requeue :: bool
  er_delay :: int
  er_headers :: headers

record queueResp =
  q_queue :: string
  q_payload :: string

abbreviation (input) NoError :: u32 where "NoError \<equiv> 0"
abbreviation (input) ErrorT :: u32 where "ErrorT \<equiv> 1"
abbreviation (input) ResponseT :: u32 where "ResponseT \<equiv> 2"

definition zero_protocol :: protocol where
  "zero_protocol = \<lparr>pT = 0, pData = []\<rparr>"

definition zero_errorResp :: errorResp where
  "zero_errorResp = \<lparr>er_msg = [], er_requeue = False, er_delay = 0, er_headers = Map.empty\<rparr>"

definition zero_queueResp :: queueResp where
  "zero_queueResp = \<lparr>q_queue = [], q_payload = []\<rparr>"

record resp_handler =
  qPool :: "queueResp list"
  ePool :: "errorResp list"
  pPool :: "protocol list"

definition NewResponseHandler :: resp_handler where
  "NewResponseHandler = \<lparr>qPool = [], ePool = [], pPool = []\<rparr>"

definition reset_protocol :: "protocol \<Rightarrow> protocol" where
  "reset_protocol p = p\<lparr>pT := 0, pData := []\<rparr>"

definition reset_errorResp :: "errorResp \<Rightarrow> errorResp" where
  "reset_errorResp e = e\<lparr>er_msg := [], er_headers := Map.empty, er_delay := 0, er_requeue := False\<rparr>"

definition reset_queueResp :: "queueResp \<Rightarrow> queueResp" where
  "reset_queueResp q = q\<lparr>q_queue := []\<rparr>"

definition getProtocol :: "nat \<Rightarrow> resp_handler \<Rightarrow> protocol \<times> resp_handler" where
  "getProtocol i rh = (let (x, p) = pool_get zero_protocol i (pPool rh) in (x, rh\<lparr>pPool := p\<rparr>))"

definition putProtocol :: "protocol \<Rightarrow> resp_handler \<Rightarrow> resp_handler" where
  "putProtocol x rh = rh\<lparr>pPool := pool_put (reset_protocol x) (pPool rh)\<rparr>"

definition getErrResp :: "nat \<Rightarrow> resp_handler \<Rightarrow> errorResp \<times> resp_handler" where
  "getErrResp i rh = (let (x, p) = pool_get zero_errorResp i (ePool rh) in (x, rh\<lparr>ePool := p\<rparr>))"

definition putErrResp :: "errorResp \<Rightarrow> resp_handler \<Rightarrow> resp_handler" where
  "putErrResp x rh = rh\<lparr>ePool := pool_put (reset_errorResp x) (ePool rh)\<rparr>"

definition getQResp :: "nat \<Rightarrow> resp_handler \<Rightarrow> queueResp \<times> resp_handler" where
  "getQResp i rh = (let (x, p) = pool_get zero_queueResp i (qPool rh) in (x, rh\<lparr>qPool := p\<rparr>))"

definition putQResp :: "queueResp \<Rightarrow> resp_handler \<Rightarrow> resp_handler" where
  "putQResp x rh = rh\<lparr>qPool := pool_put (reset_queueResp x) (qPool rh)\<rparr>"

section \<open>Handling a response\<close>

record decoders =
  dec_protocol :: "bytes \<Rightarrow> protocol \<Rightarrow> protocol \<times> error option"
  dec_errorResp :: "bytes \<Rightarrow> errorResp \<Rightarrow> errorResp \<times> error option"
  dec_queueResp :: "bytes \<Rightarrow> queueResp \<Rightarrow> queueResp \<times> error option"

text \<open>An error of \<open>Ack\<close> is logged and not returned; a panic is not an error.\<close>

primrec logged :: "unit res \<Rightarrow> unit res" where
  "logged (Ok u) = Ok ()"
| "logged (Err e) = Ok ()"
| "logged Panic = Panic"
| "logged Block = Block"

definition handleErrResp ::
  "decoders \<Rightarrow> nat \<Rightarrow> bytes \<Rightarrow> 's acknowledger \<Rightarrow> resp_handler \<Rightarrow> 's \<Rightarrow> resp_handler \<times> 's \<times> unit res"
where
  "handleErrResp J i data jb rh s =
     (let (er, rh1) = getErrResp i rh;
          (er', err) = dec_errorResp J data er;
          (s', r) =
            (case err of
               Some e \<Rightarrow> (s, Err e)
             | None \<Rightarrow>
                 if er_requeue er' then requeue jb (er_headers er') (er_delay er') s
                 else (let (s1, ra) = ack jb s in (s1, logged ra)))
      in (putErrResp er' rh1, s', r))"

definition handleQueueResp ::
  "decoders \<Rightarrow> nat \<Rightarrow> bytes \<Rightarrow> 's acknowledger \<Rightarrow> resp_handler \<Rightarrow> 's \<Rightarrow> resp_handler \<times> 's \<times> unit res"
where
  "handleQueueResp J i data jb rh s =
     (let (qs, rh1) = getQResp i rh;
          (qs', err) = dec_queueResp J data qs;
          (s', r) =
            (case err of
               Some e \<Rightarrow> (s, Err e)
             | None \<Rightarrow> respond jb (q_payload qs') (q_queue qs') s)
      in (putQResp qs' rh1, s', r))"

text \<open>\<open>i\<close> is the choice of the protocol pool, \<open>j\<close> that of the pool of the nested message.\<close>

definition Handle ::
  "decoders \<Rightarrow> nat \<Rightarrow> nat \<Rightarrow> bytes \<Rightarrow> 's acknowledger \<Rightarrow> resp_handler \<Rightarrow> 's \<Rightarrow> resp_handler \<times> 's \<times> unit res"
where
  "Handle J i j body jb rh s =
     (let op = ''jobs_handle_response'';
          (p, rh1) = getProtocol i rh;
          (p', err) = dec_protocol J body p;
          (rh2, s', r) =
            (case err of
               Some e \<Rightarrow> (rh1, s, Err (EOp op e))
             | None \<Rightarrow>
                 if pT p' = NoError then (let (s1, ra) = ack jb s in (rh1, s1, wrap op ra))
                 else if pT p' = ErrorT then
                   (let (rh3, s1, ra) = handleErrResp J j (pData p') jb rh1 s in (rh3, s1, wrap op ra))
                 else if pT p' = ResponseT then handleQueueResp J j (pData p') jb rh1 s
                 else (let (s1, ra) = ack jb s in (rh1, s1, wrap op ra)))
      in (putProtocol p' rh2, s', r))"

lemma wrap_logged [simp]: "wrap op (logged r) = logged r"
  by (cases r) simp_all

section \<open>Reference semantics without pools\<close>

text \<open>The call a decoded answer asks for.\<close>

datatype verdict =
    VAck | VAckQuiet | VRequeue headers int | VRespond bytes string | VFail error

definition verdict_of :: "decoders \<Rightarrow> bytes \<Rightarrow> verdict" where
  "verdict_of J body =
     (case dec_protocol J body zero_protocol of
        (p, Some e) \<Rightarrow> VFail (EOp ''jobs_handle_response'' e)
      | (p, None) \<Rightarrow>
          if pT p = ErrorT then
            (case dec_errorResp J (pData p) zero_errorResp of
               (er, Some e) \<Rightarrow> VFail (EOp ''jobs_handle_response'' e)
             | (er, None) \<Rightarrow> if er_requeue er then VRequeue (er_headers er) (er_delay er) else VAckQuiet)
          else if pT p = ResponseT then
            (case dec_queueResp J (pData p) zero_queueResp of
               (q, Some e) \<Rightarrow> VFail e
             | (q, None) \<Rightarrow> VRespond (q_payload q) (q_queue q))
          else VAck)"

primrec perform :: "'s acknowledger \<Rightarrow> verdict \<Rightarrow> 's \<Rightarrow> 's \<times> unit res" where
  "perform jb VAck s = (let (s', r) = ack jb s in (s', wrap ''jobs_handle_response'' r))"
| "perform jb VAckQuiet s = (let (s', r) = ack jb s in (s', logged r))"
| "perform jb (VRequeue h d) s = (let (s', r) = requeue jb h d s in (s', wrap ''jobs_handle_response'' r))"
| "perform jb (VRespond b q) s = respond jb b q s"
| "perform jb (VFail e) s = (s, Err e)"

text \<open>
  The pooled objects are indistinguishable from new ones, except for the payload a queue response
  keeps.
\<close>

definition pools_ok :: "resp_handler \<Rightarrow> bool" where
  "pools_ok rh \<longleftrightarrow> clean zero_protocol (pPool rh) \<and> clean zero_errorResp (ePool rh)
     \<and> (\<forall>q \<in> set (qPool rh). q_queue q = [])"

text \<open>
  A response is self-contained when decoding it does not depend on the payload the target object
  had before, i.e. when the message carries its own payload field.
\<close>

definition self_contained :: "decoders \<Rightarrow> bytes \<Rightarrow> bool" where
  "self_contained J body \<longleftrightarrow>
     (\<forall>p. dec_protocol J body zero_protocol = (p, None) \<and> pT p = ResponseT \<longrightarrow>
        (\<forall>q. q_queue q = [] \<longrightarrow> dec_queueResp J (pData p) q = dec_queueResp J (pData p) zero_queueResp))"

interpretation protocol_pool: clean_pool zero_protocol reset_protocol
  by unfold_locales (simp add: zero_protocol_def reset_protocol_def)

interpretation errorResp_pool: clean_pool zero_errorResp reset_errorResp
  by unfold_locales (simp add: zero_errorResp_def reset_errorResp_def)

lemma pools_ok_new: "pools_ok NewResponseHandler"
  by (simp add: pools_ok_def NewResponseHandler_def)

lemma getProtocol_ok:
  "pools_ok rh \<Longrightarrow> getProtocol i rh = (p, rh') \<Longrightarrow> p = zero_protocol \<and> pools_ok rh'"
  by (auto simp: getProtocol_def pools_ok_def dest: pool_get_clean split: prod.splits)

lemma putProtocol_ok: "pools_ok rh \<Longrightarrow> pools_ok (putProtocol p rh)"
  by (simp add: putProtocol_def pools_ok_def protocol_pool.put_clean)

lemma getErrResp_ok:
  "pools_ok rh \<Longrightarrow> getErrResp i rh = (e, rh') \<Longrightarrow> e = zero_errorResp \<and> pools_ok rh'"
  by (auto simp: getErrResp_def pools_ok_def dest: pool_get_clean split: prod.splits)

lemma putErrResp_ok: "pools_ok rh \<Longrightarrow> pools_ok (putErrResp e rh)"
  by (simp add: putErrResp_def pools_ok_def errorResp_pool.put_clean)

lemma getQResp_ok:
  "pools_ok rh \<Longrightarrow> getQResp i rh = (q, rh') \<Longrightarrow> q_queue q = [] \<and> pools_ok rh'"
  by (auto simp: getQResp_def pools_ok_def pool_get_def zero_queueResp_def
      split: prod.splits if_splits) (meson in_set_takeD in_set_dropD)+

lemma putQResp_ok: "pools_ok rh \<Longrightarrow> pools_ok (putQResp q rh)"
  by (auto simp: putQResp_def pools_ok_def pool_put_def reset_queueResp_def)

lemmas pools_intros = putProtocol_ok putErrResp_ok putQResp_ok

lemma handleErrResp_ok:
  assumes "pools_ok rh" "handleErrResp J i data jb rh s = (rh', s', r)"
  shows "pools_ok rh' \<and>
    (s', r) = (case dec_errorResp J data zero_errorResp of
        (er, Some e) \<Rightarrow> (s, Err e)
      | (er, None) \<Rightarrow> if er_requeue er then requeue jb (er_headers er) (er_delay er) s
                     else (let (s1, ra) = ack jb s in (s1, logged ra)))"
proof -
  obtain rh1 where get: "getErrResp i rh = (zero_errorResp, rh1)" and ok: "pools_ok rh1"
    using getErrResp_ok [OF assms(1)] by (metis surj_pair)
  obtain er err where dec: "dec_errorResp J data zero_errorResp = (er, err)" by fastforce
  obtain s1 r1 where eff: "(case err of Some e \<Rightarrow> (s, Err e)
      | None \<Rightarrow> if er_requeue er then requeue jb (er_headers er) (er_delay er) s
               else (let (s1, ra) = ack jb s in (s1, logged ra))) = (s1, r1)" by fastforce
  have "rh' = putErrResp er rh1" "(s', r) = (s1, r1)"
    using assms(2) by (simp_all add: handleErrResp_def get dec eff)
  with ok dec eff [symmetric] show ?thesis by (simp add: pools_intros)
qed

lemma handleQueueResp_ok:
  assumes "pools_ok rh" "handleQueueResp J i data jb rh s = (rh', s', r)"
    and indep: "\<And>q. q_queue q = [] \<Longrightarrow> dec_queueResp J data q = dec_queueResp J data zero_queueResp"
  shows "pools_ok rh' \<and>
    (s', r) = (case dec_queueResp J data zero_queueResp of
        (q, Some e) \<Rightarrow> (s, Err e)
      | (q, None) \<Rightarrow> respond jb (q_payload q) (q_queue q) s)"
proof -
  obtain q rh1 where get: "getQResp i rh = (q, rh1)" by fastforce
  then have q: "q_queue q = []" "pools_ok rh1" using getQResp_ok [OF assms(1)] by auto
  obtain q1 err where dec: "dec_queueResp J data zero_queueResp = (q1, err)" by fastforce
  obtain s1 r1 where eff: "(case err of Some e \<Rightarrow> (s, Err e)
      | None \<Rightarrow> respond jb (q_payload q1) (q_queue q1) s) = (s1, r1)" by fastforce
  have "rh' = putQResp q1 rh1" "(s', r) = (s1, r1)"
    using assms(2) by (simp_all add: handleQueueResp_def get indep [OF q(1)] dec eff)
  with q dec eff [symmetric] show ?thesis by (simp add: pools_intros)
qed

lemma handleErrResp_verdict:
  assumes "dec_protocol J body zero_protocol = (p, None)" "pT p = ErrorT"
    and "pools_ok rh" "handleErrResp J i (pData p) jb rh s = (rh', s', r)"
  shows "(s', wrap ''jobs_handle_response'' r) = perform jb (verdict_of J body) s"
  using handleErrResp_ok [OF assms(3,4), THEN conjunct2] assms(1,2)
  by (cases "dec_errorResp J (pData p) zero_errorResp"; cases "ack jb s")
    (auto simp: verdict_of_def split: option.splits prod.splits)

lemma handleQueueResp_verdict:
  assumes "dec_protocol J body zero_protocol = (p, None)" "pT p = ResponseT" "self_contained J body"
    and "pools_ok rh" "handleQueueResp J i (pData p) jb rh s = (rh', s', r)"
  shows "pools_ok rh' \<and> (s', r) = perform jb (verdict_of J body) s"
proof -
  have "dec_queueResp J (pData p) q = dec_queueResp J (pData p) zero_queueResp"
    if "q_queue q = []" for q
    using assms(1-3) that by (simp add: self_contained_def)
  from handleQueueResp_ok [OF assms(4,5) this] assms(1,2) show ?thesis
    by (auto simp: verdict_of_def split: option.splits prod.splits)
qed

section \<open>Properties\<close>


text \<open>A decoder for one-letter messages and an acknowledger that records the calls made on it.\<close>

definition sample_decoders :: decoders where
  "sample_decoders = \<lparr>
     dec_protocol = (\<lambda>b p.
       if b = ''e'' then (p\<lparr>pT := ErrorT, pData := ''r''\<rparr>, None)
       else if b = ''q'' then (p\<lparr>pT := ResponseT, pData := ''full''\<rparr>, None)
       else if b = ''p'' then (p\<lparr>pT := ResponseT, pData := ''part''\<rparr>, None)
       else (p, Some (Str ''json''))),
     dec_errorResp = (\<lambda>d e. (e\<lparr>er_requeue := True, er_delay := 7\<rparr>, None)),
     dec_queueResp = (\<lambda>d q.
       if d = ''full'' then (q\<lparr>q_queue := ''first'', q_payload := ''secret''\<rparr>, None)
       else (q\<lparr>q_queue := ''second''\<rparr>, None))\<rparr>"

datatype call = CAck | CNack | CRequeue int | CRespond bytes string

definition recorder :: "call list acknowledger" where
  "recorder = \<lparr>
     ack = (\<lambda>s. (s @ [CAck], Ok ())),
     nack = (\<lambda>s. (s @ [CNack], Ok ())),
     requeue = (\<lambda>h d s. (s @ [CRequeue d], Ok ())),
     respond = (\<lambda>b q s. (s @ [CRespond b q], Ok ()))\<rparr>"


text \<open>
  The payload of a queue response survives in the pool.  After a worker answered one job with a
  response, another job's response without a payload field is published with the first job's
  payload, because \<open>putQResp\<close> resets the queue name only.
\<close>
theorem response_payload_leak:
  assumes "dec_protocol J body zero_protocol = (\<lparr>pT = ResponseT, pData = d\<rparr>, None)"
    and "dec_queueResp J d zero_queueResp = (\<lparr>q_queue = q, q_payload = secret\<rparr>, None)"
    and "dec_protocol J body' zero_protocol = (\<lparr>pT = ResponseT, pData = d'\<rparr>, None)"
    and "\<And>x. dec_queueResp J d' x = (x\<lparr>q_queue := q'\<rparr>, None)"
    and "Handle J 0 0 body jb NewResponseHandler s = (rh1, s1, r1)"
    and "Handle J 0 0 body' jb' rh1 s1 = (rh2, s2, r2)"
  shows "(s2, r2) = respond jb' secret q' s1"
proof -
  have "pPool rh1 = [zero_protocol] \<and> qPool rh1 = [\<lparr>q_queue = [], q_payload = secret\<rparr>]"
    using assms(1,2,5)
    by (auto simp: Handle_def handleQueueResp_def NewResponseHandler_def pool_get_def pool_put_def
        getProtocol_def putProtocol_def getQResp_def putQResp_def reset_queueResp_def
        reset_protocol_def zero_protocol_def split: prod.splits)
  then show ?thesis
    using assms(3,4,6)
    by (auto simp: Handle_def handleQueueResp_def pool_get_def
        getProtocol_def putProtocol_def getQResp_def putQResp_def split: prod.splits)
qed

theorem response_payload_leak_witness:
  "\<exists>rh1 rh2. Handle sample_decoders 0 0 ''q'' recorder NewResponseHandler []
        = (rh1, [CRespond ''secret'' ''first''], Ok ())
     \<and> Handle sample_decoders 0 0 ''p'' recorder rh1 [CRespond ''secret'' ''first'']
        = (rh2, [CRespond ''secret'' ''first'', CRespond ''secret'' ''second''], Ok ())"
proof -
  obtain rh1 where h1: "Handle sample_decoders 0 0 ''q'' recorder NewResponseHandler []
      = (rh1, [CRespond ''secret'' ''first''], Ok ())"
    by (simp add: Handle_def handleQueueResp_def NewResponseHandler_def pool_get_def getProtocol_def
        getQResp_def sample_decoders_def recorder_def)
  obtain rh2 s2 r2 where h2: "Handle sample_decoders 0 0 ''p'' recorder rh1
      [CRespond ''secret'' ''first''] = (rh2, s2, r2)"
    by (metis surj_pair)
  have "(s2, r2) = respond recorder ''secret'' ''second'' [CRespond ''secret'' ''first'']"
    by (rule response_payload_leak [OF _ _ _ _ h1 h2, where d = "''full''" and d' = "''part''"
          and q = "''first''"])
      (simp_all add: sample_decoders_def zero_protocol_def zero_queueResp_def)
  with h1 h2 show ?thesis by (simp add: recorder_def)
qed

end
