(* ===== verification/Jobs_Plugin.thy ===== *)
theory Jobs_Plugin
  imports Protocol
begin

text \<open>
  The jobs plugin (\<open>jobs/plugin.go\<close>, \<open>jobs/rpc.go\<close>, \<open>jobs/listener.go\<close>,
  \<open>jobs/config.go\<close>): the registry of pipelines and consumers, the routing of pushes, the
  lifecycle of a pipeline, the RPC surface and one round of a poller.

  The plugin is polymorphic in the state \<open>'c\<close> of a consumer.  A consumer is reached through the
  operations of its interface, the argument \<open>ops\<close>; a \<open>sync.Map\<close> holds pointers, so an
  operation stores the consumer's new state back under the same key.  The lemmas about the plugin as
  a whole are proved in the locale \<open>job_consumer\<close>, from the contract of the interface.

  The worker pool, the priority queue and the constructors of the drivers are parameters.  Logging
  and timing are left out.
\<close>

section \<open>Configuration\<close>

record jconfig =
  num_pollers :: u8
  pipeline_size :: u64
  timeout :: int
  cfg_pipelines :: "string \<rightharpoonup> pipeline"
  cfg_consume :: "string list"

definition jobs_InitDefaults :: "nat \<Rightarrow> jconfig \<Rightarrow> jconfig" where
  "jobs_InitDefaults numCPU c =
     (let c1 = (if pipeline_size c = 0 then c\<lparr>pipeline_size := 1000000\<rparr> else c);
          c2 = (if num_pollers c1 = 0 then c1\<lparr>num_pollers := of_nat numCPU\<rparr> else c1);
          c3 = c2\<lparr>cfg_pipelines := (\<lambda>k. map_option (\<lambda>p. p\<lparr>pl_name := k\<rparr>) (cfg_pipelines c2 k))\<rparr>
      in if timeout c3 = 0 then c3\<lparr>timeout := 60\<rparr> else c3)"

section \<open>The plugin\<close>

record 'c constructor =
  ConsumerFromConfig :: "string \<Rightarrow> 'c res"
  ConsumerFromPipeline :: "pipeline \<Rightarrow> 'c res"

record 'c plugin =
  pg_cfg :: jconfig
  pg_constructors :: "string \<rightharpoonup> 'c constructor"
  pg_consumers :: "string \<rightharpoonup> 'c"
  pg_pipelines :: "string \<rightharpoonup> pipeline"
  pg_consume :: "string set"
  pg_jobsOk :: u64
  pg_pushOk :: u64
  pg_jobsErr :: u64
  pg_pushErr :: u64
  pg_pldPool :: "payload list"
  pg_respHandler :: resp_handler

text \<open>\<open>cfg\<close>: the configuration, \<open>None\<close> when the section is absent.\<close>

definition jobs_Init :: "nat \<Rightarrow> jconfig res option \<Rightarrow> 'c plugin res" where
  "jobs_Init numCPU cfg =
     (let op = ''jobs_plugin_init'' in
      case cfg of
        None \<Rightarrow> Err (EOp op (Kind Disabled))
      | Some (Err e) \<Rightarrow> Err (EOp op e)
      | Some Panic \<Rightarrow> Panic
      | Some Block \<Rightarrow> Block
      | Some (Ok c) \<Rightarrow>
          (let c1 = jobs_InitDefaults numCPU c in
           Ok \<lparr>pg_cfg = c1, pg_constructors = Map.empty, pg_consumers = Map.empty,
             pg_pipelines = cfg_pipelines c1, pg_consume = set (cfg_consume c1), pg_jobsOk = 0,
             pg_pushOk = 0, pg_jobsErr = 0, pg_pushErr = 0, pg_pldPool = [],
             pg_respHandler = NewResponseHandler\<rparr>))"

definition CollectMQBrokers :: "string \<Rightarrow> 'c constructor \<Rightarrow> 'c plugin \<Rightarrow> 'c plugin" where
  "CollectMQBrokers name c P = P\<lparr>pg_constructors := (pg_constructors P)(name \<mapsto> c)\<rparr>"

definition store_consumer :: "string \<Rightarrow> 'c \<Rightarrow> 'c plugin \<Rightarrow> 'c plugin" where
  "store_consumer name c P = P\<lparr>pg_consumers := (pg_consumers P)(name \<mapsto> c)\<rparr>"

definition register_failed :: "string \<Rightarrow> pipeline \<Rightarrow> error" where
  "register_failed op pipe = EOp op (Str (''pipe register failed for the driver: '' @ pl_driver pipe
     @ '' with pipe name: '' @ pl_name pipe))"

text \<open>One call of the function \<open>Serve\<close> passes to \<open>Range\<close>; an error ends the iteration.\<close>

definition serve_pipeline :: "'c consumer_ops \<Rightarrow> string \<Rightarrow> pipeline \<Rightarrow> 'c plugin \<Rightarrow> 'c plugin \<times> unit res" where
  "serve_pipeline ops name pipe P =
     (let op = ''jobs_plugin_serve''; dr = pl_driver pipe in
      if dr = [] then (P, Ok ())
      else case pg_constructors P dr of
        None \<Rightarrow> (P, Ok ())
      | Some con \<Rightarrow>
          (case ConsumerFromConfig con (''jobs.pipelines.'' @ name @ ''.config'') of
             Err e \<Rightarrow> (P, Err (EOp op e))
           | Panic \<Rightarrow> (P, Panic)
           | Block \<Rightarrow> (P, Block)
           | Ok d \<Rightarrow>
               (let (d1, r) = c_register ops d pipe; P1 = store_consumer name d1 P in
                case r of
                  Err e \<Rightarrow> (P1, Err (register_failed op pipe))
                | Panic \<Rightarrow> (P1, Panic)
                | Block \<Rightarrow> (P1, Block)
                | Ok _ \<Rightarrow>
                    if name \<in> pg_consume P1 then
                      (let (d2, r2) = c_run ops d1 pipe
                       in (store_consumer name d2 P1, wrap op r2))
                    else (P1, Ok ()))))"

fun serve_pipelines :: "'c consumer_ops \<Rightarrow> string list \<Rightarrow> 'c plugin \<Rightarrow> 'c plugin \<times> unit res" where
  "serve_pipelines ops [] P = (P, Ok ())"
| "serve_pipelines ops (k # ks) P =
     (case pg_pipelines P k of
        None \<Rightarrow> serve_pipelines ops ks P
      | Some pipe \<Rightarrow>
          (let (P1, r) = serve_pipeline ops k pipe P in
           if r = Ok () then serve_pipelines ops ks P1 else (P1, r)))"

text \<open>
  \<open>ks\<close> is the order of the iteration, \<open>newPool\<close> the outcome of \<open>NewWorkerPool\<close>.  The result
  is what the error channel receives and the number of pollers that are started.
\<close>

definition jobs_Serve ::
  "'c consumer_ops \<Rightarrow> string list \<Rightarrow> error option \<Rightarrow> 'c plugin \<Rightarrow> 'c plugin \<times> unit res \<times> nat"
where
  "jobs_Serve ops ks newPool P =
     (let (P1, r) = serve_pipelines ops ks P in
      if r \<noteq> Ok () then (P1, r, 0)
      else case newPool of
        Some e \<Rightarrow> (P1, Err e, 0)
      | None \<Rightarrow> (P1, Ok (), unat (num_pollers (pg_cfg P1))))"

fun stop_consumers :: "'c consumer_ops \<Rightarrow> string list \<Rightarrow> 'c plugin \<Rightarrow> 'c plugin \<times> unit res" where
  "stop_consumers ops [] P = (P, Ok ())"
| "stop_consumers ops (k # ks) P =
     (case pg_consumers P k of
        None \<Rightarrow> stop_consumers ops ks P
      | Some c \<Rightarrow>
          (let (c1, r) = c_stop ops c; P1 = store_consumer k c1 P in
           case r of
             Panic \<Rightarrow> (P1, Panic)
           | Block \<Rightarrow> (P1, Block)
           | _ \<Rightarrow> stop_consumers ops ks P1))"

definition jobs_Stop :: "'c consumer_ops \<Rightarrow> string list \<Rightarrow> 'c plugin \<Rightarrow> 'c plugin \<times> unit res" where
  "jobs_Stop ops ks P =
     (let (P1, r) = stop_consumers ops ks P in
      if r = Ok () then (P1\<lparr>pg_pipelines := Map.empty\<rparr>, Ok ()) else (P1, r))"

fun jobs_states :: "'c consumer_ops \<Rightarrow> string list \<Rightarrow> 'c plugin \<Rightarrow> jstate list res" where
  "jobs_states ops [] P = Ok []"
| "jobs_states ops (k # ks) P =
     (case pg_consumers P k of
        None \<Rightarrow> jobs_states ops ks P
      | Some c \<Rightarrow>
          (case c_state ops c of
             Ok st \<Rightarrow>
               (case jobs_states ops ks P of
                  Ok sts \<Rightarrow> Ok (st # sts)
                | r \<Rightarrow> r)
           | Err e \<Rightarrow> Err e
           | Panic \<Rightarrow> Panic
           | Block \<Rightarrow> Block))"

definition JobsState :: "'c consumer_ops \<Rightarrow> string list \<Rightarrow> 'c plugin \<Rightarrow> jstate list res" where
  "JobsState ops ks P = wrap ''jobs_plugin_drivers_state'' (jobs_states ops ks P)"

section \<open>Pushing\<close>

definition inherit_priority :: "pipeline \<Rightarrow> job \<Rightarrow> job" where
  "inherit_priority ppl j =
     (if op_priority (job_options j) = 0
      then j\<lparr>job_options := (job_options j)\<lparr>op_priority := pl_priority ppl\<rparr>\<rparr> else j)"

definition no_pipeline :: "string \<Rightarrow> string \<Rightarrow> error" where
  "no_pipeline op pp = EOp op (Str (''no such pipeline, requested: '' @ pp))"

definition no_consumer :: "string \<Rightarrow> pipeline \<Rightarrow> error" where
  "no_consumer op ppl =
     EOp op (Str (''consumer not registered for the requested driver: '' @ pl_driver ppl))"

definition jobs_Push :: "'c consumer_ops \<Rightarrow> job \<Rightarrow> 'c plugin \<Rightarrow> 'c plugin \<times> unit res" where
  "jobs_Push ops j P =
     (let op = ''jobs_plugin_push'' in
      case pg_pipelines P (op_pipeline (job_options j)) of
        None \<Rightarrow> (P, Err (no_pipeline op (op_pipeline (job_options j))))
      | Some ppl \<Rightarrow>
          (case pg_consumers P (pl_name ppl) of
             None \<Rightarrow> (P, Err (no_consumer op ppl))
           | Some d \<Rightarrow>
               (let (d1, r) = c_push ops d (inherit_priority ppl j);
                    P1 = store_consumer (pl_name ppl) d1 P
                in case r of
                     Ok _ \<Rightarrow> (P1\<lparr>pg_pushOk := pg_pushOk P1 + 1\<rparr>, Ok ())
                   | Err e \<Rightarrow> (P1\<lparr>pg_pushErr := pg_pushErr P1 + 1\<rparr>, Err (EOp op e))
                   | Panic \<Rightarrow> (P1, Panic)
                   | Block \<Rightarrow> (P1, Block))))"

fun jobs_PushBatch :: "'c consumer_ops \<Rightarrow> job list \<Rightarrow> 'c plugin \<Rightarrow> 'c plugin \<times> unit res" where
  "jobs_PushBatch ops [] P = (P, Ok ())"
| "jobs_PushBatch ops (j # js) P =
     (let op = ''jobs_plugin_push'' in
      case pg_pipelines P (op_pipeline (job_options j)) of
        None \<Rightarrow> (P, Err (no_pipeline op (op_pipeline (job_options j))))
      | Some ppl \<Rightarrow>
          (case pg_consumers P (pl_name ppl) of
             None \<Rightarrow> (P, Err (no_consumer op ppl))
           | Some d \<Rightarrow>
               (let (d1, r) = c_push ops d (inherit_priority ppl j);
                    P1 = store_consumer (pl_name ppl) d1 P
                in case r of
                     Ok _ \<Rightarrow> jobs_PushBatch ops js P1
                   | Err e \<Rightarrow> (P1\<lparr>pg_pushErr := pg_pushErr P1 + 1\<rparr>, Err (EOp op e))
                   | Panic \<Rightarrow> (P1, Panic)
                   | Block \<Rightarrow> (P1, Block))))"

section \<open>The lifecycle of a pipeline\<close>

definition jobs_Pause :: "'c consumer_ops \<Rightarrow> string \<Rightarrow> 'c plugin \<Rightarrow> 'c plugin \<times> unit res" where
  "jobs_Pause ops pp P =
     (case pg_pipelines P pp of
        None \<Rightarrow> (P, Ok ())
      | Some ppl \<Rightarrow>
          (case pg_consumers P (pl_name ppl) of
             None \<Rightarrow> (P, Ok ())
           | Some d \<Rightarrow>
               (let (d1, r) = c_pause ops d (pl_name ppl) in (store_consumer (pl_name ppl) d1 P, r))))"

definition jobs_Resume :: "'c consumer_ops \<Rightarrow> string \<Rightarrow> 'c plugin \<Rightarrow> 'c plugin \<times> unit res" where
  "jobs_Resume ops pp P =
     (case pg_pipelines P pp of
        None \<Rightarrow> (P, Ok ())
      | Some ppl \<Rightarrow>
          (case pg_consumers P (pl_name ppl) of
             None \<Rightarrow> (P, Ok ())
           | Some d \<Rightarrow>
               (let (d1, r) = c_resume ops d (pl_name ppl) in (store_consumer (pl_name ppl) d1 P, r))))"

definition jobs_Declare :: "'c consumer_ops \<Rightarrow> pipeline \<Rightarrow> 'c plugin \<Rightarrow> 'c plugin \<times> unit res" where
  "jobs_Declare ops pipe P =
     (let op = ''jobs_plugin_declare''; dr = pl_driver pipe in
      if dr = [] then
        (P, Err (EOp op (Str (''no associated driver with the pipeline, pipeline name: '' @ pl_name pipe))))
      else case pg_constructors P dr of
        None \<Rightarrow> (P, Ok ())
      | Some con \<Rightarrow>
          (case ConsumerFromPipeline con pipe of
             Err e \<Rightarrow> (P, Err (EOp op e))
           | Panic \<Rightarrow> (P, Panic)
           | Block \<Rightarrow> (P, Block)
           | Ok d \<Rightarrow>
               (let (d1, r) = c_register ops d pipe in
                case r of
                  Err e \<Rightarrow> (P, Err (register_failed op pipe))
                | Panic \<Rightarrow> (P, Panic)
                | Block \<Rightarrow> (P, Block)
                | Ok _ \<Rightarrow>
                    (let (d2, r2) = (if pl_name pipe \<in> pg_consume P then c_run ops d1 pipe else (d1, Ok ()))
                     in if r2 = Ok ()
                        then ((store_consumer (pl_name pipe) d2 P)
                                \<lparr>pg_pipelines := (pg_pipelines P)(pl_name pipe \<mapsto> pipe)\<rparr>, Ok ())
                        else (P, wrap op r2)))))"

definition jobs_Destroy :: "'c consumer_ops \<Rightarrow> string \<Rightarrow> 'c plugin \<Rightarrow> 'c plugin \<times> unit res" where
  "jobs_Destroy ops pp P =
     (let op = ''jobs_plugin_destroy'' in
      case pg_pipelines P pp of
        None \<Rightarrow> (P, Err (no_pipeline op pp))
      | Some ppl \<Rightarrow>
          (case pg_consumers P (pl_name ppl) of
             None \<Rightarrow> (P, Err (no_consumer op ppl))
           | Some d \<Rightarrow>
               (let P1 = P\<lparr>pg_consumers := (pg_consumers P)(pl_name ppl := None),
                          pg_pipelines := (pg_pipelines P)(pp := None)\<rparr>;
                    (d1, r) = c_stop ops d
                in (P1, wrap op r))))"

text \<open>\<open>List\<close> returns the names in the order of the iteration.\<close>

definition jobs_List :: "string list \<Rightarrow> 'c plugin \<Rightarrow> string list" where
  "jobs_List ks P = filter (\<lambda>k. pg_pipelines P k \<noteq> None) ks"

section \<open>RPC\<close>

text \<open>The transport entities; the getters of a nil message return zero values.\<close>

record pb_options =
  pb_priority :: int
  pb_pipeline :: string
  pb_delay :: int

record pb_job =
  pb_name :: string
  pb_id :: string
  pb_payload :: string
  pb_headers :: "string \<rightharpoonup> string list option"
  pb_opts :: "pb_options option"

definition pb_zero_options :: pb_options where
  "pb_zero_options = \<lparr>pb_priority = 0, pb_pipeline = [], pb_delay = 0\<rparr>"

definition pb_zero_job :: pb_job where
  "pb_zero_job = \<lparr>pb_name = [], pb_id = [], pb_payload = [], pb_headers = Map.empty, pb_opts = None\<rparr>"

definition from_pb :: "pb_job option \<Rightarrow> job" where
  "from_pb m =
     (let j = (case m of None \<Rightarrow> pb_zero_job | Some j \<Rightarrow> j);
          o' = (case pb_opts j of None \<Rightarrow> pb_zero_options | Some x \<Rightarrow> x)
      in \<lparr>job_name = pb_name j, job_ident = pb_id j, job_payload = pb_payload j,
          job_headers = (\<lambda>k. map_option (\<lambda>v. case v of None \<Rightarrow> [] | Some vs \<Rightarrow> vs) (pb_headers j k)),
          job_options = \<lparr>op_priority = pb_priority o', op_pipeline = pb_pipeline o', op_delay = pb_delay o'\<rparr>\<rparr>)"

definition rpc_Push :: "'c consumer_ops \<Rightarrow> pb_job option \<Rightarrow> 'c plugin \<Rightarrow> 'c plugin \<times> unit res" where
  "rpc_Push ops m P =
     (let op = ''rpc_push'' in
      if (case m of None \<Rightarrow> [] | Some j \<Rightarrow> pb_id j) = []
      then (P, Err (EOp op (Str ''empty ID field not allowed'')))
      else (let (P1, r) = jobs_Push ops (from_pb m) P in (P1, wrap op r)))"

definition rpc_PushBatch :: "'c consumer_ops \<Rightarrow> pb_job option list \<Rightarrow> 'c plugin \<Rightarrow> 'c plugin \<times> unit res" where
  "rpc_PushBatch ops ms P =
     (let (P1, r) = jobs_PushBatch ops (map from_pb ms) P in (P1, wrap ''rpc_push_batch'' r))"

fun rpc_Pause :: "'c consumer_ops \<Rightarrow> string list \<Rightarrow> 'c plugin \<Rightarrow> 'c plugin \<times> unit res" where
  "rpc_Pause ops [] P = (P, Ok ())"
| "rpc_Pause ops (pp # pps) P =
     (let (P1, r) = jobs_Pause ops pp P in if r = Ok () then rpc_Pause ops pps P1 else (P1, r))"

fun rpc_Resume :: "'c consumer_ops \<Rightarrow> string list \<Rightarrow> 'c plugin \<Rightarrow> 'c plugin \<times> unit res" where
  "rpc_Resume ops [] P = (P, Ok ())"
| "rpc_Resume ops (pp # pps) P =
     (let (P1, r) = jobs_Resume ops pp P in if r = Ok () then rpc_Resume ops pps P1 else (P1, r))"

definition rpc_List :: "string list \<Rightarrow> 'c plugin \<Rightarrow> string list res" where
  "rpc_List ks P = Ok (jobs_List ks P)"

text \<open>\<open>pipelineOf\<close>: the accessors of the pipeline built from the request's entries.\<close>

definition rpc_Declare ::
  "'c consumer_ops \<Rightarrow> ((string \<rightharpoonup> string) \<Rightarrow> pipeline) \<Rightarrow> (string \<rightharpoonup> string) \<Rightarrow> 'c plugin \<Rightarrow> 'c plugin \<times> unit res"
where
  "rpc_Declare ops pipelineOf req P =
     (let (P1, r) = jobs_Declare ops (pipelineOf req) P in (P1, wrap ''rpc_declare_pipeline'' r))"

fun rpc_destroy_loop ::
  "'c consumer_ops \<Rightarrow> string list \<Rightarrow> string list \<Rightarrow> 'c plugin \<Rightarrow> 'c plugin \<times> string list res"
where
  "rpc_destroy_loop ops [] acc P = (P, Ok acc)"
| "rpc_destroy_loop ops (pp # pps) acc P =
     (case jobs_Destroy ops pp P of
        (P1, Ok _) \<Rightarrow> rpc_destroy_loop ops pps (acc @ [pp]) P1
      | (P1, Err e) \<Rightarrow> (P1, Err e)
      | (P1, Panic) \<Rightarrow> (P1, Panic)
      | (P1, Block) \<Rightarrow> (P1, Block))"

definition rpc_Destroy :: "'c consumer_ops \<Rightarrow> string list \<Rightarrow> 'c plugin \<Rightarrow> 'c plugin \<times> string list res" where
  "rpc_Destroy ops pps P =
     (let (P1, r) = rpc_destroy_loop ops pps [] P in (P1, wrap ''rpc_declare_pipeline'' r))"

definition rpc_Stat :: "'c consumer_ops \<Rightarrow> string list \<Rightarrow> 'c plugin \<Rightarrow> jstate list res" where
  "rpc_Stat ops ks P = wrap ''rpc_stats'' (JobsState ops ks P)"

section \<open>The poller\<close>

definition zero_payload :: payload where
  "zero_payload = \<lparr>pld_body = [], pld_context = [], pld_codec = CODEC_NONE\<rparr>"

definition getPayload :: "nat \<Rightarrow> bytes \<Rightarrow> bytes \<Rightarrow> 'c plugin \<Rightarrow> payload \<times> 'c plugin" where
  "getPayload i body ctx P =
     (let (pld, pool) = pool_get zero_payload i (pg_pldPool P)
      in (pld\<lparr>pld_body := body, pld_context := ctx, pld_codec := CODEC_JSON\<rparr>, P\<lparr>pg_pldPool := pool\<rparr>))"

definition putPayload :: "payload \<Rightarrow> 'c plugin \<Rightarrow> 'c plugin" where
  "putPayload pld P =
     P\<lparr>pg_pldPool := pool_put (pld\<lparr>pld_body := [], pld_context := []\<rparr>) (pg_pldPool P)\<rparr>"

text \<open>An item of the priority queue, and whether it implements \<open>Acknowledger\<close>.\<close>

record 's pq_item =
  it_id :: string
  it_body :: bytes
  it_context :: "bytes res"
  it_ack :: "'s acknowledger option"

definition count_err :: "'c plugin \<Rightarrow> 'c plugin" where
  "count_err P = P\<lparr>pg_jobsErr := pg_jobsErr P + 1\<rparr>"

definition count_ok :: "'c plugin \<Rightarrow> 'c plugin" where
  "count_ok P = P\<lparr>pg_jobsOk := pg_jobsOk P + 1\<rparr>"

text \<open>
  One round of a poller for the item \<open>jb\<close>.  \<open>exec\<close> is the worker pool: \<open>Ok None\<close> is a nil
  response or a response with a nil body.  \<open>i\<close>, \<open>j\<close>, \<open>k\<close> are the choices of the object
  pools.  An error of \<open>Ack\<close> or \<open>Nack\<close> that the code only logs becomes \<open>Ok\<close>.
\<close>

definition poll ::
  "decoders \<Rightarrow> (payload \<Rightarrow> bytes option res) \<Rightarrow> nat \<Rightarrow> nat \<Rightarrow> nat \<Rightarrow> 's pq_item \<Rightarrow> 'c plugin \<Rightarrow> 's
     \<Rightarrow> 'c plugin \<times> 's \<times> unit res"
where
  "poll J exec i j k jb P s =
     (case it_context jb of
        Err e \<Rightarrow>
          (case it_ack jb of
             None \<Rightarrow> (count_err P, s, Panic)
           | Some a \<Rightarrow> (let (s1, r) = nack a s in (count_err P, s1, logged r)))
      | Panic \<Rightarrow> (P, s, Panic)
      | Block \<Rightarrow> (P, s, Block)
      | Ok ctx \<Rightarrow>
          (let (pld, P1) = getPayload i (it_body jb) ctx P in
           case exec pld of
             Panic \<Rightarrow> (P1, s, Panic)
           | Block \<Rightarrow> (P1, s, Block)
           | Err e \<Rightarrow>
               (case it_ack jb of
                  None \<Rightarrow> (putPayload pld (count_err P1), s, Ok ())
                | Some a \<Rightarrow>
                    (let (s1, r) = nack a s in (putPayload pld (count_err P1), s1, logged r)))
           | Ok resp \<Rightarrow>
               (case it_ack jb of
                  None \<Rightarrow> (putPayload pld P1, s, Ok ())
                | Some a \<Rightarrow>
                    (case resp of
                       None \<Rightarrow>
                         (let (s1, r) = ack a s; P2 = putPayload pld P1 in
                          case r of
                            Ok _ \<Rightarrow> (count_ok P2, s1, Ok ())
                          | Err e \<Rightarrow> (count_err P2, s1, Ok ())
                          | Panic \<Rightarrow> (P2, s1, Panic)
                          | Block \<Rightarrow> (P2, s1, Block))
                     | Some body \<Rightarrow>
                         (let (rh, s1, r) = Handle J j k body a (pg_respHandler P1) s;
                              P2 = P1\<lparr>pg_respHandler := rh\<rparr>
                          in case r of
                               Ok _ \<Rightarrow> (putPayload pld (count_ok P2), s1, Ok ())
                             | Err e \<Rightarrow>
                                 (let (s2, r2) = ack a s1
                                  in (putPayload pld (count_err P2), s2, logged r2))
                             | Panic \<Rightarrow> (P2, s1, Panic)
                             | Block \<Rightarrow> (P2, s1, Block))))))"

section \<open>The plugin over a consumer that keeps its contract\<close>

text \<open>Every pipeline is stored under its own name.\<close>

definition names_ok :: "'c plugin \<Rightarrow> bool" where
  "names_ok P \<longleftrightarrow> (\<forall>k p. pg_pipelines P k = Some p \<longrightarrow> pl_name p = k)"

text \<open>Every consumer keeps its invariant and is registered for the pipeline it is stored under.\<close>

definition consumers_ok :: "('c \<Rightarrow> bool) \<Rightarrow> ('c \<Rightarrow> pipeline option) \<Rightarrow> 'c plugin \<Rightarrow> bool" where
  "consumers_ok I reg P \<longleftrightarrow> (\<forall>k c. pg_consumers P k = Some c \<longrightarrow>
     I c \<and> (\<exists>p. reg c = Some p \<and> pl_name p = k))"

text \<open>The drivers hand out consumers that keep the invariant and do not listen yet.\<close>

definition constructors_ok :: "'c consumer_ops \<Rightarrow> ('c \<Rightarrow> bool) \<Rightarrow> 'c plugin \<Rightarrow> bool" where
  "constructors_ok ops I P \<longleftrightarrow> (\<forall>d con. pg_constructors P d = Some con \<longrightarrow>
     (\<forall>p c. ConsumerFromPipeline con p = Ok c \<longrightarrow> I c \<and> \<not> ready ops c) \<and>
     (\<forall>key c. ConsumerFromConfig con key = Ok c \<longrightarrow> I c \<and> \<not> ready ops c))"

definition plugin_ok :: "'c consumer_ops \<Rightarrow> ('c \<Rightarrow> bool) \<Rightarrow> ('c \<Rightarrow> pipeline option) \<Rightarrow> 'c plugin \<Rightarrow> bool" where
  "plugin_ok ops I reg P \<longleftrightarrow> names_ok P \<and> consumers_ok I reg P \<and> constructors_ok ops I P"

lemma jobs_Init_result:
  assumes "jobs_Init n (Some (Ok c)) = Ok P"
  shows "names_ok P \<and> pg_consumers P = Map.empty \<and> pg_constructors P = Map.empty
    \<and> pg_consume P = set (cfg_consume c)"
proof -
  have "cfg_pipelines (jobs_InitDefaults n c) k = Some p \<Longrightarrow> pl_name p = k" for k p
    by (auto simp: jobs_InitDefaults_def Let_def split: if_splits)
  moreover have "cfg_consume (jobs_InitDefaults n c) = cfg_consume c"
    by (simp add: jobs_InitDefaults_def Let_def)
  ultimately show ?thesis using assms by (auto simp: jobs_Init_def Let_def names_ok_def)
qed

text \<open>The calls the plugin serves.\<close>

datatype plugin_call =
    CallPush job | CallPushBatch "job list" | CallPause string | CallResume string
  | CallDeclare pipeline | CallDestroy string

primrec serve_call :: "'c consumer_ops \<Rightarrow> plugin_call \<Rightarrow> 'c plugin \<Rightarrow> 'c plugin \<times> unit res" where
  "serve_call ops (CallPush j) P = jobs_Push ops j P"
| "serve_call ops (CallPushBatch js) P = jobs_PushBatch ops js P"
| "serve_call ops (CallPause pp) P = jobs_Pause ops pp P"
| "serve_call ops (CallResume pp) P = jobs_Resume ops pp P"
| "serve_call ops (CallDeclare p) P = jobs_Declare ops p P"
| "serve_call ops (CallDestroy pp) P = jobs_Destroy ops pp P"

definition serve_calls :: "'c consumer_ops \<Rightarrow> plugin_call list \<Rightarrow> 'c plugin \<Rightarrow> 'c plugin" where
  "serve_calls ops cs P = fold (\<lambda>c P. fst (serve_call ops c P)) cs P"

lemma consumers_okD:
  "consumers_ok I reg P \<Longrightarrow> pg_consumers P k = Some c \<Longrightarrow> I c \<and> (\<exists>p. reg c = Some p \<and> pl_name p = k)"
  by (simp add: consumers_ok_def)

lemma consumers_ok_store:
  "consumers_ok I reg P \<Longrightarrow> I c \<Longrightarrow> reg c = Some p \<Longrightarrow> consumers_ok I reg (store_consumer (pl_name p) c P)"
  by (auto simp: consumers_ok_def store_consumer_def)

lemma consumers_ok_updates [simp]:
  "consumers_ok I reg (P\<lparr>pg_pushOk := n\<rparr>) = consumers_ok I reg P"
  "consumers_ok I reg (P\<lparr>pg_pushErr := n\<rparr>) = consumers_ok I reg P"
  "consumers_ok I reg (P\<lparr>pg_pipelines := m\<rparr>) = consumers_ok I reg P"
  by (simp_all add: consumers_ok_def)

lemma store_consumer_frame [simp]:
  "pg_pipelines (store_consumer k c P) = pg_pipelines P"
  "pg_constructors (store_consumer k c P) = pg_constructors P"
  "pg_consume (store_consumer k c P) = pg_consume P"
  "pg_pushOk (store_consumer k c P) = pg_pushOk P"
  "pg_pushErr (store_consumer k c P) = pg_pushErr P"
  "pg_consumers (store_consumer k c P) = (pg_consumers P)(k \<mapsto> c)"
  by (simp_all add: store_consumer_def)

lemma plugin_ok_update:
  "plugin_ok ops I reg P \<Longrightarrow> pg_pipelines P' = pg_pipelines P \<Longrightarrow>
     pg_constructors P' = pg_constructors P \<Longrightarrow> consumers_ok I reg P' \<Longrightarrow> plugin_ok ops I reg P'"
  by (simp add: plugin_ok_def names_ok_def constructors_ok_def)

lemma plugin_ok_restore:
  assumes "plugin_ok ops I reg P" "pg_consumers P k = Some d" "I d1" "reg d1 = reg d"
  shows "plugin_ok ops I reg (store_consumer k d1 P)"
proof -
  obtain p where "reg d = Some p" "pl_name p = k"
    using assms(1,2) consumers_okD by (fastforce simp: plugin_ok_def)
  then have "consumers_ok I reg (store_consumer k d1 P)"
    using assms consumers_ok_store [of I reg P d1 p] by (simp add: plugin_ok_def)
  with assms(1) show ?thesis by (simp add: plugin_ok_update)
qed

lemma plugin_ok_metrics [simp]:
  "plugin_ok ops I reg (P\<lparr>pg_pushOk := n\<rparr>) = plugin_ok ops I reg P"
  "plugin_ok ops I reg (P\<lparr>pg_pushErr := n\<rparr>) = plugin_ok ops I reg P"
  by (simp_all add: plugin_ok_def names_ok_def constructors_ok_def)

lemma jobs_PushBatch_Cons:
  "jobs_PushBatch ops (j # js) P =
     (let (P1, r) = jobs_Push ops j P in
      if r = Ok () then jobs_PushBatch ops js (P1\<lparr>pg_pushOk := pg_pushOk P\<rparr>) else (P1, r))"
  by (simp add: jobs_Push_def Let_def store_consumer_def split: option.splits prod.splits res.splits)

context consumer_core
begin

abbreviation good :: "'c plugin \<Rightarrow> bool" where
  "good \<equiv> plugin_ok ops inv registered"

lemma good_consumer: "good P \<Longrightarrow> pg_consumers P k = Some c \<Longrightarrow>
    inv c \<and> (\<exists>p. registered c = Some p \<and> pl_name p = k)"
  using consumers_okD [of inv registered P k c] by (simp add: plugin_ok_def)

lemma kept_Push:
  assumes "good P" "jobs_Push ops j P = (P', r)"
  shows "good P'"
proof -
  have "good (store_consumer k d1 P)"
    if "pg_consumers P k = Some d" "c_push ops d j' = (d1, r1)" for k d d1 r1 j'
    using that core_push [of d j' d1 r1] good_consumer [OF assms(1) that(1)]
    by (blast intro: plugin_ok_restore [OF assms(1)])
  with assms show ?thesis
    by (auto simp: jobs_Push_def Let_def split: option.splits prod.splits res.splits)
qed

lemma kept_PushBatch:
  "good P \<Longrightarrow> jobs_PushBatch ops js P = (P', r) \<Longrightarrow> good P'"
proof (induction js arbitrary: P)
  case (Cons j js)
  obtain P1 r1 where h: "jobs_Push ops j P = (P1, r1)" by fastforce
  with Cons.prems Cons.IH [of "P1\<lparr>pg_pushOk := pg_pushOk P\<rparr>"] kept_Push [OF Cons.prems(1) h]
  show ?case
    by (auto simp: jobs_PushBatch_Cons simp del: jobs_PushBatch.simps split: if_splits)
qed simp

lemma kept_Pause:
  assumes "good P" "jobs_Pause ops pp P = (P', r)"
  shows "good P'"
proof -
  have "good (store_consumer (pl_name p) d1 P)"
    if "pg_pipelines P pp = Some p" "pg_consumers P (pl_name p) = Some d" "c_pause ops d (pl_name p) = (d1, r1)" for p d d1 r1
    using that core_pause [of d _ d1 r1] good_consumer [OF assms(1) that(2)]
    by (metis plugin_ok_restore [OF assms(1)])
  with assms show ?thesis
    by (auto simp: jobs_Pause_def Let_def split: option.splits prod.splits)
qed

lemma kept_Resume:
  assumes "good P" "jobs_Resume ops pp P = (P', r)"
  shows "good P'"
proof -
  have "good (store_consumer (pl_name p) d1 P)"
    if "pg_pipelines P pp = Some p" "pg_consumers P (pl_name p) = Some d" "c_resume ops d (pl_name p) = (d1, r1)" for p d d1 r1
    using that core_resume [of d _ d1 r1] good_consumer [OF assms(1) that(2)]
    by (metis plugin_ok_restore [OF assms(1)])
  with assms show ?thesis
    by (auto simp: jobs_Resume_def Let_def split: option.splits prod.splits)
qed

lemma kept_Destroy:
  assumes "good P" "jobs_Destroy ops pp P = (P', r)"
  shows "good P'"
  using assms
  by (auto simp: jobs_Destroy_def Let_def plugin_ok_def names_ok_def consumers_ok_def constructors_ok_def
      split: option.splits prod.splits if_splits)

text \<open>A fresh consumer, registered and possibly started.\<close>

lemma fresh_registered:
  assumes "good P" "pg_constructors P dr = Some con"
    and "ConsumerFromPipeline con p = Ok d \<or> ConsumerFromConfig con key = Ok d"
    and "c_register ops d p = (d1, r1)"
    and "(if b then c_run ops d1 p else (d1, Ok ())) = (d2, r2)"
  shows "r1 = Ok () \<and> inv d1 \<and> inv d2 \<and> registered d1 = Some p \<and> registered d2 = Some p \<and> \<not> ready ops d1"
proof -
  have d: "inv d \<and> \<not> ready ops d"
    using assms(1-3) by (auto simp: plugin_ok_def constructors_ok_def)
  from d have 1: "r1 = Ok () \<and> inv d1 \<and> registered d1 = Some p \<and> \<not> ready ops d1"
    using core_register [OF _ assms(4)] by blast
  with core_run [of d1 p d2 r2] assms(5) show ?thesis by (simp split: if_splits)
qed

lemma kept_Declare:
  assumes "good P" "jobs_Declare ops p P = (P', r)"
  shows "good P'"
proof (cases "P' = P")
  case False
  then obtain con d d1 d2 where con: "pg_constructors P (pl_driver p) = Some con"
    and d: "ConsumerFromPipeline con p = Ok d" "c_register ops d p = (d1, Ok ())"
    and d2: "(if pl_name p \<in> pg_consume P then c_run ops d1 p else (d1, Ok ())) = (d2, Ok ())"
    and P': "P' = (store_consumer (pl_name p) d2 P)\<lparr>pg_pipelines := (pg_pipelines P)(pl_name p \<mapsto> p)\<rparr>"
    using assms(2)
    by (auto simp: jobs_Declare_def Let_def split: if_splits option.splits res.splits prod.splits)
  have "inv d2 \<and> registered d2 = Some p"
    using fresh_registered [OF assms(1) con disjI1 [OF d(1)] d(2) d2] by blast
  with assms(1) consumers_ok_store [of inv registered P d2 p] show ?thesis
    by (simp add: P' plugin_ok_def names_ok_def constructors_ok_def)
qed (use assms in simp)

lemma serve_call_good:
  assumes "good P" "serve_call ops c P = (P', r)"
  shows "good P'"
proof (cases c)
  case (CallPush j)
  then show ?thesis using assms kept_Push [of P j P' r] by simp
next
  case (CallPushBatch js)
  then show ?thesis using assms kept_PushBatch [of P js P' r] by simp
next
  case (CallPause pp)
  then show ?thesis using assms kept_Pause [of P pp P' r] by simp
next
  case (CallResume pp)
  then show ?thesis using assms kept_Resume [of P pp P' r] by simp
next
  case (CallDeclare p)
  then show ?thesis using assms kept_Declare [of P p P' r] by simp
next
  case (CallDestroy pp)
  then show ?thesis using assms kept_Destroy [of P pp P' r] by simp
qed

lemma serve_call_ok: "good P \<Longrightarrow> good (fst (serve_call ops c P))"
  using serve_call_good [of P c "fst (serve_call ops c P)" "snd (serve_call ops c P)"] by simp

lemma serve_calls_ok: "good P \<Longrightarrow> good (serve_calls ops cs P)"
  by (induction cs arbitrary: P) (simp_all add: serve_calls_def serve_call_ok)

lemma jobs_states_kept:
  "good P \<Longrightarrow> (\<exists>sts. jobs_states ops ks P = Ok sts \<and> map st_pipeline sts = filter (\<lambda>k. pg_consumers P k \<noteq> None) ks)
     \<or> is_err (jobs_states ops ks P) \<and> (\<exists>k \<in> set ks. \<exists>c. pg_consumers P k = Some c \<and> is_err (c_state ops c))"
proof (induction ks)
  case (Cons k ks)
  show ?case
  proof (cases "pg_consumers P k")
    case None
    with Cons show ?thesis by auto
  next
    case (Some c)
    obtain p where p: "inv c" "registered c = Some p" "pl_name p = k"
      using good_consumer [OF Cons.prems Some] by blast
    show ?thesis
    proof (cases "is_err (c_state ops c)")
      case True
      with Some show ?thesis by (cases "c_state ops c") auto
    next
      case False
      with core_state [OF p(1,2)] p(3) obtain st where "c_state ops c = Ok st" "st_pipeline st = k" by blast
      with Cons.IH [OF Cons.prems] Some show ?thesis by (auto split: res.splits)
    qed
  qed
qed simp

lemma kept_pipeline:
  assumes "good P" "serve_pipeline ops (pl_name p) p P = (P', r)"
  shows "good P' \<and> pg_pipelines P' = pg_pipelines P"
proof (cases "P' = P")
  case False
  then obtain con d where con: "pg_constructors P (pl_driver p) = Some con"
    and d: "ConsumerFromConfig con (''jobs.pipelines.'' @ pl_name p @ ''.config'') = Ok d"
    using assms(2)
    by (auto simp: serve_pipeline_def Let_def split: if_splits option.splits res.splits)
  obtain d1 r1 where reg: "c_register ops d p = (d1, r1)" by fastforce
  obtain d2 r2 where run: "(if pl_name p \<in> pg_consume P then c_run ops d1 p else (d1, Ok ())) = (d2, r2)"
    by fastforce
  note f = fresh_registered [OF assms(1) con disjI2 [OF d] reg run]
  have "P' = store_consumer (pl_name p) d2 P \<or> P' = store_consumer (pl_name p) d1 P
      \<or> P' = store_consumer (pl_name p) d2 (store_consumer (pl_name p) d1 P)"
    using assms(2) con d reg run f False
    by (auto simp: serve_pipeline_def Let_def split: if_splits)
  then have "P' = store_consumer (pl_name p) d2 P \<or> P' = store_consumer (pl_name p) d1 P"
    by (auto simp: store_consumer_def)
  with f assms(1) consumers_ok_store [of inv registered P _ p] show ?thesis
    by (auto simp: plugin_ok_def names_ok_def constructors_ok_def)
qed (use assms in simp)

lemma kept_pipelines:
  "good P \<Longrightarrow> serve_pipelines ops ks P = (P', r) \<Longrightarrow> good P'"
proof (induction ks arbitrary: P)
  case (Cons k ks)
  show ?case
  proof (cases "pg_pipelines P k")
    case None
    with Cons show ?thesis by simp
  next
    case (Some p)
    then have "pl_name p = k" using Cons.prems(1) by (simp add: plugin_ok_def names_ok_def)
    moreover obtain P1 r1 where h: "serve_pipeline ops k p P = (P1, r1)" by fastforce
    ultimately have "good P1" using kept_pipeline [OF Cons.prems(1)] by blast
    with Cons Some h show ?thesis by (auto split: if_splits)
  qed
qed simp

end

context job_consumer
begin

lemma plugin_Pause_ok:
  assumes "good P" "jobs_Pause ops pp P = (P', r)"
  shows "good P' \<and> r = Ok ()"
proof -
  have "good (store_consumer k d1 P) \<and> r1 = Ok ()"
    if "pg_consumers P k = Some d" "c_pause ops d n = (d1, r1)" for k d d1 r1 n
    using that pause [of d _ n d1 r1] good_consumer [OF assms(1) that(1)]
    by (metis plugin_ok_restore [OF assms(1)])
  with assms show ?thesis
    by (auto simp: jobs_Pause_def Let_def split: option.splits prod.splits)
qed

lemma plugin_Resume_ok:
  assumes "good P" "jobs_Resume ops pp P = (P', r)"
  shows "good P' \<and> r = Ok ()"
proof -
  have "good (store_consumer k d1 P) \<and> r1 = Ok ()"
    if "pg_consumers P k = Some d" "c_resume ops d n = (d1, r1)" for k d d1 r1 n
    using that resume [of d _ n d1 r1] good_consumer [OF assms(1) that(1)]
    by (metis plugin_ok_restore [OF assms(1)])
  with assms show ?thesis
    by (auto simp: jobs_Resume_def Let_def split: option.splits prod.splits)
qed

lemma fresh_consumer:
  assumes "good P" "pg_constructors P dr = Some con"
    and "ConsumerFromPipeline con p = Ok d \<or> ConsumerFromConfig con key = Ok d"
    and "c_register ops d p = (d1, r1)"
    and "(if b then c_run ops d1 p else (d1, Ok ())) = (d2, r2)"
  shows "r1 = Ok () \<and> r2 = Ok () \<and> ready ops d2 = b"
  using fresh_registered [OF assms] run [of d1 p d2 r2] assms(5) by (auto split: if_splits)

lemma jobs_states_ok:
  "good P \<Longrightarrow> \<exists>sts. jobs_states ops ks P = Ok sts
     \<and> map st_pipeline sts = filter (\<lambda>k. pg_consumers P k \<noteq> None) ks"
proof (induction ks)
  case (Cons k ks)
  then obtain sts where sts: "jobs_states ops ks P = Ok sts"
    "map st_pipeline sts = filter (\<lambda>k. pg_consumers P k \<noteq> None) ks" by blast
  show ?case
  proof (cases "pg_consumers P k")
    case None
    with sts show ?thesis by simp
  next
    case (Some c)
    obtain p where "inv c" "registered c = Some p" "pl_name p = k"
      using good_consumer [OF Cons.prems Some] by blast
    with state [of c p] sts Some show ?thesis by auto
  qed
qed simp

lemma declared:
  assumes "good P" "pl_driver p \<noteq> []" "pg_constructors P (pl_driver p) = Some con"
    and "ConsumerFromPipeline con p = Ok d" "jobs_Declare ops p P = (P', r)"
  shows "r = Ok () \<and> pg_pipelines P' (pl_name p) = Some p
    \<and> (\<exists>c. pg_consumers P' (pl_name p) = Some c \<and> (ready ops c \<longleftrightarrow> pl_name p \<in> pg_consume P))"
proof -
  obtain d1 r1 where reg: "c_register ops d p = (d1, r1)" by fastforce
  obtain d2 r2 where run: "(if pl_name p \<in> pg_consume P then c_run ops d1 p else (d1, Ok ())) = (d2, r2)"
    by fastforce
  from fresh_consumer [OF assms(1,3) disjI1 [OF assms(4)] reg run] assms(2-5) reg run
  show ?thesis by (auto simp: jobs_Declare_def)
qed

lemma paused:
  assumes "good P" "pg_pipelines P pp = Some p" "pg_consumers P pp = Some c"
    and "jobs_Pause ops pp P = (P', r)"
  shows "\<exists>c'. P' = store_consumer pp c' P \<and> \<not> ready ops c' \<and> counts ops c' = counts ops c"
proof -
  have pp: "pl_name p = pp" using assms(1,2) by (simp add: plugin_ok_def names_ok_def)
  obtain c' r' where "c_pause ops c pp = (c', r')" by fastforce
  moreover obtain q where "inv c" "registered c = Some q" using good_consumer [OF assms(1,3)] by blast
  ultimately show ?thesis using pause [of c q pp c' r'] assms(2-4) pp by (auto simp: jobs_Pause_def)
qed

lemma resumed:
  assumes "good P" "pg_pipelines P pp = Some p" "pg_consumers P pp = Some c"
    and "jobs_Resume ops pp P = (P', r)"
  shows "\<exists>c'. P' = store_consumer pp c' P \<and> ready ops c' \<and> counts ops c' = counts ops c"
proof -
  have pp: "pl_name p = pp" using assms(1,2) by (simp add: plugin_ok_def names_ok_def)
  obtain c' r' where "c_resume ops c pp = (c', r')" by fastforce
  moreover obtain q where "inv c" "registered c = Some q" using good_consumer [OF assms(1,3)] by blast
  ultimately show ?thesis using resume [of c q pp c' r'] assms(2-4) pp by (auto simp: jobs_Resume_def)
qed

end

section \<open>Properties\<close>

text \<open>The pushes of a batch one by one, stopping at the first that fails.\<close>

fun push_seq :: "'c consumer_ops \<Rightarrow> job list \<Rightarrow> 'c plugin \<Rightarrow> 'c plugin \<times> unit res" where
  "push_seq ops [] P = (P, Ok ())"
| "push_seq ops (j # js) P =
     (let (P1, r) = jobs_Push ops j P in if r = Ok () then push_seq ops js P1 else (P1, r))"

lemma jobs_Push_pushOk:
  "jobs_Push ops j (P\<lparr>pg_pushOk := n\<rparr>) =
     (let (P', r) = jobs_Push ops j P in (P'\<lparr>pg_pushOk := if r = Ok () then n + 1 else n\<rparr>, r))"
  by (simp add: jobs_Push_def Let_def store_consumer_def split: option.splits prod.splits res.splits)

lemma push_seq_pushOk:
  "fst (push_seq ops js (P\<lparr>pg_pushOk := n\<rparr>))\<lparr>pg_pushOk := m\<rparr> = fst (push_seq ops js P)\<lparr>pg_pushOk := m\<rparr>
   \<and> snd (push_seq ops js (P\<lparr>pg_pushOk := n\<rparr>)) = snd (push_seq ops js P)"
proof (induction js arbitrary: P n)
  case (Cons j js)
  obtain P1 r1 where h: "jobs_Push ops j P = (P1, r1)" by fastforce
  then show ?case using Cons.IH [where P = P1 and n = "n + 1"] by (simp add: jobs_Push_pushOk)
qed simp

text \<open>
  C27: A batch is the sequence of its pushes.  \<open>PushBatch\<close> leaves the consumers, the error counter
  and the result exactly as pushing the jobs one by one up to the first failure does; only the
  counter of successful pushes differs, which a batch never increases.
\<close>
theorem jobs_PushBatch_seq:
  "jobs_PushBatch ops js P
     = ((fst (push_seq ops js P))\<lparr>pg_pushOk := pg_pushOk P\<rparr>, snd (push_seq ops js P))"
proof (induction js arbitrary: P)
  case (Cons j js)
  obtain P1 r1 where h: "jobs_Push ops j P = (P1, r1)" by fastforce
  show ?case
  proof (cases "r1 = Ok ()")
    case True
    then show ?thesis
      using h Cons [of "P1\<lparr>pg_pushOk := pg_pushOk P\<rparr>"] push_seq_pushOk
        [where ops = ops and js = js and P = P1 and n = "pg_pushOk P" and m = "pg_pushOk P"]
      by (simp add: jobs_PushBatch_Cons del: jobs_PushBatch.simps)
  next
    case False
    then have "pg_pushOk P1 = pg_pushOk P"
      using h by (auto simp: jobs_Push_def Let_def split: option.splits prod.splits res.splits)
    with False h show ?thesis by (simp add: jobs_PushBatch_Cons del: jobs_PushBatch.simps)
  qed
qed simp

lemma serve_pipeline_cfg: "serve_pipeline ops k p P = (P', r) \<Longrightarrow> pg_cfg P' = pg_cfg P"
  by (auto simp: serve_pipeline_def Let_def store_consumer_def
      split: option.splits res.splits prod.splits if_splits)

lemma serve_pipelines_cfg: "serve_pipelines ops ks P = (P', r) \<Longrightarrow> pg_cfg P' = pg_cfg P"
  by (induction ks arbitrary: P)
    (auto simp: Let_def split: option.splits prod.splits if_splits dest!: serve_pipeline_cfg)

text \<open>
  The default number of pollers is the number of CPUs modulo 256: with 256 CPUs and no
  configured value no poller is started and no job is ever processed.
\<close>
theorem jobs_default_pollers:
  assumes "num_pollers c = 0" "jobs_Init numCPU (Some (Ok c)) = Ok P"
    and "jobs_Serve ops ks None P = (P', Ok (), n)"
  shows "n = numCPU mod 256"
proof -
  obtain P1 r where s: "serve_pipelines ops ks P = (P1, r)" by fastforce
  have "num_pollers (pg_cfg P) = of_nat numCPU"
    using assms(1,2) by (auto simp: jobs_Init_def jobs_InitDefaults_def Let_def)
  with serve_pipelines_cfg [OF s] have "num_pollers (pg_cfg P1) = of_nat numCPU" by simp
  with assms(3) s show ?thesis
    by (auto simp: jobs_Serve_def unat_of_nat split: if_splits)
qed

theorem jobs_default_pollers_witness:
  "let c = \<lparr>num_pollers = 0, pipeline_size = 0, timeout = 0, cfg_pipelines = Map.empty, cfg_consume = []\<rparr>;
       ops = \<lparr>c_push = (\<lambda>c _. (c, Ok ())), c_register = (\<lambda>c _. (c, Ok ())), c_run = (\<lambda>c _. (c, Ok ())),
         c_pause = (\<lambda>c _. (c, Ok ())), c_resume = (\<lambda>c _. (c, Ok ())), c_stop = (\<lambda>c. (c, Ok ())),
         c_state = (\<lambda>c. Panic)\<rparr>
   in case jobs_Init 256 (Some (Ok c)) of
        Ok P \<Rightarrow> snd (snd (jobs_Serve ops [] None (P :: unit plugin))) = 0
      | _ \<Rightarrow> False"
proof -
  let ?c = "\<lparr>num_pollers = 0, pipeline_size = 0, timeout = 0, cfg_pipelines = Map.empty, cfg_consume = []\<rparr>"
  obtain P :: "unit plugin" where P: "jobs_Init 256 (Some (Ok ?c)) = Ok P"
    by (simp add: jobs_Init_def Let_def)
  from jobs_default_pollers [OF _ P, of _ "[]"] P show ?thesis
    by (simp add: jobs_Serve_def)
qed

text \<open>An acknowledger together with the list of the calls made on it.\<close>

definition traced :: "'s acknowledger \<Rightarrow> ('s \<times> call list) acknowledger" where
  "traced a = \<lparr>
     ack = (\<lambda>(s, cs). let (s', r) = ack a s in ((s', cs @ [CAck]), r)),
     nack = (\<lambda>(s, cs). let (s', r) = nack a s in ((s', cs @ [CNack]), r)),
     requeue = (\<lambda>h d (s, cs). let (s', r) = requeue a h d s in ((s', cs @ [CRequeue d]), r)),
     respond = (\<lambda>b q (s, cs). let (s', r) = respond a b q s in ((s', cs @ [CRespond b q]), r))\<rparr>"

lemma traced_calls:
  "ack (traced a) (s, cs) = ((s', cs'), r) \<Longrightarrow> cs' = cs @ [CAck]"
  "nack (traced a) (s, cs) = ((s', cs'), r) \<Longrightarrow> cs' = cs @ [CNack]"
  "requeue (traced a) h d (s, cs) = ((s', cs'), r) \<Longrightarrow> cs' = cs @ [CRequeue d]"
  "respond (traced a) b q (s, cs) = ((s', cs'), r) \<Longrightarrow> cs' = cs @ [CRespond b q]"
  by (auto simp: traced_def Let_def split: prod.splits)

lemma handleErrResp_calls:
  assumes "handleErrResp J i data (traced a) rh (s, []) = (rh', (s', cs), r)"
  shows "length cs \<le> 1 \<and> (r = Ok () \<longrightarrow> length cs = 1)"
proof -
  obtain er rh1 er' err where g: "getErrResp i rh = (er, rh1)" "dec_errorResp J data er = (er', err)"
    by (metis surj_pair)
  obtain s1 cs1 r1 where a: "ack (traced a) (s, []) = ((s1, cs1), r1)" by (metis surj_pair)
  from assms g a traced_calls(1) [OF a] show ?thesis
    by (auto simp: handleErrResp_def split: option.splits if_splits prod.splits dest: traced_calls)
qed

lemma handleQueueResp_calls:
  assumes "handleQueueResp J i data (traced a) rh (s, []) = (rh', (s', cs), r)"
  shows "length cs \<le> 1 \<and> (r = Ok () \<longrightarrow> length cs = 1)"
proof -
  obtain q rh1 q' err where g: "getQResp i rh = (q, rh1)" "dec_queueResp J data q = (q', err)"
    by (metis surj_pair)
  from assms g show ?thesis
    by (auto simp: handleQueueResp_def split: option.splits prod.splits dest: traced_calls)
qed

lemma Handle_calls:
  assumes "Handle J i j body (traced a) rh (s, []) = (rh', (s', cs), r)"
  shows "length cs \<le> 1 \<and> (r = Ok () \<longrightarrow> length cs = 1)"
proof -
  obtain p rh1 p' err where g: "getProtocol i rh = (p, rh1)" "dec_protocol J body p = (p', err)"
    by (metis surj_pair)
  obtain s1 cs1 r1 where a: "ack (traced a) (s, []) = ((s1, cs1), r1)" by (metis surj_pair)
  obtain rh2 s2 cs2 r2 where e: "handleErrResp J j (pData p') (traced a) rh1 (s, []) = (rh2, (s2, cs2), r2)"
    by (metis surj_pair)
  obtain rh3 s3 cs3 r3 where q: "handleQueueResp J j (pData p') (traced a) rh1 (s, []) = (rh3, (s3, cs3), r3)"
    by (metis surj_pair)
  from assms g a e q traced_calls(1) [OF a] handleErrResp_calls [OF e] handleQueueResp_calls [OF q]
  show ?thesis by (auto simp: Handle_def Let_def split: option.splits if_splits)
qed

lemma payload_frame [simp]:
  "pg_jobsOk (putPayload pld P) = pg_jobsOk P" "pg_jobsErr (putPayload pld P) = pg_jobsErr P"
  "pg_jobsOk (count_ok P) = pg_jobsOk P + 1" "pg_jobsErr (count_ok P) = pg_jobsErr P"
  "pg_jobsOk (count_err P) = pg_jobsOk P" "pg_jobsErr (count_err P) = pg_jobsErr P + 1"
  by (simp_all add: putPayload_def count_ok_def count_err_def)

lemma getPayload_result:
  "\<exists>P'. getPayload i body ctx P = (\<lparr>pld_body = body, pld_context = ctx, pld_codec = CODEC_JSON\<rparr>, P')
     \<and> pg_jobsOk P' = pg_jobsOk P \<and> pg_jobsErr P' = pg_jobsErr P \<and> pg_respHandler P' = pg_respHandler P"
  by (simp add: getPayload_def split: prod.splits)

lemma logged_Ok: "logged r = Ok () \<longleftrightarrow> is_ok r \<or> is_err r"
  by (cases r) auto


text \<open>A plugin without pipelines, and an item of the queue whose worker answers \<open>body\<close>.\<close>

definition empty_plugin :: "'c plugin" where
  "empty_plugin = \<lparr>pg_cfg = \<lparr>num_pollers = 1, pipeline_size = 1, timeout = 1, cfg_pipelines = Map.empty,
       cfg_consume = []\<rparr>, pg_constructors = Map.empty, pg_consumers = Map.empty,
     pg_pipelines = Map.empty, pg_consume = {}, pg_jobsOk = 0, pg_pushOk = 0, pg_jobsErr = 0,
     pg_pushErr = 0, pg_pldPool = [], pg_respHandler = NewResponseHandler\<rparr>"


end
