(* ===== verification/Memory_Jobs.thy ===== *)
theory Memory_Jobs
  imports Jobs_Plugin
begin

text \<open>
  The in-memory jobs driver (\<open>memory/memoryjobs\<close>): the consumer, its bounded local channel, the
  goroutines that sleep for a delayed job and the listener goroutine that moves jobs into the
  priority queue.

  The state record holds the fields of the Go struct and, beside them, the goroutines the driver has
  spawned, by the item each one carries: \<open>mc_starting\<close> (spawned, counters not yet touched),
  \<open>mc_sleeping\<close> (in \<open>time.Sleep\<close>), \<open>mc_senders\<close> (parked on the full channel) and the
  number of listener loops \<open>mc_running\<close>.  \<open>mc_pq\<close> lists the items inserted into the priority
  queue and not settled yet.  Every operation of the driver is a function on this state; the
  interleavings of callers and goroutines are the step relation \<open>mem_step\<close>.
\<close>

section \<open>Items\<close>

record mitem =
  mi_job :: string
  mi_ident :: string
  mi_payload :: string
  mi_headers :: headers
  mi_priority :: int
  mi_pipeline :: string
  mi_delay :: int
  mi_bound :: bool  \<comment> \<open>the private pointers \<open>requeueFn\<close>, \<open>active\<close>, \<open>delayed\<close> are set\<close>

definition mem_fromJob :: "job \<Rightarrow> mitem" where
  "mem_fromJob j = \<lparr>mi_job = job_name j, mi_ident = job_ident j, mi_payload = job_payload j,
     mi_headers = job_headers j, mi_priority = op_priority (job_options j),
     mi_pipeline = op_pipeline (job_options j), mi_delay = op_delay (job_options j),
     mi_bound = False\<rparr>"

section \<open>The consumer\<close>

record mem_config =
  mcf_priority :: int
  mcf_prefetch :: u64

record mem_consumer =
  mc_cfg :: "mem_config option"
  mc_pipeline :: "pipeline option"
  mc_prefetch :: "mitem list option"  \<comment> \<open>the channel's buffer; \<open>None\<close> is the nil channel\<close>
  mc_cap :: nat
  mc_goroutines :: u64
  mc_delayed :: int
  mc_active :: int
  mc_priority :: int
  mc_listeners :: u32
  mc_running :: nat
  mc_starting :: "mitem list"
  mc_sleeping :: "mitem list"
  mc_senders :: "mitem list"
  mc_pq :: "mitem list"

definition goroutinesMax :: u64 where
  "goroutinesMax = 1000"

text \<open>\<open>make(chan *Item, n)\<close> panics for a negative size and for a buffer beyond the address space.\<close>

definition chan_size_ok :: "int \<Rightarrow> bool" where
  "chan_size_ok n \<longleftrightarrow> 0 \<le> n \<and> 96 + 8 * n \<le> 2 ^ 48"

definition new_mem_consumer :: "mem_config option \<Rightarrow> int \<Rightarrow> int \<Rightarrow> mem_consumer res" where
  "new_mem_consumer cfg sz prio =
     (if \<not> chan_size_ok sz then Panic
      else Ok \<lparr>mc_cfg = cfg, mc_pipeline = None, mc_prefetch = Some [], mc_cap = nat sz,
        mc_goroutines = 0, mc_delayed = 0, mc_active = 0, mc_priority = prio, mc_listeners = 0,
        mc_running = 0, mc_starting = [], mc_sleeping = [], mc_senders = [], mc_pq = []\<rparr>)"

definition mem_FromConfig :: "(string \<Rightarrow> mem_config option res) \<Rightarrow> string \<Rightarrow> mem_consumer res" where
  "mem_FromConfig unmarshalKey key =
     (let op = ''new_ephemeral_pipeline'' in
      case unmarshalKey key of
        Ok None \<Rightarrow> Err (EOp op (Str (''config not found by provided key: '' @ key)))
      | Ok (Some cfg) \<Rightarrow>
          (let cfg1 = (if mcf_prefetch cfg = 0 then cfg\<lparr>mcf_prefetch := 100000\<rparr> else cfg);
               cfg2 = (if mcf_priority cfg1 = 0 then cfg1\<lparr>mcf_priority := 10\<rparr> else cfg1)
           in new_mem_consumer (Some cfg2) (uint (mcf_prefetch cfg2)) (mcf_priority cfg2))
      | Err e \<Rightarrow> Err (EOp op e)
      | Panic \<Rightarrow> Panic
      | Block \<Rightarrow> Block)"

definition mem_FromPipeline :: "pipeline \<Rightarrow> mem_consumer res" where
  "mem_FromPipeline p = new_mem_consumer None (pl_int p ''prefetch'' 100000) (pl_priority p)"

text \<open>The body of the listener loop: one item of the channel goes to the priority queue.\<close>

definition mem_deliver :: "mitem \<Rightarrow> mem_consumer \<Rightarrow> mem_consumer" where
  "mem_deliver it c =
     (let it1 = (if mi_priority it = 0 then it\<lparr>mi_priority := mc_priority c\<rparr> else it)
      in c\<lparr>mc_pq := mc_pq c @ [it1\<lparr>mi_bound := True\<rparr>]\<rparr>)"

definition mem_consume :: "mem_consumer \<Rightarrow> mem_consumer" where
  "mem_consume c = c\<lparr>mc_running := Suc (mc_running c)\<rparr>"

definition mem_listen :: "mem_consumer \<Rightarrow> mem_consumer option" where
  "mem_listen c =
     (case mc_prefetch c of
        Some (it # q) \<Rightarrow>
          if mc_running c = 0 then None else Some (mem_deliver it (c\<lparr>mc_prefetch := Some q\<rparr>))
      | _ \<Rightarrow> None)"

text \<open>
  A channel send that can proceed: there is room in the buffer, or the channel has no buffer and a
  listener is waiting to receive.  A send on the nil channel never proceeds.
\<close>

definition mem_send :: "mitem \<Rightarrow> mem_consumer \<Rightarrow> mem_consumer option" where
  "mem_send it c =
     (case mc_prefetch c of
        None \<Rightarrow> None
      | Some q \<Rightarrow>
          if length q < mc_cap c then Some (c\<lparr>mc_prefetch := Some (q @ [it])\<rparr>)
          else if mc_cap c = 0 \<and> 0 < mc_running c then Some (mem_deliver it c)
          else None)"

text \<open>The error of a push whose context is done; it reads \<open>c.cfg.Prefetch\<close> through the pointer.\<close>

definition mem_full_error :: "string \<Rightarrow> mem_consumer \<Rightarrow> unit res" where
  "mem_full_error ctxErr c =
     (case mc_cfg c of
        None \<Rightarrow> Panic
      | Some cfg \<Rightarrow> Err (EOp ''ephemeral_handle_request'' (Str
          (''local pipeline is full, consider to increase prefetch number, current limit: ''
           @ show_nat (unat (mcf_prefetch cfg)) @ '', context error: '' @ ctxErr))))"

text \<open>
  \<open>ctx = Some e\<close>: the context is done, with error \<open>e\<close>, and the select takes that branch.
  Otherwise a send that cannot proceed parks the caller, which is the result \<open>Block\<close>.
\<close>

definition mem_handleItem :: "string option \<Rightarrow> mitem \<Rightarrow> mem_consumer \<Rightarrow> mem_consumer \<times> unit res" where
  "mem_handleItem ctx msg c =
     (if 0 < mi_delay msg then
        if goroutinesMax \<le> mc_goroutines c
        then (c, Err (EOp ''ephemeral_handle_request'' (Str ''max concurrency number reached'')))
        else (c\<lparr>mc_starting := mc_starting c @ [msg]\<rparr>, Ok ())
      else
        (let c1 = c\<lparr>mc_active := mc_active c + 1\<rparr> in
         case ctx of
           Some e \<Rightarrow> (c1, mem_full_error e c1)
         | None \<Rightarrow>
             (case mem_send msg c1 of
                Some c2 \<Rightarrow> (c2, Ok ())
              | None \<Rightarrow> (c1\<lparr>mc_senders := mc_senders c1 @ [msg]\<rparr>, Block))))"

text \<open>The goroutine of a delayed job: before the sleep, and the select after it.\<close>

definition mem_sleep_begin :: "mitem \<Rightarrow> mem_consumer \<Rightarrow> mem_consumer" where
  "mem_sleep_begin it c = c\<lparr>mc_starting := remove1 it (mc_starting c),
     mc_goroutines := mc_goroutines c + 1, mc_delayed := mc_delayed c + 1,
     mc_sleeping := mc_sleeping c @ [it]\<rparr>"

definition mem_sleep_end :: "mitem \<Rightarrow> mem_consumer \<Rightarrow> mem_consumer \<times> bool" where
  "mem_sleep_end it c =
     (let c1 = c\<lparr>mc_sleeping := remove1 it (mc_sleeping c)\<rparr> in
      case mem_send it c1 of
        Some c2 \<Rightarrow> (c2\<lparr>mc_goroutines := mc_goroutines c2 + (- 1)\<rparr>, True)
      | None \<Rightarrow> (c1, False))"

definition mem_Push :: "string option \<Rightarrow> job \<Rightarrow> mem_consumer \<Rightarrow> mem_consumer \<times> unit res" where
  "mem_Push ctx jb c =
     (let op = ''ephemeral_push'' in
      case mc_pipeline c of
        None \<Rightarrow> (c, Err (EOp op (Str (''no such pipeline: '' @ op_pipeline (job_options jb)))))
      | Some _ \<Rightarrow> (let (c1, r) = mem_handleItem ctx (mem_fromJob jb) c in (c1, wrap op r)))"

definition mem_ready :: "u32 \<Rightarrow> bool" where
  "mem_ready r \<longleftrightarrow> 0 < r"

definition mem_State :: "mem_consumer \<Rightarrow> jstate res" where
  "mem_State c =
     (case mc_pipeline c of
        None \<Rightarrow> Panic
      | Some p \<Rightarrow> Ok \<lparr>st_pipeline = pl_name p, st_driver = pl_driver p, st_queue = pl_name p,
          st_active = mc_active c, st_delayed = mc_delayed c, st_reserved = 0, st_ready = mem_ready (mc_listeners c)\<rparr>)"

definition mem_Register :: "pipeline \<Rightarrow> mem_consumer \<Rightarrow> mem_consumer \<times> unit res" where
  "mem_Register p c = (c\<lparr>mc_pipeline := Some p\<rparr>, Ok ())"

definition mem_Run :: "pipeline \<Rightarrow> mem_consumer \<Rightarrow> mem_consumer \<times> unit res" where
  "mem_Run p c =
     (if mc_listeners c = 1
      then (c, Err (EOp ''memory_jobs_run'' (Str ''listener already in the active state'')))
      else ((mem_consume c)\<lparr>mc_listeners := 1\<rparr>, Ok ()))"

text \<open>The send on \<open>stopCh\<close> is received by a listener, which returns; with no listener it blocks.\<close>

definition mem_Pause :: "string \<Rightarrow> mem_consumer \<Rightarrow> mem_consumer \<times> unit res" where
  "mem_Pause p c =
     (case mc_pipeline c of
        None \<Rightarrow> (c, Panic)
      | Some _ \<Rightarrow>
          if mc_listeners c = 0 then (c, Ok ())
          else (let c1 = c\<lparr>mc_listeners := mc_listeners c + (- 1)\<rparr> in
            if mc_running c1 = 0 then (c1, Block)
            else (c1\<lparr>mc_running := mc_running c1 - 1\<rparr>, Ok ())))"

definition mem_Resume :: "string \<Rightarrow> mem_consumer \<Rightarrow> mem_consumer \<times> unit res" where
  "mem_Resume p c =
     (case mc_pipeline c of
        None \<Rightarrow> (c, Panic)
      | Some _ \<Rightarrow>
          if mc_listeners c = 1 then (c, Ok ())
          else ((mem_consume c)\<lparr>mc_listeners := 1\<rparr>, Ok ()))"

text \<open>The drain loop of \<open>Stop\<close>: its bound is the current length of the shrinking channel.\<close>

function mem_drain :: "nat \<Rightarrow> 'a list \<Rightarrow> 'a list" where
  "mem_drain i q = (if i < length q then mem_drain (Suc i) (tl q) else q)"
  by pat_completeness auto
termination by (relation "measure (\<lambda>(i, q). length q - i)") auto

text \<open>\<open>idle\<close>: a listener, if there is one, waits in its select, so the non-blocking send reaches it.\<close>

definition mem_Stop :: "bool \<Rightarrow> mem_consumer \<Rightarrow> mem_consumer \<times> unit res" where
  "mem_Stop idle c =
     (case mc_pipeline c of
        None \<Rightarrow> (c, Panic)
      | Some _ \<Rightarrow>
          (let c1 = (if idle then c\<lparr>mc_running := mc_running c - 1\<rparr> else c);
               c2 = c1\<lparr>mc_prefetch := map_option (mem_drain 0) (mc_prefetch c1)\<rparr>
           in (c2\<lparr>mc_prefetch := None\<rparr>, Ok ())))"

section \<open>Settling an item\<close>

definition mem_reduceCount :: "mitem \<Rightarrow> mem_consumer \<Rightarrow> mem_consumer" where
  "mem_reduceCount it c =
     (if 0 < mi_delay it then c\<lparr>mc_delayed := mc_delayed c - 1\<rparr>
      else c\<lparr>mc_active := mc_active c - 1\<rparr>)"

definition mem_Ack :: "mitem \<Rightarrow> mem_consumer \<Rightarrow> mem_consumer \<times> unit res" where
  "mem_Ack it c = (if mi_bound it then (mem_reduceCount it c, Ok ()) else (c, Panic))"

definition mem_Nack :: "mitem \<Rightarrow> mem_consumer \<Rightarrow> mem_consumer \<times> unit res" where
  "mem_Nack it c = (if mi_bound it then (mem_reduceCount it c, Ok ()) else (c, Panic))"

definition mem_requeued :: "headers \<Rightarrow> int \<Rightarrow> mitem \<Rightarrow> mitem" where
  "mem_requeued h d it = it\<lparr>mi_delay := d, mi_headers := h\<rparr>"

definition mem_Requeue :: "headers \<Rightarrow> int \<Rightarrow> mitem \<Rightarrow> mem_consumer \<Rightarrow> mem_consumer \<times> unit res" where
  "mem_Requeue h d it c =
     (let it1 = mem_requeued h d it in
      if mi_bound it1 then mem_handleItem None it1 (mem_reduceCount it1 c) else (c, Panic))"

definition mem_Respond :: "bytes \<Rightarrow> string \<Rightarrow> mitem \<Rightarrow> mem_consumer \<Rightarrow> mem_consumer \<times> unit res" where
  "mem_Respond data queue it c = (c, Ok ())"

definition mem_acknowledger :: "mitem \<Rightarrow> mem_consumer acknowledger" where
  "mem_acknowledger it = \<lparr>ack = mem_Ack it, nack = mem_Nack it,
     requeue = (\<lambda>h d. mem_Requeue h d it), respond = (\<lambda>b q. mem_Respond b q it)\<rparr>"

lemmas mem_defs = mem_deliver_def mem_consume_def mem_full_error_def mem_ready_def mem_State_def
  mem_Register_def mem_Run_def mem_Pause_def mem_Resume_def mem_Stop_def mem_reduceCount_def
  mem_Ack_def mem_Nack_def mem_Respond_def

section \<open>The driver as a consumer of the jobs plugin\<close>

definition mem_ops :: "string option \<Rightarrow> bool \<Rightarrow> mem_consumer consumer_ops" where
  "mem_ops ctx idle = \<lparr>c_push = (\<lambda>c j. mem_Push ctx j c), c_register = (\<lambda>c p. mem_Register p c),
     c_run = (\<lambda>c p. mem_Run p c), c_pause = (\<lambda>c n. mem_Pause n c),
     c_resume = (\<lambda>c n. mem_Resume n c), c_stop = mem_Stop idle, c_state = mem_State\<rparr>"

text \<open>Before \<open>Stop\<close>: the channel exists and there is a listener loop exactly when the flag says so.\<close>

definition mem_ok :: "mem_consumer \<Rightarrow> bool" where
  "mem_ok c \<longleftrightarrow> mc_prefetch c \<noteq> None
     \<and> (mc_listeners c = 0 \<and> mc_running c = 0 \<or> mc_listeners c = 1 \<and> mc_running c = 1)
     \<and> (mc_pipeline c = None \<longrightarrow> mc_listeners c = 0)"

lemma mem_send_frame:
  "mem_send it c = Some c' \<Longrightarrow>
     mc_pipeline c' = mc_pipeline c \<and> mc_listeners c' = mc_listeners c \<and> mc_running c' = mc_running c
     \<and> mc_prefetch c' \<noteq> None \<and> mc_cap c' = mc_cap c \<and> mc_goroutines c' = mc_goroutines c
     \<and> mc_delayed c' = mc_delayed c \<and> mc_active c' = mc_active c \<and> mc_starting c' = mc_starting c
     \<and> mc_sleeping c' = mc_sleeping c \<and> mc_senders c' = mc_senders c \<and> mc_cfg c' = mc_cfg c"
  by (auto simp: mem_send_def mem_deliver_def Let_def split: option.splits if_splits)

lemma mem_handleItem_frame:
  "mem_handleItem ctx it c = (c', r) \<Longrightarrow> mc_prefetch c \<noteq> None \<Longrightarrow>
     mc_pipeline c' = mc_pipeline c \<and> mc_listeners c' = mc_listeners c \<and> mc_running c' = mc_running c
     \<and> mc_prefetch c' \<noteq> None"
  by (auto simp: mem_handleItem_def Let_def split: option.splits if_splits dest: mem_send_frame)

lemma mem_Push_frame:
  "mem_Push ctx j c = (c', r) \<Longrightarrow> mc_prefetch c \<noteq> None \<Longrightarrow>
     mc_pipeline c' = mc_pipeline c \<and> mc_listeners c' = mc_listeners c \<and> mc_running c' = mc_running c
     \<and> mc_prefetch c' \<noteq> None"
  by (auto simp: mem_Push_def Let_def split: option.splits prod.splits dest: mem_handleItem_frame)

lemma mem_ops_simps [simp]:
  "c_push (mem_ops ctx idle) c j = mem_Push ctx j c"
  "c_register (mem_ops ctx idle) c p = mem_Register p c"
  "c_run (mem_ops ctx idle) c p = mem_Run p c"
  "c_pause (mem_ops ctx idle) c n = mem_Pause n c"
  "c_resume (mem_ops ctx idle) c n = mem_Resume n c"
  "c_state (mem_ops ctx idle) = mem_State"
  by (simp_all add: mem_ops_def)

lemma mem_ready_iff: "ready (mem_ops ctx idle) c \<longleftrightarrow> mc_pipeline c \<noteq> None \<and> mem_ready (mc_listeners c)"
  by (auto simp: ready_def mem_State_def split: option.splits)

lemma mem_counts:
  "counts (mem_ops ctx idle) c
     = (if mc_pipeline c = None then None else Some (mc_active c, mc_delayed c))"
  by (auto simp: counts_def mem_State_def split: option.splits)

interpretation mem_driver: job_consumer "mem_ops ctx idle" mem_ok mc_pipeline for ctx idle
proof unfold_locales
  fix c c' p r
  assume "mem_ok c" "c_register (mem_ops ctx idle) c p = (c', r)"
  then show "r = Ok () \<and> mem_ok c' \<and> mc_pipeline c' = Some p
      \<and> (\<not> ready (mem_ops ctx idle) c \<longrightarrow> \<not> ready (mem_ops ctx idle) c')"
    by (auto simp: mem_ready_iff mem_Register_def mem_ok_def mem_ready_def)
next
  fix c c' j r
  assume "mem_ok c" "c_push (mem_ops ctx idle) c j = (c', r)"
  then show "mem_ok c' \<and> mc_pipeline c' = mc_pipeline c
      \<and> ready (mem_ops ctx idle) c' = ready (mem_ops ctx idle) c"
    using mem_Push_frame [of ctx j c c' r] by (simp add: mem_ready_iff mem_ok_def)
next
  fix c c' p r
  assume "mem_ok c" "mc_pipeline c = Some p" "\<not> ready (mem_ops ctx idle) c"
    "c_run (mem_ops ctx idle) c p = (c', r)"
  then show "r = Ok () \<and> mem_ok c' \<and> mc_pipeline c' = Some p \<and> ready (mem_ops ctx idle) c'"
    by (auto simp: mem_ready_iff mem_Run_def mem_ok_def mem_ready_def mem_consume_def)
next
  fix c c' p n r
  assume "mem_ok c" "mc_pipeline c = Some p" "c_pause (mem_ops ctx idle) c n = (c', r)"
  then show "r = Ok () \<and> mem_ok c' \<and> mc_pipeline c' = Some p \<and> \<not> ready (mem_ops ctx idle) c'
      \<and> counts (mem_ops ctx idle) c' = counts (mem_ops ctx idle) c"
    by (auto simp: mem_ready_iff mem_counts mem_Pause_def mem_ok_def mem_ready_def)
next
  fix c c' p n r
  assume "mem_ok c" "mc_pipeline c = Some p" "c_resume (mem_ops ctx idle) c n = (c', r)"
  then show "r = Ok () \<and> mem_ok c' \<and> mc_pipeline c' = Some p \<and> ready (mem_ops ctx idle) c'
      \<and> counts (mem_ops ctx idle) c' = counts (mem_ops ctx idle) c"
    by (auto simp: mem_ready_iff mem_counts mem_Resume_def mem_ok_def mem_ready_def mem_consume_def)
next
  fix c p
  assume "mem_ok c" "mc_pipeline c = Some p"
  then show "\<exists>st. c_state (mem_ops ctx idle) c = Ok st \<and> st_pipeline st = pl_name p
      \<and> st_driver st = pl_driver p"
    by (simp add: mem_State_def)
qed

section \<open>Interleavings\<close>

text \<open>
  The history of a run, by job identifiers: the jobs the driver accepted, the ones a worker settled,
  the delayed ones dropped on a full channel, the ones whose push timed out, and the number of
  requeues that failed.
\<close>

record mem_history =
  h_accepted :: "string multiset"
  h_settled :: "string multiset"
  h_lost :: "string multiset"
  h_expired :: "string multiset"
  h_rejected :: nat

definition no_history :: mem_history where
  "no_history = \<lparr>h_accepted = {#}, h_settled = {#}, h_lost = {#}, h_expired = {#}, h_rejected = 0\<rparr>"

definition accept :: "string \<Rightarrow> mem_history \<Rightarrow> mem_history" where
  "accept i h = h\<lparr>h_accepted := add_mset i (h_accepted h)\<rparr>"

definition settle :: "string \<Rightarrow> mem_history \<Rightarrow> mem_history" where
  "settle i h = h\<lparr>h_settled := add_mset i (h_settled h)\<rparr>"

definition lose :: "string \<Rightarrow> mem_history \<Rightarrow> mem_history" where
  "lose i h = h\<lparr>h_lost := add_mset i (h_lost h)\<rparr>"

definition expire :: "string \<Rightarrow> mem_history \<Rightarrow> mem_history" where
  "expire i h = h\<lparr>h_expired := add_mset i (h_expired h)\<rparr>"

definition reject :: "mem_history \<Rightarrow> mem_history" where
  "reject h = h\<lparr>h_rejected := Suc (h_rejected h)\<rparr>"

lemmas history_defs = accept_def settle_def lose_def expire_def reject_def

definition mem_take :: "mitem \<Rightarrow> mem_consumer \<Rightarrow> mem_consumer" where
  "mem_take it c = c\<lparr>mc_pq := remove1 it (mc_pq c)\<rparr>"

text \<open>
  One step of the driver, its callers and its goroutines.  The sends of the model are the sends of
  the code: a parked sender (\<open>sender\<close>, \<open>timed_out\<close>) is a caller inside the select of
  \<open>handleItem\<close>, a sleeper inside the goroutine of a delayed job.
\<close>

inductive mem_step :: "mem_consumer \<times> mem_history \<Rightarrow> mem_consumer \<times> mem_history \<Rightarrow> bool" where
  register: "mem_step (c, h) (fst (mem_Register p c), h)"
| run: "mc_pipeline c = Some p \<Longrightarrow> mem_Run p c = (c', r) \<Longrightarrow> mem_step (c, h) (c', h)"
| pause: "mem_Pause n c = (c', Ok ()) \<Longrightarrow> mem_step (c, h) (c', h)"
| resume: "mem_Resume n c = (c', Ok ()) \<Longrightarrow> mem_step (c, h) (c', h)"
| pushed: "mem_Push None j c = (c', r) \<Longrightarrow> r = Ok () \<or> r = Block \<Longrightarrow>
    mem_step (c, h) (c', accept (job_ident j) h)"
| refused: "mem_Push None j c = (c', Err e) \<Longrightarrow> mem_step (c, h) (c', h)"
| pushed_late: "mem_Push (Some e) j c = (c', Err e') \<Longrightarrow> mc_active c' \<noteq> mc_active c \<Longrightarrow>
    mem_step (c, h) (c', expire (job_ident j) (accept (job_ident j) h))"
| sender: "it \<in> set (mc_senders c) \<Longrightarrow> mem_send it (c\<lparr>mc_senders := remove1 it (mc_senders c)\<rparr>) = Some c' \<Longrightarrow>
    mem_step (c, h) (c', h)"
| timed_out: "it \<in> set (mc_senders c) \<Longrightarrow> mem_full_error e c = Err e' \<Longrightarrow>
    mem_step (c, h) (c\<lparr>mc_senders := remove1 it (mc_senders c)\<rparr>, expire (mi_ident it) h)"
| asleep: "it \<in> set (mc_starting c) \<Longrightarrow> mem_step (c, h) (mem_sleep_begin it c, h)"
| awake: "it \<in> set (mc_sleeping c) \<Longrightarrow> mem_sleep_end it c = (c', True) \<Longrightarrow> mem_step (c, h) (c', h)"
| dropped: "it \<in> set (mc_sleeping c) \<Longrightarrow> mem_sleep_end it c = (c', False) \<Longrightarrow>
    mem_step (c, h) (c', lose (mi_ident it) h)"
| listen: "mem_listen c = Some c' \<Longrightarrow> mem_step (c, h) (c', h)"
| acked: "it \<in> set (mc_pq c) \<Longrightarrow> mem_Ack it (mem_take it c) = (c', r) \<Longrightarrow> r \<noteq> Panic \<Longrightarrow>
    mem_step (c, h) (c', settle (mi_ident it) h)"
| nacked: "it \<in> set (mc_pq c) \<Longrightarrow> mem_Nack it (mem_take it c) = (c', r) \<Longrightarrow> r \<noteq> Panic \<Longrightarrow>
    mem_step (c, h) (c', settle (mi_ident it) h)"
| requeued: "it \<in> set (mc_pq c) \<Longrightarrow> mem_Requeue hs d it (mem_take it c) = (c', r) \<Longrightarrow>
    r = Ok () \<or> r = Block \<Longrightarrow> mem_step (c, h) (c', h)"
| requeue_failed: "it \<in> set (mc_pq c) \<Longrightarrow> mem_Requeue hs d it (mem_take it c) = (c', Err e) \<Longrightarrow>
    mem_step (c, h) (c'\<lparr>mc_pq := mc_pq c' @ [mem_requeued hs d it]\<rparr>, reject h)"

section \<open>The invariant\<close>

definition idents :: "mitem list \<Rightarrow> string multiset" where
  "idents xs = mset (map mi_ident xs)"

lemma idents_simps [simp]:
  "idents [] = {#}"
  "idents (it # xs) = add_mset (mi_ident it) (idents xs)"
  "idents (xs @ ys) = idents xs + idents ys"
  "size (idents xs) = length xs"
  by (simp_all add: idents_def)

definition mem_queue :: "mem_consumer \<Rightarrow> mitem list" where
  "mem_queue c = (case mc_prefetch c of None \<Rightarrow> [] | Some q \<Rightarrow> q)"

text \<open>The items in the channel and in the priority queue, and all the driver is responsible for.\<close>

definition mem_stock :: "mem_consumer \<Rightarrow> string multiset" where
  "mem_stock c = idents (mem_queue c) + idents (mc_pq c)"

definition mem_held :: "mem_consumer \<Rightarrow> string multiset" where
  "mem_held c = idents (mc_starting c) + idents (mc_sleeping c) + idents (mc_senders c) + mem_stock c"

text \<open>
  What the two counters show beyond the items that have been counted in one of them and are still
  with the driver.
\<close>

definition mem_excess :: "mem_consumer \<Rightarrow> int" where
  "mem_excess c = mc_active c + mc_delayed c
     - int (length (mc_sleeping c) + length (mc_senders c) + size (mem_stock c))"

definition mem_conserved :: "mem_consumer \<times> mem_history \<Rightarrow> bool" where
  "mem_conserved = (\<lambda>(c, h).
     h_accepted h = mem_held c + h_settled h + h_lost h + h_expired h)"

definition mem_slots :: "mem_consumer \<times> mem_history \<Rightarrow> bool" where
  "mem_slots = (\<lambda>(c, h).
     mc_goroutines c = of_nat (length (mc_sleeping c) + size (h_lost h)))"

definition mem_balance :: "mem_consumer \<times> mem_history \<Rightarrow> bool" where
  "mem_balance = (\<lambda>(c, h).
     mem_excess c + int (h_rejected h) = int (size (h_lost h) + size (h_expired h)))"

lemmas mem_measures = mem_stock_def mem_held_def mem_excess_def mem_queue_def

lemma idents_remove1: "it \<in> set xs \<Longrightarrow> idents xs = add_mset (mi_ident it) (idents (remove1 it xs))"
  by (induction xs) auto

lemma length_remove1': "it \<in> set xs \<Longrightarrow> length xs = Suc (length (remove1 it xs))"
  using length_pos_if_in_set [of it xs] by (simp add: length_remove1)

lemma mem_deliver_stock:
  "mem_stock (mem_deliver it c) = add_mset (mi_ident it) (mem_stock c)"
  by (simp add: mem_deliver_def mem_stock_def mem_queue_def)

lemma mem_send_stock:
  "mem_send it c = Some c' \<Longrightarrow> mem_stock c' = add_mset (mi_ident it) (mem_stock c)"
  by (auto simp: mem_send_def mem_deliver_stock split: option.splits if_splits)
    (simp add: mem_stock_def mem_queue_def)

lemma mem_listen_stock:
  "mem_listen c = Some c' \<Longrightarrow> mem_stock c' = mem_stock c"
  by (auto simp: mem_listen_def mem_deliver_stock split: option.splits if_splits list.splits)
    (simp add: mem_stock_def mem_queue_def)

lemma mem_take_stock:
  "it \<in> set (mc_pq c) \<Longrightarrow> mem_stock c = add_mset (mi_ident it) (mem_stock (mem_take it c))"
  by (simp add: mem_take_def mem_stock_def mem_queue_def idents_remove1)

lemma mem_send_held:
  "mem_send it c = Some c' \<Longrightarrow> mem_held c' = add_mset (mi_ident it) (mem_held c)
     \<and> mem_excess c' = mem_excess c - 1"
  using mem_send_stock [of it c c'] mem_send_frame [of it c c']
  by (simp add: mem_held_def mem_excess_def)

lemma mem_send_reads [simp]:
  "mem_stock (c\<lparr>mc_active := a\<rparr>) = mem_stock c" "mem_stock (c\<lparr>mc_delayed := a\<rparr>) = mem_stock c"
  "mem_stock (c\<lparr>mc_starting := xs\<rparr>) = mem_stock c" "mem_stock (c\<lparr>mc_sleeping := xs\<rparr>) = mem_stock c"
  "mem_stock (c\<lparr>mc_senders := xs\<rparr>) = mem_stock c" "mem_stock (c\<lparr>mc_goroutines := g\<rparr>) = mem_stock c"
  "mem_stock (c\<lparr>mc_listeners := l\<rparr>) = mem_stock c" "mem_stock (c\<lparr>mc_running := n\<rparr>) = mem_stock c"
  "mem_stock (c\<lparr>mc_pipeline := p\<rparr>) = mem_stock c"
  by (simp_all add: mem_stock_def mem_queue_def)

lemma mem_handleItem_taken:
  assumes "mem_handleItem None it c = (c', r)" "r = Ok () \<or> r = Block"
  shows "mem_held c' = add_mset (mi_ident it) (mem_held c) \<and> mem_excess c' = mem_excess c
     \<and> mc_goroutines c' = mc_goroutines c \<and> mc_sleeping c' = mc_sleeping c"
proof (cases "0 < mi_delay it")
  case True
  with assms show ?thesis
    by (auto simp: mem_handleItem_def mem_held_def mem_excess_def split: if_splits)
next
  case False
  let ?c1 = "c\<lparr>mc_active := mc_active c + 1\<rparr>"
  show ?thesis
  proof (cases "mem_send it ?c1")
    case None
    with assms False show ?thesis
      by (auto simp: mem_handleItem_def mem_held_def mem_excess_def)
  next
    case (Some c2)
    with assms False have "c' = c2" by (simp add: mem_handleItem_def)
    with mem_send_held [OF Some] mem_send_frame [OF Some] show ?thesis
      by (simp add: mem_held_def mem_excess_def)
  qed
qed

lemma mem_handleItem_refused: "mem_handleItem None it c = (c', Err e) \<Longrightarrow> c' = c"
  by (auto simp: mem_handleItem_def Let_def split: if_splits option.splits)

lemma mem_handleItem_late:
  "mem_handleItem (Some e) it c = (c', Err e') \<Longrightarrow> mc_active c' \<noteq> mc_active c \<Longrightarrow>
     c' = c\<lparr>mc_active := mc_active c + 1\<rparr>"
  by (auto simp: mem_handleItem_def Let_def split: if_splits)

lemma mem_Push_taken:
  assumes "mem_Push None j c = (c', r)" "r = Ok () \<or> r = Block"
  shows "mem_held c' = add_mset (job_ident j) (mem_held c) \<and> mem_excess c' = mem_excess c
     \<and> mc_goroutines c' = mc_goroutines c \<and> mc_sleeping c' = mc_sleeping c"
proof -
  obtain r' where "mem_handleItem None (mem_fromJob j) c = (c', r')" "r' = Ok () \<or> r' = Block"
    using assms by (auto simp: mem_Push_def Let_def split: option.splits prod.splits)
  then show ?thesis using mem_handleItem_taken [of "mem_fromJob j" c c' r'] by (simp add: mem_fromJob_def)
qed

lemma mem_Push_refused: "mem_Push None j c = (c', Err e) \<Longrightarrow> c' = c"
  by (auto simp: mem_Push_def Let_def split: option.splits prod.splits dest: mem_handleItem_refused)

lemma mem_Push_late:
  "mem_Push (Some e) j c = (c', Err e') \<Longrightarrow> mc_active c' \<noteq> mc_active c \<Longrightarrow>
     c' = c\<lparr>mc_active := mc_active c + 1\<rparr>"
  by (auto simp: mem_Push_def Let_def split: option.splits prod.splits dest: mem_handleItem_late)

lemma mem_reduce_effect:
  "mem_held (mem_reduceCount it c) = mem_held c"
  "mem_excess (mem_reduceCount it c) = mem_excess c - 1"
  "mc_goroutines (mem_reduceCount it c) = mc_goroutines c"
  "mc_sleeping (mem_reduceCount it c) = mc_sleeping c"
  by (simp_all add: mem_reduceCount_def mem_held_def mem_excess_def)

lemma mem_take_effect:
  assumes "it \<in> set (mc_pq c)"
  shows "mem_held c = add_mset (mi_ident it) (mem_held (mem_take it c))"
    "mem_excess (mem_take it c) = mem_excess c + 1"
    "mc_goroutines (mem_take it c) = mc_goroutines c"
    "mc_sleeping (mem_take it c) = mc_sleeping c"
  using mem_take_stock [OF assms]
  by (simp_all add: mem_held_def mem_excess_def) (simp_all add: mem_take_def)

lemma mem_Requeue_taken:
  assumes "it \<in> set (mc_pq c)" "mem_Requeue hs d it (mem_take it c) = (c', r)" "r = Ok () \<or> r = Block"
  shows "mem_held c' = mem_held c \<and> mem_excess c' = mem_excess c
     \<and> mc_goroutines c' = mc_goroutines c \<and> mc_sleeping c' = mc_sleeping c"
proof -
  let ?it = "mem_requeued hs d it"
  have "mem_handleItem None ?it (mem_reduceCount ?it (mem_take it c)) = (c', r)"
    using assms(2,3) by (auto simp: mem_Requeue_def Let_def split: if_splits)
  from mem_handleItem_taken [OF this assms(3)] mem_take_effect [OF assms(1)] show ?thesis
    by (simp add: mem_reduce_effect mem_requeued_def)
qed

lemma mem_Requeue_failed:
  assumes "it \<in> set (mc_pq c)" "mem_Requeue hs d it (mem_take it c) = (c', Err e)"
  shows "c' = mem_reduceCount (mem_requeued hs d it) (mem_take it c)"
  using assms(2) by (auto simp: mem_Requeue_def Let_def split: if_splits dest: mem_handleItem_refused)

lemma mem_control_frame:
  "mem_Run p c = (c', r) \<Longrightarrow> mem_held c' = mem_held c \<and> mem_excess c' = mem_excess c
     \<and> mc_goroutines c' = mc_goroutines c \<and> mc_sleeping c' = mc_sleeping c"
  "mem_Pause n c = (c', r) \<Longrightarrow> mem_held c' = mem_held c \<and> mem_excess c' = mem_excess c
     \<and> mc_goroutines c' = mc_goroutines c \<and> mc_sleeping c' = mc_sleeping c"
  "mem_Resume n c = (c', r) \<Longrightarrow> mem_held c' = mem_held c \<and> mem_excess c' = mem_excess c
     \<and> mc_goroutines c' = mc_goroutines c \<and> mc_sleeping c' = mc_sleeping c"
  by (auto simp: mem_Run_def mem_Pause_def mem_Resume_def mem_consume_def mem_held_def mem_excess_def
      Let_def split: option.splits if_splits)

lemma mem_sender_effect:
  assumes "it \<in> set (mc_senders c)"
  shows "mem_held c = add_mset (mi_ident it) (mem_held (c\<lparr>mc_senders := remove1 it (mc_senders c)\<rparr>))"
    "mem_excess (c\<lparr>mc_senders := remove1 it (mc_senders c)\<rparr>) = mem_excess c + 1"
  using length_remove1' [OF assms] by (simp_all add: mem_held_def mem_excess_def idents_remove1 [OF assms])

lemma mem_sleeper_effect:
  assumes "it \<in> set (mc_sleeping c)"
  shows "mem_held c = add_mset (mi_ident it) (mem_held (c\<lparr>mc_sleeping := remove1 it (mc_sleeping c)\<rparr>))"
    "mem_excess (c\<lparr>mc_sleeping := remove1 it (mc_sleeping c)\<rparr>) = mem_excess c + 1"
  using length_remove1' [OF assms] by (simp_all add: mem_held_def mem_excess_def idents_remove1 [OF assms])

lemma mem_sleep_begin_effect:
  assumes "it \<in> set (mc_starting c)"
  shows "mem_held (mem_sleep_begin it c) = mem_held c \<and> mem_excess (mem_sleep_begin it c) = mem_excess c"
  by (simp add: mem_sleep_begin_def mem_held_def mem_excess_def idents_remove1 [OF assms])

lemma mem_awake_effect:
  assumes "it \<in> set (mc_sleeping c)" "mem_sleep_end it c = (c', True)"
  shows "mem_held c' = mem_held c \<and> mem_excess c' = mem_excess c
    \<and> mc_goroutines c' = mc_goroutines c + (- 1) \<and> mc_sleeping c' = remove1 it (mc_sleeping c)"
proof -
  let ?c1 = "c\<lparr>mc_sleeping := remove1 it (mc_sleeping c)\<rparr>"
  obtain c2 where s: "mem_send it ?c1 = Some c2"
    and c': "c' = c2\<lparr>mc_goroutines := mc_goroutines c2 + (- 1)\<rparr>"
    using assms(2) by (auto simp: mem_sleep_end_def Let_def split: option.splits)
  from mem_send_held [OF s] mem_send_frame [OF s] mem_sleeper_effect [OF assms(1)] show ?thesis
    by (simp add: c') (simp add: mem_held_def mem_excess_def)
qed

lemma mem_dropped_effect:
  "mem_sleep_end it c = (c', False) \<Longrightarrow> c' = c\<lparr>mc_sleeping := remove1 it (mc_sleeping c)\<rparr>"
  by (auto simp: mem_sleep_end_def Let_def split: option.splits)

lemma mem_listen_effect:
  assumes "mem_listen c = Some c'"
  shows "mem_held c' = mem_held c \<and> mem_excess c' = mem_excess c
    \<and> mc_goroutines c' = mc_goroutines c \<and> mc_sleeping c' = mc_sleeping c"
proof -
  have "mc_starting c' = mc_starting c \<and> mc_sleeping c' = mc_sleeping c \<and> mc_senders c' = mc_senders c
      \<and> mc_active c' = mc_active c \<and> mc_delayed c' = mc_delayed c \<and> mc_goroutines c' = mc_goroutines c"
    using assms by (auto simp: mem_listen_def mem_deliver_def split: option.splits list.splits if_splits)
  with mem_listen_stock [OF assms] show ?thesis by (simp add: mem_held_def mem_excess_def)
qed

lemma mem_Ack_effect:
  assumes "it \<in> set (mc_pq c)" "mem_Ack it (mem_take it c) = (c', r)" "r \<noteq> Panic"
  shows "mem_held c = add_mset (mi_ident it) (mem_held c') \<and> mem_excess c' = mem_excess c
    \<and> mc_goroutines c' = mc_goroutines c \<and> mc_sleeping c' = mc_sleeping c"
  using assms(2,3) mem_take_effect [OF assms(1)]
  by (auto simp: mem_Ack_def mem_reduce_effect split: if_splits)

lemma mem_Requeue_failed_effect:
  assumes "it \<in> set (mc_pq c)" "mem_Requeue hs d it (mem_take it c) = (c', Err e)"
  defines "c'' \<equiv> c'\<lparr>mc_pq := mc_pq c' @ [mem_requeued hs d it]\<rparr>"
  shows "mem_held c'' = mem_held c \<and> mem_excess c'' = mem_excess c - 1
    \<and> mc_goroutines c'' = mc_goroutines c \<and> mc_sleeping c'' = mc_sleeping c"
proof -
  have "mem_held c'' = add_mset (mi_ident it) (mem_held c')" "mem_excess c'' = mem_excess c' - 1"
    by (simp_all add: c''_def mem_held_def mem_excess_def mem_stock_def mem_queue_def mem_requeued_def)
  with mem_Requeue_failed [OF assms(1,2)] mem_take_effect [OF assms(1)] show ?thesis
    by (simp add: mem_reduce_effect c''_def)
qed

lemma mem_Nack_Ack: "mem_Nack = mem_Ack"
  by (intro ext) (simp add: mem_Ack_def mem_Nack_def)

inductive_cases mem_stepE: "mem_step (c, h) (c', h')"

lemmas mem_step_cases = mem_stepE [consumes 1, case_names register run pause resume pushed refused
  pushed_late sender timed_out asleep awake dropped listen acked nacked requeued requeue_failed]

text \<open>
  What one step does to the measures.  The three balances of the driver follow from this alone.
\<close>

definition mem_effect :: "mem_consumer \<Rightarrow> mem_history \<Rightarrow> mem_consumer \<Rightarrow> mem_history \<Rightarrow> bool" where
  "mem_effect c h c' h' \<longleftrightarrow>
     h_accepted h' + (mem_held c + h_settled h + h_lost h + h_expired h)
        = h_accepted h + (mem_held c' + h_settled h' + h_lost h' + h_expired h')
   \<and> mem_excess c' + int (h_rejected h') + int (size (h_lost h) + size (h_expired h))
        = mem_excess c + int (h_rejected h) + int (size (h_lost h') + size (h_expired h'))
   \<and> mc_goroutines c' + of_nat (length (mc_sleeping c) + size (h_lost h))
        = mc_goroutines c + of_nat (length (mc_sleeping c') + size (h_lost h'))"

lemma mem_effect_same:
  "mem_held c' = mem_held c \<and> mem_excess c' = mem_excess c
     \<and> mc_goroutines c' = mc_goroutines c \<and> mc_sleeping c' = mc_sleeping c \<Longrightarrow> mem_effect c h c' h"
  by (simp add: mem_effect_def)

lemma mem_step_effect:
  assumes "mem_step (c, h) (c', h')"
  shows "mem_effect c h c' h'"
  using assms
proof (cases rule: mem_step_cases)
  case (register p)
  then show ?thesis
    by (simp add: mem_effect_same mem_Register_def mem_held_def mem_excess_def)
next
  case (run p r)
  then show ?thesis using mem_control_frame(1) mem_effect_same by blast
next
  case (pause n)
  then show ?thesis using mem_control_frame(2) mem_effect_same by blast
next
  case (resume n)
  then show ?thesis using mem_control_frame(3) mem_effect_same by blast
next
  case (pushed j r)
  then show ?thesis using mem_Push_taken [of j c c' r] by (simp add: mem_effect_def accept_def)
next
  case (refused j e)
  then show ?thesis using mem_Push_refused [of j c c' e] by (simp add: mem_effect_def)
next
  case (pushed_late e j e')
  then show ?thesis using mem_Push_late [of e j c c' e']
    by (simp add: mem_effect_def history_defs) (simp add: mem_held_def mem_excess_def)
next
  case (sender it)
  then show ?thesis using mem_sender_effect [of it c] mem_send_held [of it _ c'] mem_send_frame [of it _ c']
    by (simp add: mem_effect_def)
next
  case (timed_out it e e')
  then show ?thesis using mem_sender_effect [of it c]
    by (simp add: mem_effect_def history_defs)
next
  case (asleep it)
  then show ?thesis using mem_sleep_begin_effect [of it c]
    by (simp add: mem_effect_def) (simp add: mem_sleep_begin_def)
next
  case (awake it)
  then show ?thesis using mem_awake_effect [of it c c'] length_remove1' [of it "mc_sleeping c"]
    by (simp add: mem_effect_def)
next
  case (dropped it)
  then show ?thesis
    using mem_dropped_effect [of it c c'] mem_sleeper_effect [of it c] length_remove1' [of it "mc_sleeping c"]
    by (simp add: mem_effect_def history_defs)
next
  case listen
  then show ?thesis using mem_listen_effect mem_effect_same by blast
next
  case (acked it r)
  then show ?thesis using mem_Ack_effect [of it c c' r] by (simp add: mem_effect_def history_defs)
next
  case (nacked it r)
  then show ?thesis using mem_Ack_effect [of it c c' r] by (simp add: mem_effect_def history_defs mem_Nack_Ack)
next
  case (requeued it hs d r)
  then show ?thesis using mem_Requeue_taken [of it c hs d c' r] mem_effect_same by blast
next
  case (requeue_failed it hs d c1 e)
  then show ?thesis using mem_Requeue_failed_effect [of it c hs d c1 e]
    by (simp add: mem_effect_def history_defs)
qed

lemma mem_step_conserved: "mem_step s s' \<Longrightarrow> mem_conserved s \<Longrightarrow> mem_conserved s'"
  using mem_step_effect [of "fst s" "snd s" "fst s'" "snd s'"]
  by (cases s; cases s') (simp add: mem_conserved_def mem_effect_def)

lemma mem_step_balance: "mem_step s s' \<Longrightarrow> mem_balance s \<Longrightarrow> mem_balance s'"
  using mem_step_effect [of "fst s" "snd s" "fst s'" "snd s'"]
  by (cases s; cases s') (simp add: mem_balance_def mem_effect_def)

lemma mem_step_slots: "mem_step s s' \<Longrightarrow> mem_slots s \<Longrightarrow> mem_slots s'"
  using mem_step_effect [of "fst s" "snd s" "fst s'" "snd s'"]
  by (cases s; cases s') (simp add: mem_slots_def mem_effect_def)

text \<open>The shape of the state: the listener flag, the channel bound and the bound items.\<close>

definition mem_wf :: "mem_consumer \<Rightarrow> bool" where
  "mem_wf c \<longleftrightarrow> mem_ok c \<and> length (mem_queue c) \<le> mc_cap c \<and> (\<forall>it \<in> set (mc_pq c). mi_bound it)"

lemma mem_wf_frame:
  "mem_wf c \<Longrightarrow> mem_ok c' \<Longrightarrow> mc_prefetch c' = mc_prefetch c \<Longrightarrow> mc_cap c' = mc_cap c \<Longrightarrow>
     set (mc_pq c') \<subseteq> set (mc_pq c) \<Longrightarrow> mem_wf c'"
  by (auto simp: mem_wf_def mem_queue_def)

lemma mem_ok_frame:
  "mem_ok c \<Longrightarrow> mc_prefetch c' = mc_prefetch c \<Longrightarrow> mc_pipeline c' = mc_pipeline c \<Longrightarrow>
     mc_listeners c' = mc_listeners c \<Longrightarrow> mc_running c' = mc_running c \<Longrightarrow> mem_ok c'"
  by (simp add: mem_ok_def)

lemma mem_wf_updates [simp]:
  "mem_wf (c\<lparr>mc_active := a\<rparr>) = mem_wf c" "mem_wf (c\<lparr>mc_delayed := a\<rparr>) = mem_wf c"
  "mem_wf (c\<lparr>mc_starting := xs\<rparr>) = mem_wf c" "mem_wf (c\<lparr>mc_sleeping := xs\<rparr>) = mem_wf c"
  "mem_wf (c\<lparr>mc_senders := xs\<rparr>) = mem_wf c" "mem_wf (c\<lparr>mc_goroutines := g\<rparr>) = mem_wf c"
  by (simp_all add: mem_wf_def mem_ok_def mem_queue_def)

lemma mem_send_wf: "mem_wf c \<Longrightarrow> mem_send it c = Some c' \<Longrightarrow> mem_wf c'"
  by (auto simp: mem_send_def mem_deliver_def Let_def mem_wf_def mem_ok_def mem_queue_def
      split: option.splits if_splits)

lemma mem_handleItem_wf: "mem_wf c \<Longrightarrow> mem_handleItem ctx it c = (c', r) \<Longrightarrow> mem_wf c'"
  by (auto simp: mem_handleItem_def Let_def split: if_splits option.splits
      intro: mem_send_wf [of "c\<lparr>mc_active := mc_active c + 1\<rparr>"])

lemma mem_Push_wf: "mem_wf c \<Longrightarrow> mem_Push ctx j c = (c', r) \<Longrightarrow> mem_wf c'"
  by (auto simp: mem_Push_def Let_def split: option.splits prod.splits dest: mem_handleItem_wf)

lemma mem_control_wf:
  "mem_wf c \<Longrightarrow> mc_pipeline c \<noteq> None \<Longrightarrow> mem_Run p c = (c', r) \<Longrightarrow> mem_wf c'"
  "mem_wf c \<Longrightarrow> mem_Pause n c = (c', r) \<Longrightarrow> mem_wf c'"
  "mem_wf c \<Longrightarrow> mem_Resume n c = (c', r) \<Longrightarrow> mem_wf c'"
  by (auto simp: mem_Run_def mem_Pause_def mem_Resume_def mem_consume_def mem_wf_def mem_ok_def
      mem_queue_def Let_def split: option.splits if_splits)

lemma mem_listen_wf: "mem_wf c \<Longrightarrow> mem_listen c = Some c' \<Longrightarrow> mem_wf c'"
  by (auto simp: mem_listen_def mem_deliver_def Let_def mem_wf_def mem_ok_def mem_queue_def
      split: option.splits if_splits list.splits)

lemma mem_sleep_end_wf: "mem_wf c \<Longrightarrow> mem_sleep_end it c = (c', b) \<Longrightarrow> mem_wf c'"
  using mem_send_wf [of "c\<lparr>mc_sleeping := remove1 it (mc_sleeping c)\<rparr>" it]
  by (auto simp: mem_sleep_end_def Let_def split: option.splits)

lemma mem_take_wf: "mem_wf c \<Longrightarrow> mem_wf (mem_take it c)"
  by (auto simp: mem_wf_def mem_ok_def mem_queue_def mem_take_def dest: notin_set_remove1)

lemma mem_reduce_wf [simp]: "mem_wf (mem_reduceCount it c) = mem_wf c"
  by (simp add: mem_reduceCount_def)

lemma mem_Ack_wf: "mem_wf c \<Longrightarrow> mem_Ack it c = (c', r) \<Longrightarrow> mem_wf c'"
  by (auto simp: mem_Ack_def split: if_splits)

lemma mem_Requeue_wf: "mem_wf c \<Longrightarrow> mem_Requeue hs d it c = (c', r) \<Longrightarrow> mem_wf c'"
  by (auto simp: mem_Requeue_def Let_def split: if_splits dest!: mem_handleItem_wf [rotated])

lemma mem_step_wf:
  assumes "mem_step (c, h) (c', h')" "mem_wf c"
  shows "mem_wf c'"
  using assms(1)
proof (cases rule: mem_step_cases)
  case (register p)
  with assms(2) show ?thesis by (simp add: mem_Register_def mem_wf_def mem_ok_def mem_queue_def)
next
  case (requeue_failed it hs d c1 e)
  then have "mem_wf c1" using assms(2) mem_Requeue_wf mem_take_wf by blast
  moreover have "mi_bound it" using requeue_failed assms(2) by (simp add: mem_wf_def)
  ultimately show ?thesis
    using requeue_failed by (simp add: mem_wf_def mem_ok_def mem_queue_def mem_requeued_def)
next
  case (run p r)
  with assms(2) mem_control_wf(1) [of c p c' r] show ?thesis by simp
next
  case (pause n)
  with assms(2) mem_control_wf(2) [of c n c'] show ?thesis by simp
next
  case (resume n)
  with assms(2) mem_control_wf(3) [of c n c'] show ?thesis by simp
next
  case (pushed j r)
  with assms(2) mem_Push_wf [of c None j c' r] show ?thesis by simp
next
  case (refused j e)
  with assms(2) mem_Push_refused [of j c c' e] show ?thesis by simp
next
  case (pushed_late e j e')
  with assms(2) mem_Push_late [of e j c c' e'] show ?thesis by simp
next
  case (sender it)
  with assms(2) mem_send_wf [of "c\<lparr>mc_senders := remove1 it (mc_senders c)\<rparr>" it c'] show ?thesis by simp
next
  case (awake it)
  with assms(2) mem_sleep_end_wf [of c it c' True] show ?thesis by simp
next
  case (dropped it)
  with assms(2) mem_sleep_end_wf [of c it c' False] show ?thesis by simp
next
  case listen
  with assms(2) mem_listen_wf [of c c'] show ?thesis by simp
next
  case (acked it r)
  with assms(2) mem_Ack_wf [OF mem_take_wf, of c it it c' r] show ?thesis by simp
next
  case (nacked it r)
  with assms(2) mem_Ack_wf [OF mem_take_wf, of c it it c' r] show ?thesis by (simp add: mem_Nack_Ack)
next
  case (requeued it hs d r)
  with assms(2) mem_Requeue_wf [of "mem_take it c" hs d it c' r] mem_take_wf [of c it] show ?thesis by simp
qed (simp_all add: assms(2) mem_sleep_begin_def)

lemma mem_reach:
  assumes "mem_step\<^sup>*\<^sup>* (c0, no_history) (c, h)" "new_mem_consumer cfg n prio = Ok c0"
  shows "mem_conserved (c, h) \<and> mem_balance (c, h) \<and> mem_slots (c, h) \<and> mem_wf c"
  using assms(1)
proof (induction "(c, h)" arbitrary: c h rule: rtranclp_induct)
  case base
  then show ?case using assms(2)
    by (auto simp: new_mem_consumer_def no_history_def mem_conserved_def mem_balance_def mem_slots_def
        mem_wf_def mem_ok_def mem_held_def mem_excess_def mem_stock_def mem_queue_def split: if_splits)
next
  case (step s)
  then show ?case
    using mem_step_balance mem_step_conserved mem_step_slots mem_step_wf by (cases s) blast
qed

section \<open>A sample run\<close>

definition sample_pipeline :: pipeline where
  "sample_pipeline = \<lparr>pl_name = ''p'', pl_driver = ''memory'', pl_priority = 10,
     pl_int = (\<lambda>_ d. d), pl_string = (\<lambda>_ d. d), pl_bool = (\<lambda>_ d. d)\<rparr>"

definition sample_job :: "int \<Rightarrow> job" where
  "sample_job d = \<lparr>job_name = ''app'', job_ident = ''1'', job_payload = ''x'', job_headers = Map.empty,
     job_options = \<lparr>op_priority = 0, op_pipeline = ''p'', op_delay = d\<rparr>\<rparr>"

definition sample_consumer :: "nat \<Rightarrow> pipeline option \<Rightarrow> mem_consumer" where
  "sample_consumer cap p = \<lparr>mc_cfg = None, mc_pipeline = p, mc_prefetch = Some [], mc_cap = cap,
     mc_goroutines = 0, mc_delayed = 0, mc_active = 0, mc_priority = 7, mc_listeners = 0,
     mc_running = 0, mc_starting = [], mc_sleeping = [], mc_senders = [], mc_pq = []\<rparr>"

lemma sample_new: "new_mem_consumer None (int cap) 7 = Ok (sample_consumer cap None)" if "cap < 1000"
  using that by (simp add: new_mem_consumer_def sample_consumer_def chan_size_ok_def)

lemma sample_registered:
  "mem_step (sample_consumer cap None, h) (sample_consumer cap (Some sample_pipeline), h)"
  using mem_step.register [of "sample_consumer cap None" h sample_pipeline]
  by (simp add: mem_Register_def sample_consumer_def)

definition sample_pushed :: mem_consumer where
  "sample_pushed = (sample_consumer 2 (Some sample_pipeline))
     \<lparr>mc_active := 1, mc_prefetch := Some [mem_fromJob (sample_job 0)]\<rparr>"

lemma sample_push_run:
  "mem_step\<^sup>*\<^sup>* (sample_consumer 2 None, no_history) (sample_pushed, accept ''1'' no_history)"
proof -
  have "mem_Push None (sample_job 0) (sample_consumer 2 (Some sample_pipeline)) = (sample_pushed, Ok ())"
    by (simp add: mem_Push_def mem_handleItem_def mem_send_def sample_pushed_def sample_consumer_def
        sample_job_def mem_fromJob_def)
  then have "mem_step (sample_consumer 2 (Some sample_pipeline), no_history)
      (sample_pushed, accept (job_ident (sample_job 0)) no_history)"
    by (rule mem_step.pushed) simp
  then show ?thesis using sample_registered [of 2 no_history]
    by (simp add: sample_job_def converse_rtranclp_into_rtranclp)
qed

text \<open>A channel without buffer and listener drops every delayed job.\<close>

definition dropped_state :: "nat \<Rightarrow> mem_consumer \<times> mem_history" where
  "dropped_state k = ((sample_consumer 0 (Some sample_pipeline))
       \<lparr>mc_goroutines := of_nat k, mc_delayed := int k\<rparr>,
     no_history\<lparr>h_accepted := replicate_mset k ''1'', h_lost := replicate_mset k ''1''\<rparr>)"

lemma dropped_step:
  assumes "k < 1000"
  shows "mem_step\<^sup>*\<^sup>* (dropped_state k) (dropped_state (Suc k))"
proof -
  obtain c h where ch: "dropped_state k = (c, h)" by fastforce
  let ?it = "mem_fromJob (sample_job 5)"
  let ?c1 = "c\<lparr>mc_starting := [?it]\<rparr>" and ?h1 = "accept ''1'' h"
  let ?c2 = "c\<lparr>mc_sleeping := [?it], mc_goroutines := of_nat (Suc k), mc_delayed := int (Suc k)\<rparr>"
  have c: "c = (sample_consumer 0 (Some sample_pipeline))\<lparr>mc_goroutines := of_nat k, mc_delayed := int k\<rparr>"
    and h: "h = no_history\<lparr>h_accepted := replicate_mset k ''1'', h_lost := replicate_mset k ''1''\<rparr>"
    using ch by (simp_all add: dropped_state_def)
  have small: "\<not> goroutinesMax \<le> of_nat k"
    using assms by (simp add: word_le_nat_alt goroutinesMax_def unat_of_nat)
  have "mem_Push None (sample_job 5) c = (?c1, Ok ())"
    using small by (simp add: c mem_Push_def mem_handleItem_def sample_consumer_def sample_job_def
        mem_fromJob_def)
  then have s1: "mem_step (c, h) (?c1, ?h1)"
    using mem_step.pushed [of "sample_job 5" c ?c1 "Ok ()" h] by (simp add: sample_job_def)
  have s2: "mem_step (?c1, ?h1) (?c2, ?h1)"
    using mem_step.asleep [of ?it ?c1 ?h1]
    by (simp add: mem_sleep_begin_def c sample_consumer_def add.commute)
  have "mem_sleep_end ?it ?c2 = (fst (dropped_state (Suc k)), False)"
    by (simp add: mem_sleep_end_def mem_send_def c sample_consumer_def dropped_state_def)
  then have s3: "mem_step (?c2, ?h1) (fst (dropped_state (Suc k)), lose ''1'' ?h1)"
    using mem_step.dropped [of ?it ?c2 "fst (dropped_state (Suc k))" ?h1]
    by (simp add: mem_fromJob_def sample_job_def)
  have "lose ''1'' ?h1 = snd (dropped_state (Suc k))"
    by (simp add: lose_def accept_def h dropped_state_def)
  with s3 have s3': "mem_step (?c2, ?h1) (dropped_state (Suc k))" by simp
  show ?thesis unfolding ch
    by (rule converse_rtranclp_into_rtranclp, rule s1, rule converse_rtranclp_into_rtranclp, rule s2,
        rule r_into_rtranclp, rule s3')
qed

lemma dropped_reach: "k \<le> 1000 \<Longrightarrow> mem_step\<^sup>*\<^sup>* (sample_consumer 0 None, no_history) (dropped_state k)"
proof (induction k)
  case 0
  have "dropped_state 0 = (sample_consumer 0 (Some sample_pipeline), no_history)"
    by (simp add: dropped_state_def sample_consumer_def no_history_def)
  then show ?case using sample_registered [of 0 no_history] by simp
next
  case (Suc k)
  then show ?case using dropped_step [of k] by (simp add: Suc_le_eq rtranclp_trans)
qed

section \<open>Properties\<close>







text \<open>
  C31: A delayed job that finds the channel full never gives back its goroutine slot.  Once a
  thousand of them were dropped, every later delayed push is refused, whatever the load.
\<close>
theorem mem_delayed_starvation:
  assumes "new_mem_consumer cfg n prio = Ok c0" "mem_step\<^sup>*\<^sup>* (c0, no_history) (c, h)"
    and "1000 \<le> size (h_lost h)" "length (mc_sleeping c) + size (h_lost h) < 2 ^ 64"
    and "0 < mi_delay it"
  shows "mem_handleItem ctx it c
    = (c, Err (EOp ''ephemeral_handle_request'' (Str ''max concurrency number reached'')))"
proof -
  have "unat (mc_goroutines c) = length (mc_sleeping c) + size (h_lost h)"
    using mem_reach [OF assms(2,1)] assms(4)
    by (simp add: mem_slots_def unat_of_nat flip: of_nat_add)
  then have "goroutinesMax \<le> mc_goroutines c"
    using assms(3) by (simp add: word_le_nat_alt goroutinesMax_def)
  with assms(5) show ?thesis by (simp add: mem_handleItem_def)
qed

lemma mem_drain_length_aux: "i \<le> length q \<Longrightarrow> length (mem_drain i q) = i + (length q - i) div 2"
proof (induction i q rule: mem_drain.induct)
  case (1 i q)
  show ?case
  proof (cases "i < length q")
    case True
    show ?thesis
    proof (cases "Suc i \<le> length (tl q)")
      case True2: True
      with 1 True show ?thesis by simp
    next
      case False
      with True have "length q = Suc i" by simp
      with True show ?thesis by simp
    qed
  next
    case False
    with 1 show ?thesis by simp
  qed
qed

theorem mem_delayed_starvation_witness:
  "\<not> is_ok (snd (mem_handleItem None (mem_fromJob (sample_job 5)) (fst (dropped_state 1000))))"
proof -
  have "mem_step\<^sup>*\<^sup>* (sample_consumer 0 None, no_history) (fst (dropped_state 1000), snd (dropped_state 1000))"
    using dropped_reach [of 1000] by simp
  from mem_delayed_starvation [OF sample_new this, where it = "mem_fromJob (sample_job 5)" and ctx = None]
  show ?thesis
    by (simp add: dropped_state_def sample_consumer_def mem_fromJob_def sample_job_def)
qed

text \<open>
  The drain loop of \<open>Stop\<close> compares its index with the length of the channel it is
  shrinking, so of \<open>n\<close> queued jobs it removes only half (rounded up) and leaves the others.
\<close>
theorem mem_drain_half: "length (mem_drain 0 q) = length q div 2"
  using mem_drain_length_aux [of 0 q] by simp

text \<open>
  A push whose context is done reports a full pipeline with the configured limit, except on a
  consumer declared at run time: that one has no configuration and the error path panics.
\<close>
theorem mem_push_timeout:
  assumes "mc_pipeline c = Some p" "op_delay (job_options j) \<le> 0"
  shows "snd (mem_Push (Some e) j c) = (case mc_cfg c of
      None \<Rightarrow> Panic
    | Some cfg \<Rightarrow> Err (EOp ''ephemeral_push'' (EOp ''ephemeral_handle_request'' (Str
          (''local pipeline is full, consider to increase prefetch number, current limit: ''
           @ show_nat (unat (mcf_prefetch cfg)) @ '', context error: '' @ e)))))"
  using assms by (simp add: mem_Push_def mem_handleItem_def mem_full_error_def mem_fromJob_def
      split: option.splits)

theorem mem_push_timeout_witness:
  "snd (mem_Push (Some ''deadline'') (sample_job 0) (sample_consumer 2 (Some sample_pipeline))) = Panic"
  using mem_push_timeout [of "sample_consumer 2 (Some sample_pipeline)" sample_pipeline "sample_job 0"]
  by (simp add: sample_consumer_def sample_job_def)

text \<open>
  \<open>Requeue\<close> overwrites the delay before it subtracts the job from a counter.  A delayed job
  requeued without a delay is therefore subtracted from \<open>active\<close>, and stays in
  \<open>delayed\<close> for good: after the requeue and the final \<open>Ack\<close>, \<open>active\<close> is one
  lower and \<open>delayed\<close> is unchanged.
\<close>
theorem mem_requeue_drift:
  assumes "mi_bound it" "0 < mi_delay it" "d \<le> 0"
    and "mem_Requeue hs d it c = (c1, Ok ())" "mem_Ack (mem_requeued hs d it) c1 = (c2, r)"
  shows "mc_delayed c2 = mc_delayed c \<and> mc_active c2 = mc_active c - 1"
proof -
  obtain c' where s: "mem_send (mem_requeued hs d it) c' = Some c1"
    and "mc_delayed c' = mc_delayed c" "mc_active c' = mc_active c"
    using assms(1,3,4)
    by (auto simp: mem_Requeue_def mem_requeued_def mem_handleItem_def mem_reduceCount_def Let_def
        split: option.splits)
  with mem_send_frame [OF s] assms(1,3,5) show ?thesis
    by (auto simp: mem_Ack_def mem_requeued_def mem_reduceCount_def)
qed

theorem mem_requeue_drift_witness:
  "let it = (mem_fromJob (sample_job 5))\<lparr>mi_bound := True\<rparr>;
       c = (sample_consumer 2 (Some sample_pipeline))\<lparr>mc_delayed := 1\<rparr>;
       c1 = fst (mem_Requeue Map.empty 0 it c);
       c2 = fst (mem_Ack (mem_requeued Map.empty 0 it) c1)
   in mc_delayed c2 = 1 \<and> mc_active c2 = - 1"
  using mem_requeue_drift [of "(mem_fromJob (sample_job 5))\<lparr>mi_bound := True\<rparr>" 0 Map.empty
      "(sample_consumer 2 (Some sample_pipeline))\<lparr>mc_delayed := 1\<rparr>"]
  by (simp add: mem_Requeue_def mem_requeued_def mem_handleItem_def mem_send_def mem_reduceCount_def
      mem_Ack_def sample_consumer_def mem_fromJob_def sample_job_def)

end
