(* ===== verification/Bolt_Store.thy ===== *)
theory Bolt_Store
  imports Go_Lib
begin

text \<open>
  The interface of the embedded database \<open>go.etcd.io/bbolt\<close> that the boltdb drivers use.  The
  package is not part of the repository, so it is a parameter: a record of the operations, and the
  predicate \<open>bolt_laws\<close> that states what its documentation promises about buckets and cursors.  A
  value of type \<open>'d\<close> is the content of the database, or of a writable transaction; an operation
  that fails leaves the caller with the content it had, and a transaction that is rolled back or
  whose commit fails is the content before it began.

  The last section shows that the laws can hold: association lists satisfy them.
\<close>

record ('d, 'v) bolt_api =
  db_begin :: "'d \<Rightarrow> error option"
  db_commit :: "'d \<Rightarrow> error option"
  db_rollback :: "'d \<Rightarrow> error option"
  db_close :: "'d \<Rightarrow> error option"
  bk_create :: "string \<Rightarrow> 'd \<Rightarrow> 'd res"
  bk_get :: "string \<Rightarrow> string \<Rightarrow> 'd \<Rightarrow> 'v option"
  bk_put :: "string \<Rightarrow> string \<Rightarrow> 'v \<Rightarrow> 'd \<Rightarrow> 'd res"
  bk_delete :: "string \<Rightarrow> string \<Rightarrow> 'd \<Rightarrow> 'd res"
  bk_entries :: "string \<Rightarrow> 'd \<Rightarrow> (string \<times> 'v) list"
  db_view :: "'d \<Rightarrow> error option"
  bk_exists :: "string \<Rightarrow> 'd \<Rightarrow> bool"
  bk_new :: "string \<Rightarrow> 'd \<Rightarrow> 'd res"
  bk_drop :: "string \<Rightarrow> 'd \<Rightarrow> 'd res"

text \<open>
  \<open>Put\<close> sets and \<open>Delete\<close> removes one key of one bucket; creating a bucket keeps every value;
  a cursor visits the entries of a bucket in byte order of the keys; a bucket that was created
  (\<open>CreateBucketIfNotExists\<close>, \<open>CreateBucket\<close>) exists and stays when its keys change; a bucket that was
  deleted (\<open>DeleteBucket\<close>) has lost its keys.
\<close>

definition bolt_laws :: "('d, 'v) bolt_api \<Rightarrow> bool" where
  "bolt_laws A \<longleftrightarrow>
     (\<forall>b k v d d'. bk_put A b k v d = Ok d' \<longrightarrow>
        (\<forall>b' k'. bk_get A b' k' d' = (if b' = b \<and> k' = k then Some v else bk_get A b' k' d)))
   \<and> (\<forall>b k d d'. bk_delete A b k d = Ok d' \<longrightarrow>
        (\<forall>b' k'. bk_get A b' k' d' = (if b' = b \<and> k' = k then None else bk_get A b' k' d)))
   \<and> (\<forall>b d d'. bk_create A b d = Ok d' \<longrightarrow> (\<forall>b' k'. bk_get A b' k' d' = bk_get A b' k' d))
   \<and> (\<forall>b d. sorted_wrt (<) (map fst (bk_entries A b d))
        \<and> (\<forall>k. map_of (bk_entries A b d) k = bk_get A b k d))
   \<and> (\<forall>b k v d d'. bk_put A b k v d = Ok d' \<longrightarrow> (\<forall>b'. bk_exists A b' d' = bk_exists A b' d))
   \<and> (\<forall>b k d d'. bk_delete A b k d = Ok d' \<longrightarrow> (\<forall>b'. bk_exists A b' d' = bk_exists A b' d))
   \<and> (\<forall>b d d'. bk_create A b d = Ok d' \<longrightarrow> bk_exists A b d')
   \<and> (\<forall>b d d'. bk_new A b d = Ok d' \<longrightarrow> bk_exists A b d' \<and> (\<forall>b' k'. bk_get A b' k' d' = bk_get A b' k' d))
   \<and> (\<forall>b d d'. bk_drop A b d = Ok d' \<longrightarrow>
        (\<forall>b' k'. bk_get A b' k' d' = (if b' = b then None else bk_get A b' k' d)))"

lemma bk_put_get:
  "bolt_laws A \<Longrightarrow> bk_put A b k v d = Ok d' \<Longrightarrow>
     bk_get A b' k' d' = (if b' = b \<and> k' = k then Some v else bk_get A b' k' d)"
  by (simp add: bolt_laws_def)

lemma bk_delete_get:
  "bolt_laws A \<Longrightarrow> bk_delete A b k d = Ok d' \<Longrightarrow>
     bk_get A b' k' d' = (if b' = b \<and> k' = k then None else bk_get A b' k' d)"
  by (simp add: bolt_laws_def)

lemma bk_create_get: "bolt_laws A \<Longrightarrow> bk_create A b d = Ok d' \<Longrightarrow> bk_get A b' k' d' = bk_get A b' k' d"
  by (simp add: bolt_laws_def)

lemma bk_entries_get: "bolt_laws A \<Longrightarrow> map_of (bk_entries A b d) k = bk_get A b k d"
  by (simp add: bolt_laws_def)

lemma bk_entries_sorted: "bolt_laws A \<Longrightarrow> sorted_wrt (<) (map fst (bk_entries A b d))"
  by (simp add: bolt_laws_def)

lemma bk_exists_keep:
  "bolt_laws A \<Longrightarrow> bk_put A b k v d = Ok d' \<Longrightarrow> bk_exists A b' d' = bk_exists A b' d"
  "bolt_laws A \<Longrightarrow> bk_delete A b k d = Ok d' \<Longrightarrow> bk_exists A b' d' = bk_exists A b' d"
  "bolt_laws A \<Longrightarrow> bk_create A b d = Ok d' \<Longrightarrow> bk_exists A b d'"
  by (simp_all add: bolt_laws_def)

lemma bk_new_drop:
  "bolt_laws A \<Longrightarrow> bk_new A b d = Ok d' \<Longrightarrow> bk_exists A b d'"
  "bolt_laws A \<Longrightarrow> bk_new A b d = Ok d' \<Longrightarrow> bk_get A b' k' d' = bk_get A b' k' d"
  "bolt_laws A \<Longrightarrow> bk_drop A b d = Ok d' \<Longrightarrow>
     bk_get A b' k' d' = (if b' = b then None else bk_get A b' k' d)"
  by (simp_all add: bolt_laws_def)

lemmas bolt_get_simps = bk_put_get bk_delete_get bk_create_get

lemma bk_entries_distinct: "bolt_laws A \<Longrightarrow> distinct (map fst (bk_entries A b d))"
  using bk_entries_sorted [of A b d] by (simp add: strict_sorted_iff)

lemma bk_entries_iff:
  assumes "bolt_laws A"
  shows "(k, v) \<in> set (bk_entries A b d) \<longleftrightarrow> bk_get A b k d = Some v"
  using map_of_eq_Some_iff [OF bk_entries_distinct [OF assms], of b d k v] bk_entries_get [OF assms, of b d k]
  by simp

lemma bk_first_get:
  assumes "bolt_laws A" "bk_entries A b d = (k, v) # es"
  shows "bk_get A b k d = Some v"
  using bk_entries_iff [OF assms(1), of k v b d] assms(2) by simp

lemma bk_first_least:
  assumes "bolt_laws A" "bk_entries A b d = (k, v) # es" "bk_get A b k' d = Some v'"
  shows "k \<le> k'"
proof -
  have "(k', v') \<in> set ((k, v) # es)" using bk_entries_iff [OF assms(1), of k' v' b d] assms(2,3) by simp
  moreover have "\<forall>e \<in> set es. k < fst e" using bk_entries_sorted [OF assms(1), of b d] assms(2) by simp
  ultimately show ?thesis by auto
qed

lemma bk_entries_Nil: "bolt_laws A \<Longrightarrow> bk_entries A b d = [] \<Longrightarrow> bk_get A b k d = None"
  using bk_entries_get [of A b d k] by simp

section \<open>An instance\<close>

definition list_bolt :: "(string \<Rightarrow> (string \<times> 'v) list, 'v) bolt_api" where
  "list_bolt = \<lparr>
     db_begin = (\<lambda>_. None), db_commit = (\<lambda>_. None), db_rollback = (\<lambda>_. None), db_close = (\<lambda>_. None),
     bk_create = (\<lambda>b d. Ok d),
     bk_get = (\<lambda>b k d. map_of (d b) k),
     bk_put = (\<lambda>b k v d. Ok (d(b := (k, v) # d b))),
     bk_delete = (\<lambda>b k d. Ok (d(b := filter (\<lambda>e. fst e \<noteq> k) (d b)))),
     bk_entries = (\<lambda>b d. map (\<lambda>k. (k, the (map_of (d b) k))) (sort (remdups (map fst (d b))))),
     db_view = (\<lambda>_. None), bk_exists = (\<lambda>_ _. True), bk_new = (\<lambda>_ d. Ok d),
     bk_drop = (\<lambda>b d. Ok (d(b := [])))\<rparr>"

lemma map_of_filter_key: "map_of (filter (\<lambda>e. fst e \<noteq> k) xs) k' = (if k' = k then None else map_of xs k')"
  by (induction xs) auto

lemma map_of_keys: "map_of (map (\<lambda>k. (k, f k)) ks) k = (if k \<in> set ks then Some (f k) else None)"
  by (induction ks) auto

lemma map_of_sorted_entries:
  "map_of (map (\<lambda>k. (k, the (map_of xs k))) (sort (remdups (map fst xs)))) k = map_of xs k"
proof (cases "map_of xs k")
  case None
  moreover have "k \<notin> fst ` set xs" using None by (simp add: map_of_eq_None_iff)
  ultimately show ?thesis by (simp add: map_of_keys)
next
  case (Some v)
  then have "k \<in> fst ` set xs" by (metis map_of_eq_None_iff option.distinct(1))
  with Some show ?thesis by (simp add: map_of_keys)
qed

lemma list_bolt_laws: "bolt_laws list_bolt"
proof -
  have "sorted_wrt (<) (sort (remdups ks))" for ks :: "string list"
    by (simp add: strict_sorted_iff)
  then show ?thesis
    by (simp add: bolt_laws_def list_bolt_def map_of_filter_key map_of_sorted_entries comp_def)
qed

lemma list_bolt_simps [simp]:
  "db_begin list_bolt d = None" "db_commit list_bolt d = None" "db_rollback list_bolt d = None"
  "db_close list_bolt d = None" "bk_create list_bolt b d = Ok d"
  "db_view list_bolt d = None" "bk_exists list_bolt b d" "bk_new list_bolt b d = Ok d"
  "bk_drop list_bolt b d = Ok (d(b := []))"
  "bk_get list_bolt b k d = map_of (d b) k"
  "bk_put list_bolt b k v d = Ok (d(b := (k, v) # d b))"
  "bk_delete list_bolt b k d = Ok (d(b := filter (\<lambda>e. fst e \<noteq> k) (d b)))"
  "d b = [] \<Longrightarrow> bk_entries list_bolt b d = []"
  "d b = [e] \<Longrightarrow> bk_entries list_bolt b d = [e]"
  by (cases e) (simp_all add: list_bolt_def)

end
