(* ===== verification/Go_Time.thy ===== *)
theory Go_Time
  imports Go_Lib "HOL-Library.Monad_Syntax"
begin

text \<open>
  The use the drivers make of Go's \<open>time\<close> package.  An instant is its number of nanoseconds
  since the Unix epoch.  \<open>time_parse\<close> is \<open>time.Parse(time.RFC3339, s)\<close> with the grammar of
  Go's parser (an hour of one digit and an unbounded fraction are accepted); \<open>fmt_utc\<close> is
  \<open>t.UTC().Format(time.RFC3339)\<close> for an instant given in whole seconds, and \<open>fmt_instant\<close> the
  same for an instant that may lie before 1970.  The lemma \<open>fmt_utc_less\<close> is what the delayed
  queue of the boltdb driver rests on: up to the year 9999 the byte order of formatted instants is
  their chronological order.
\<close>

section \<open>Civil calendar\<close>

definition is_leap :: "nat \<Rightarrow> bool" where
  "is_leap y \<longleftrightarrow> y mod 4 = 0 \<and> (y mod 100 \<noteq> 0 \<or> y mod 400 = 0)"

definition month_lens :: "nat \<Rightarrow> nat list" where
  "month_lens y = [31, if is_leap y then 29 else 28, 31, 30, 31, 30, 31, 31, 30, 31, 30, 31]"

text \<open>Days from 1 January of year 0 to 1 January of year \<open>y\<close>; the leap years among them are counted.\<close>

definition days_before_year :: "nat \<Rightarrow> nat" where
  "days_before_year y = 365 * y + (y + 3) div 4 + (y + 399) div 400 - (y + 99) div 100"

definition days_before_month :: "nat \<Rightarrow> nat \<Rightarrow> nat" where
  "days_before_month y m = sum_list (take (m - 1) (month_lens y))"

text \<open>1 January 1970 is day 719528.\<close>

definition unix_day :: "nat \<Rightarrow> nat \<Rightarrow> nat \<Rightarrow> int" where
  "unix_day y m d = int (days_before_year y + days_before_month y m + d - 1) - 719528"

fun year_down :: "nat \<Rightarrow> nat \<Rightarrow> nat" where
  "year_down y n = (if y = 0 \<or> days_before_year y \<le> n then y else year_down (y - 1) n)"

fun month_down :: "nat \<Rightarrow> nat \<Rightarrow> nat \<Rightarrow> nat" where
  "month_down y m r = (if m \<le> 1 \<or> days_before_month y m \<le> r then m else month_down y (m - 1) r)"

declare year_down.simps [simp del] month_down.simps [simp del]

section \<open>Formatting\<close>

definition pad2 :: "nat \<Rightarrow> string" where
  "pad2 n = [digit_char (n div 10 mod 10), digit_char (n mod 10)]"

definition pad4 :: "nat \<Rightarrow> string" where
  "pad4 n = pad2 (n div 100) @ pad2 (n mod 100)"

definition civil_day :: "nat \<Rightarrow> nat" where
  "civil_day s = s div 86400 + 719528"

definition civil_year :: "nat \<Rightarrow> nat" where
  "civil_year n = year_down (n div 365) n"

definition civil_month :: "nat \<Rightarrow> nat" where
  "civil_month n = (let y = civil_year n in month_down y 12 (n - days_before_year y))"

definition civil_mday :: "nat \<Rightarrow> nat" where
  "civil_mday n =
     (let y = civil_year n in n - days_before_year y - days_before_month y (civil_month n) + 1)"

definition fmt_utc :: "nat \<Rightarrow> string" where
  "fmt_utc s =
     (let n = civil_day s; t = s mod 86400 in
      pad4 (civil_year n) @ ''-'' @ pad2 (civil_month n) @ ''-'' @ pad2 (civil_mday n) @ ''T'' @
      pad2 (t div 3600) @ '':'' @ pad2 (t div 60 mod 60) @ '':'' @ pad2 (t mod 60) @ ''Z'')"

section \<open>Parsing\<close>

definition expect :: "char \<Rightarrow> string \<Rightarrow> string option" where
  "expect c s = (case s of [] \<Rightarrow> None | x # r \<Rightarrow> if x = c then Some r else None)"

definition digits_n :: "nat \<Rightarrow> string \<Rightarrow> (nat \<times> string) option" where
  "digits_n k s =
     (if k \<le> length s \<and> list_all is_digit (take k s)
      then Some (digits_val (take k s), drop k s) else None)"

text \<open>\<open>getnum(value, false)\<close>: two digits, or one when the next byte is not a digit.\<close>

definition one_or_two :: "string \<Rightarrow> (nat \<times> string) option" where
  "one_or_two s = (case digits_n 2 s of Some r \<Rightarrow> Some r | None \<Rightarrow> digits_n 1 s)"

definition fraction :: "string \<Rightarrow> nat \<times> string" where
  "fraction s =
     (case s of
        x # d # r \<Rightarrow>
          if (x = CHR ''.'' \<or> x = CHR '','') \<and> is_digit d then
            (let ds = takeWhile is_digit (d # r); used = take 9 ds in
             (digits_val used * 10 ^ (9 - length used), dropWhile is_digit (d # r)))
          else (0, s)
      | _ \<Rightarrow> (0, s))"

definition zone :: "string \<Rightarrow> (int \<times> string) option" where
  "zone s =
     (case s of
        [] \<Rightarrow> None
      | c # r \<Rightarrow>
          if c = CHR ''Z'' then Some (0, r)
          else if c = CHR ''+'' \<or> c = CHR ''-'' then do {
            (h, r1) \<leftarrow> digits_n 2 r;
            r2 \<leftarrow> expect CHR '':'' r1;
            (m, r3) \<leftarrow> digits_n 2 r2;
            Some ((if c = CHR ''-'' then -1 else 1) * int (h * 3600 + m * 60), r3)
          } else None)"

definition time_parse :: "string \<Rightarrow> int option" where
  "time_parse s = do {
     (y, s1) \<leftarrow> digits_n 4 s;
     s2 \<leftarrow> expect CHR ''-'' s1;
     (m, s3) \<leftarrow> digits_n 2 s2;
     s4 \<leftarrow> expect CHR ''-'' s3;
     (d, s5) \<leftarrow> digits_n 2 s4;
     s6 \<leftarrow> expect CHR ''T'' s5;
     (hh, s7) \<leftarrow> one_or_two s6;
     s8 \<leftarrow> expect CHR '':'' s7;
     (mi, s9) \<leftarrow> digits_n 2 s8;
     s10 \<leftarrow> expect CHR '':'' s9;
     (se, s11) \<leftarrow> digits_n 2 s10;
     let (ns, s12) = fraction s11;
     (off, rest) \<leftarrow> zone s12;
     (if rest = [] \<and> 1 \<le> m \<and> m \<le> 12 \<and> 1 \<le> d \<and> d \<le> month_lens y ! (m - 1)
         \<and> hh < 24 \<and> mi < 60 \<and> se < 60
      then Some ((unix_day y m d * 86400 + int (hh * 3600 + mi * 60 + se) - off) * 10 ^ 9 + int ns)
      else None)
   }"

section \<open>The byte order of formatted instants\<close>

lemma less_append_eq_length:
  fixes xs ys us vs :: string
  assumes "length xs = length us"
  shows "xs @ ys < us @ vs \<longleftrightarrow> xs < us \<or> (xs = us \<and> ys < vs)"
  using assms by (induction xs us rule: list_induct2) auto

lemma digit_char_less [simp]: "a < 10 \<Longrightarrow> b < 10 \<Longrightarrow> digit_char a < digit_char b \<longleftrightarrow> a < b"
  by (simp add: digit_char_def less_char_def)

lemma digit_char_eq [simp]: "a < 10 \<Longrightarrow> b < 10 \<Longrightarrow> digit_char a = digit_char b \<longleftrightarrow> a = b"
  by (simp add: digit_char_def)

lemma length_pad2 [simp]: "length (pad2 n) = 2"
  by (simp add: pad2_def)

lemma length_pad4 [simp]: "length (pad4 n) = 4"
  by (simp add: pad4_def)

lemma div_mod_less:
  assumes "0 < (k :: nat)"
  shows "a < b \<longleftrightarrow> a div k < b div k \<or> (a div k = b div k \<and> a mod k < b mod k)"
proof
  assume "a < b"
  then have "a div k \<le> b div k" by (simp add: div_le_mono)
  moreover have "a mod k < b mod k" if "a div k = b div k"
    using \<open>a < b\<close> that by (metis mult_div_mod_eq nat_add_left_cancel_less)
  ultimately show "a div k < b div k \<or> (a div k = b div k \<and> a mod k < b mod k)"
    by linarith
next
  assume "a div k < b div k \<or> (a div k = b div k \<and> a mod k < b mod k)"
  then show "a < b"
    by (metis div_le_mono linorder_not_less mult_div_mod_eq nat_add_left_cancel_le)
qed

lemma pad2_less: "a < 100 \<Longrightarrow> b < 100 \<Longrightarrow> pad2 a < pad2 b \<longleftrightarrow> a < b"
proof -
  assume "a < 100" "b < 100"
  then have "a div 10 < 10" "b div 10 < 10" by (simp_all add: less_mult_imp_div_less)
  then have "pad2 a < pad2 b \<longleftrightarrow> a div 10 < b div 10 \<or> (a div 10 = b div 10 \<and> a mod 10 < b mod 10)"
    by (auto simp: pad2_def)
  also have "\<dots> \<longleftrightarrow> a < b"
    by (rule div_mod_less [symmetric]) simp
  finally show ?thesis .
qed

lemma pad2_eq: "a < 100 \<Longrightarrow> b < 100 \<Longrightarrow> pad2 a = pad2 b \<longleftrightarrow> a = b"
  using pad2_less [of a b] pad2_less [of b a] by (metis less_irrefl linorder_neq_iff)

lemma pad4_less: "a < 10000 \<Longrightarrow> b < 10000 \<Longrightarrow> pad4 a < pad4 b \<longleftrightarrow> a < b"
proof -
  assume "a < 10000" "b < 10000"
  then have "a div 100 < 100" "b div 100 < 100" by (simp_all add: less_mult_imp_div_less)
  then have "pad4 a < pad4 b \<longleftrightarrow> a div 100 < b div 100 \<or> (a div 100 = b div 100 \<and> a mod 100 < b mod 100)"
    by (simp add: pad4_def less_append_eq_length pad2_less pad2_eq)
  also have "\<dots> \<longleftrightarrow> a < b"
    by (rule div_mod_less [symmetric]) simp
  finally show ?thesis .
qed

lemma pad4_eq: "a < 10000 \<Longrightarrow> b < 10000 \<Longrightarrow> pad4 a = pad4 b \<longleftrightarrow> a = b"
  using pad4_less [of a b] pad4_less [of b a] by (metis less_irrefl linorder_neq_iff)

lemma ceil_div_step:
  assumes "0 < (k :: nat)"
  shows "Suc (y + (k - 1)) div k = (y + (k - 1)) div k + (if k dvd y then 1 else 0)"
proof -
  have "Suc (y + (k - 1)) = y + k" using assms by simp
  then have "Suc (y + (k - 1)) mod k = y mod k" by simp
  then show ?thesis by (simp add: div_Suc dvd_eq_mod_eq_0)
qed

lemma ceil_div_Suc:
  "(Suc y + 3) div 4 = (y + 3) div 4 + (if 4 dvd y then 1 else 0)"
  "(Suc y + 99) div 100 = (y + 99) div 100 + (if 100 dvd y then 1 else 0)"
  "(Suc y + 399) div 400 = (y + 399) div 400 + (if 400 dvd y then 1 else 0)"
  using ceil_div_step [of 4 y] ceil_div_step [of 100 y] ceil_div_step [of 400 y] by simp_all

lemma dvd_100_4: "(100 :: nat) dvd y \<Longrightarrow> 4 dvd y" "(400 :: nat) dvd y \<Longrightarrow> 100 dvd y"
  using dvd_trans [of 4 100 y] dvd_trans [of 100 400 y] by simp_all

lemma ceil_div_le: "(y + 99) div 100 \<le> (y + 3) div (4 :: nat)"
proof (induction y)
  case 0
  show ?case by simp
next
  case (Suc y)
  then show ?case unfolding ceil_div_Suc using dvd_100_4(1) [of y] by auto
qed

lemma days_before_year_Suc:
  "days_before_year y + 365 \<le> days_before_year (Suc y)"
  "days_before_year (Suc y) \<le> days_before_year y + 366"
proof -
  define q where "q = (y + 3) div 4"
  define c where "c = (y + 99) div 100"
  define l where "l = (y + 399) div 400"
  have "c \<le> q" unfolding c_def q_def by (rule ceil_div_le)
  then show "days_before_year y + 365 \<le> days_before_year (Suc y)"
    "days_before_year (Suc y) \<le> days_before_year y + 366"
    using dvd_100_4 [of y]
    unfolding days_before_year_def ceil_div_Suc q_def [symmetric] c_def [symmetric] l_def [symmetric]
    by auto
qed

lemma days_before_year_mono: "a < b \<Longrightarrow> days_before_year a + 365 \<le> days_before_year b"
proof (induction b)
  case 0
  then show ?case by simp
next
  case (Suc b)
  then show ?case using days_before_year_Suc(1) [of b] by (cases "a = b") auto
qed

lemma year_down_le: "days_before_year (year_down y n) \<le> n"
proof (induction y n rule: year_down.induct)
  case (1 y n)
  then show ?case by (subst year_down.simps) (auto simp: days_before_year_def)
qed

lemma year_down_max: "n < days_before_year (Suc y) \<Longrightarrow> n < days_before_year (Suc (year_down y n))"
proof (induction y n rule: year_down.induct)
  case (1 y n)
  then show ?case by (subst year_down.simps) auto
qed

lemma days_before_year_ge: "365 * y \<le> days_before_year y"
  using ceil_div_le [of y] unfolding days_before_year_def by linarith

lemma civil_year_bounds:
  "days_before_year (civil_year n) \<le> n" "n < days_before_year (Suc (civil_year n))"
proof -
  show "days_before_year (civil_year n) \<le> n"
    by (simp add: civil_year_def year_down_le)
  have "n < 365 * Suc (n div 365)"
    using dividend_less_times_div [of 365 n] by (simp only: mult_Suc_right)
  then have "n < days_before_year (Suc (n div 365))"
    using days_before_year_ge order_less_le_trans by blast
  then show "n < days_before_year (Suc (civil_year n))"
    unfolding civil_year_def by (rule year_down_max)
qed

lemma civil_year_mono: "a \<le> b \<Longrightarrow> civil_year a \<le> civil_year b"
proof (rule ccontr)
  assume "a \<le> b" "\<not> civil_year a \<le> civil_year b"
  then have "Suc (civil_year b) \<le> civil_year a" by simp
  then have "days_before_year (Suc (civil_year b)) \<le> days_before_year (civil_year a)"
    using days_before_year_mono [of "Suc (civil_year b)" "civil_year a"]
    by (cases "Suc (civil_year b) = civil_year a") auto
  with civil_year_bounds [of a] civil_year_bounds [of b] \<open>a \<le> b\<close> show False by simp
qed

lemma months: "[1..<13] = [1, 2, 3, 4, 5, 6, 7, 8, 9, 10, 11, 12]"
  by (simp add: upt_rec)

lemma days_before_month_Suc:
  "1 \<le> m \<Longrightarrow> m \<le> 12 \<Longrightarrow> days_before_month y m + 28 \<le> days_before_month y (Suc m)
     \<and> days_before_month y (Suc m) \<le> days_before_month y m + 31"
proof -
  assume "1 \<le> m" "m \<le> 12"
  then have "m \<in> set [1..<13]" by simp
  then have "m \<in> {1, 2, 3, 4, 5, 6, 7, 8, 9, 10, 11, 12}"
    unfolding months list.set .
  then show ?thesis
    by (elim insertE emptyE) (simp_all add: days_before_month_def month_lens_def numeral_eq_Suc)
qed

lemma month_down_spec:
  assumes "r < days_before_month y (Suc m)" "1 \<le> m"
  shows "1 \<le> month_down y m r \<and> month_down y m r \<le> m
     \<and> days_before_month y (month_down y m r) \<le> r
     \<and> r < days_before_month y (Suc (month_down y m r))"
  using assms
proof (induction y m r rule: month_down.induct)
  case (1 y m r)
  show ?case
  proof (cases "m \<le> 1 \<or> days_before_month y m \<le> r")
    case True
    with 1 show ?thesis
      by (auto simp: month_down.simps [of y m r] days_before_month_def le_Suc_eq)
  next
    case False
    with 1(3) have "1 \<le> m - 1" "r < days_before_month y (Suc (m - 1))" by auto
    with False 1(1) have "1 \<le> month_down y (m - 1) r \<and> month_down y (m - 1) r \<le> m - 1
       \<and> days_before_month y (month_down y (m - 1) r) \<le> r
       \<and> r < days_before_month y (Suc (month_down y (m - 1) r))"
      by blast
    with False show ?thesis by (simp add: month_down.simps [of y m r]) linarith
  qed
qed

lemma days_before_month_mono:
  assumes "1 \<le> a" "a < b" "b \<le> 13"
  shows "days_before_month y a < days_before_month y b"
  using assms
proof (induction b)
  case 0
  then show ?case by simp
next
  case (Suc b)
  then show ?case using days_before_month_Suc [of b y] by (cases "a = b") auto
qed

lemma days_before_month_13: "days_before_month y 13 = (if is_leap y then 366 else 365)"
  by (simp add: days_before_month_def month_lens_def numeral_eq_Suc)

lemma is_leap_iff: "is_leap y \<longleftrightarrow> 4 dvd y \<and> (\<not> 100 dvd y \<or> 400 dvd y)"
  by (auto simp: is_leap_def dvd_eq_mod_eq_0)

lemma days_before_year_leap:
  "days_before_year (Suc y) = days_before_year y + (if is_leap y then 366 else 365)"
proof -
  define q where "q = (y + 3) div 4"
  define c where "c = (y + 99) div 100"
  define l where "l = (y + 399) div 400"
  have "c \<le> q" unfolding c_def q_def by (rule ceil_div_le)
  then show ?thesis
    using dvd_100_4 [of y]
    unfolding days_before_year_def ceil_div_Suc is_leap_iff
      q_def [symmetric] c_def [symmetric] l_def [symmetric]
    by (cases "4 dvd y"; cases "100 dvd y"; cases "400 dvd y") simp_all
qed

definition year_day :: "nat \<Rightarrow> nat" where
  "year_day n = n - days_before_year (civil_year n)"

lemma civil_month_bounds:
  "1 \<le> civil_month n" "civil_month n \<le> 12"
  "days_before_month (civil_year n) (civil_month n) \<le> year_day n"
  "year_day n < days_before_month (civil_year n) (Suc (civil_month n))"
proof -
  have "year_day n < days_before_month (civil_year n) (Suc 12)"
    using civil_year_bounds [of n] days_before_year_leap [of "civil_year n"]
    by (simp add: year_day_def days_before_month_13)
  then show "1 \<le> civil_month n" "civil_month n \<le> 12"
    "days_before_month (civil_year n) (civil_month n) \<le> year_day n"
    "year_day n < days_before_month (civil_year n) (Suc (civil_month n))"
    using month_down_spec [of "year_day n" "civil_year n" 12]
    by (simp_all add: civil_month_def Let_def year_day_def)
qed

lemma civil_mday_bounds: "civil_mday n \<le> 31"
  using civil_month_bounds [of n] days_before_month_Suc [of "civil_month n" "civil_year n"]
  by (simp add: civil_mday_def Let_def year_day_def) linarith

lemma civil_month_mono:
  assumes "a \<le> b" "civil_year a = civil_year b"
  shows "civil_month a \<le> civil_month b"
proof (rule ccontr)
  assume "\<not> civil_month a \<le> civil_month b"
  then have less: "Suc (civil_month b) \<le> civil_month a" by simp
  have "days_before_month (civil_year b) (Suc (civil_month b))
      \<le> days_before_month (civil_year b) (civil_month a)"
    using less civil_month_bounds(2) [of a]
      days_before_month_mono [of "Suc (civil_month b)" "civil_month a" "civil_year b"]
    by (cases "Suc (civil_month b) = civil_month a") auto
  moreover have "year_day a \<le> year_day b" using assms by (simp add: year_day_def)
  ultimately show False
    using civil_month_bounds [of a] civil_month_bounds [of b] assms(2) by simp
qed

lemma civil_mday_less:
  assumes "a < b" "civil_year a = civil_year b" "civil_month a = civil_month b"
  shows "civil_mday a < civil_mday b"
proof -
  have "year_day a < year_day b"
    using assms civil_year_bounds(1) [of a] by (simp add: year_day_def)
  with assms civil_month_bounds(3) [of a] show ?thesis
    by (simp add: civil_mday_def Let_def year_day_def)
qed

text \<open>A day is before another exactly when its (year, month, day of month) is lexicographically less.\<close>

lemma civil_less:
  assumes "a < b"
  shows "civil_year a < civil_year b \<or> civil_year a = civil_year b \<and>
    (civil_month a < civil_month b \<or> civil_month a = civil_month b \<and> civil_mday a < civil_mday b)"
  using assms civil_year_mono [of a b] civil_month_mono [of a b] civil_mday_less [of a b]
  by (auto simp: le_less)

text \<open>31 December 9999, 23:59:59 UTC is the last instant with a year of four digits.\<close>

definition max_instant :: nat where
  "max_instant = 253402300799"

lemma civil_year_max:
  assumes "s \<le> max_instant"
  shows "civil_year (civil_day s) < 10000"
proof (rule ccontr)
  assume "\<not> civil_year (civil_day s) < 10000"
  then consider "civil_year (civil_day s) = 10000" | "10000 < civil_year (civil_day s)"
    by linarith
  then have "days_before_year 10000 \<le> days_before_year (civil_year (civil_day s))"
    by cases (auto dest: days_before_year_mono)
  then have "days_before_year 10000 \<le> civil_day s"
    using civil_year_bounds(1) [of "civil_day s"] by (rule order_trans)
  moreover have "days_before_year 10000 = 3652425"
    by (simp add: days_before_year_def)
  moreover have "civil_day s \<le> max_instant div 86400 + 719528"
    unfolding civil_day_def by (rule add_right_mono) (rule div_le_mono [OF assms])
  ultimately show False by (simp add: max_instant_def)
qed

lemma hms_less:
  assumes "s < (t :: nat)"
  shows "s div 3600 < t div 3600 \<or> s div 3600 = t div 3600 \<and>
    (s div 60 mod 60 < t div 60 mod 60 \<or> s div 60 mod 60 = t div 60 mod 60 \<and> s mod 60 < t mod 60)"
proof -
  have "s div 60 < t div 60 \<or> s div 60 = t div 60 \<and> s mod 60 < t mod 60"
    using assms div_mod_less [OF zero_less_numeral, of s t] by blast
  moreover have "s div 60 div 60 = s div 3600" "t div 60 div 60 = t div 3600"
    by (simp_all only: div_mult2_eq [symmetric]) simp_all
  moreover have "s div 60 < t div 60 \<longleftrightarrow> s div 60 div 60 < t div 60 div 60 \<or>
      s div 60 div 60 = t div 60 div 60 \<and> s div 60 mod 60 < t div 60 mod 60"
    by (rule div_mod_less) simp
  ultimately show ?thesis by metis
qed

lemma fmt_utc_less:
  assumes "s < t" "t \<le> max_instant"
  shows "fmt_utc s < fmt_utc t"
proof -
  let ?a = "civil_day s" and ?b = "civil_day t"
  have small: "civil_year ?a < 10000" "civil_year ?b < 10000"
      "civil_month ?a < 100" "civil_month ?b < 100" "civil_mday ?a < 100" "civil_mday ?b < 100"
    using assms civil_year_max [of s] civil_year_max [of t] civil_month_bounds(2) [of ?a]
      civil_month_bounds(2) [of ?b] civil_mday_bounds [of ?a] civil_mday_bounds [of ?b] by auto
  have hms: "s mod 86400 div 3600 < 100" "t mod 86400 div 3600 < 100"
      "s mod 86400 div 60 mod 60 < 100" "t mod 86400 div 60 mod 60 < 100"
      "s mod 86400 mod 60 < 100" "t mod 86400 mod 60 < 100"
    by (simp_all add: less_mult_imp_div_less order_less_trans [OF mod_less_divisor])
  note lex = less_append_eq_length pad2_less pad2_eq pad4_less pad4_eq
  have order: "?a < ?b \<or> ?a = ?b \<and> s mod 86400 < t mod 86400"
    using div_mod_less [of 86400 s t] assms by (auto simp: civil_day_def)
  show ?thesis
    using order civil_less [of ?a ?b] hms_less [of "s mod 86400" "t mod 86400"]
    unfolding fmt_utc_def Let_def by (simp only: lex small hms length_pad2 length_pad4 order.irrefl simp_thms) metis
qed

lemma fmt_utc_le_iff:
  "s \<le> max_instant \<Longrightarrow> t \<le> max_instant \<Longrightarrow> fmt_utc s \<le> fmt_utc t \<longleftrightarrow> s \<le> t"
  using fmt_utc_less [of s t] fmt_utc_less [of t s] by (cases s t rule: linorder_cases) auto

text \<open>Instants before 1970; the calendar starts at the year 0.\<close>

definition fmt_instant :: "int \<Rightarrow> string" where
  "fmt_instant s =
     (let n = nat (s div 86400 + 719528); t = nat (s mod 86400) in
      pad4 (civil_year n) @ ''-'' @ pad2 (civil_month n) @ ''-'' @ pad2 (civil_mday n) @ ''T'' @
      pad2 (t div 3600) @ '':'' @ pad2 (t div 60 mod 60) @ '':'' @ pad2 (t mod 60) @ ''Z'')"

lemma fmt_instant_nat: "fmt_instant (int s) = fmt_utc s"
proof -
  have "nat (int s div 86400 + 719528) = civil_day s"
    by (simp add: civil_day_def zdiv_int [of s 86400, simplified, symmetric] nat_add_distrib)
  moreover have "nat (int s mod 86400) = s mod 86400"
    by (simp add: zmod_int [of s 86400, simplified, symmetric])
  ultimately show ?thesis by (simp add: fmt_instant_def fmt_utc_def Let_def)
qed

section \<open>Parsing what was formatted\<close>

lemma pad2_digits: "list_all is_digit (pad2 n)"
  by (simp add: pad2_def)

lemma digits_val_pad2: "n < 100 \<Longrightarrow> digits_val (pad2 n) = n"
  by (simp add: pad2_def digits_val_def)

lemma digits_val_pad4: "n < 10000 \<Longrightarrow> digits_val (pad4 n) = n"
  by (simp add: pad4_def pad2_def digits_val_def)

lemma digits_n_pad2 [simp]: "n < 100 \<Longrightarrow> digits_n 2 (pad2 n @ r) = Some (n, r)"
  by (simp add: digits_n_def pad2_digits digits_val_pad2)

lemma digits_n_pad4 [simp]: "n < 10000 \<Longrightarrow> digits_n 4 (pad4 n @ r) = Some (n, r)"
  by (simp add: digits_n_def pad4_def pad2_digits digits_val_pad4 [unfolded pad4_def])

lemma month_len: "1 \<le> m \<Longrightarrow> m \<le> 12 \<Longrightarrow> days_before_month y (Suc m) = days_before_month y m + month_lens y ! (m - 1)"
proof -
  assume m: "1 \<le> m" "m \<le> 12"
  then have "m - 1 < length (month_lens y)" by (simp add: month_lens_def)
  then have "take (Suc (m - 1)) (month_lens y) = take (m - 1) (month_lens y) @ [month_lens y ! (m - 1)]"
    by (rule take_Suc_conv_app_nth)
  with m show ?thesis by (simp add: days_before_month_def)
qed

lemma civil_date:
  "unix_day (civil_year n) (civil_month n) (civil_mday n) = int n - 719528"
  "1 \<le> civil_mday n" "civil_mday n \<le> month_lens (civil_year n) ! (civil_month n - 1)"
proof -
  note b = civil_month_bounds [of n] and y = civil_year_bounds [of n]
  have d: "civil_mday n = year_day n - days_before_month (civil_year n) (civil_month n) + 1"
    by (simp add: civil_mday_def Let_def year_day_def)
  show "1 \<le> civil_mday n" by (simp add: d)
  show "civil_mday n \<le> month_lens (civil_year n) ! (civil_month n - 1)"
    using b month_len [of "civil_month n" "civil_year n"] by (simp add: d)
  have "days_before_year (civil_year n) + days_before_month (civil_year n) (civil_month n) + civil_mday n - 1 = n"
    using b(3) y(1) by (simp add: d year_day_def)
  then show "unix_day (civil_year n) (civil_month n) (civil_mday n) = int n - 719528"
    by (simp add: unix_day_def)
qed

lemma time_parse_fmt_utc:
  assumes "s \<le> max_instant"
  shows "time_parse (fmt_utc s) = Some (int s * 10 ^ 9)"
proof -
  define n t where "n = civil_day s" and "t = s mod 86400"
  have y: "civil_year n < 10000" unfolding n_def using assms by (rule civil_year_max)
  have m: "civil_month n < 100" "civil_mday n < 100"
    using civil_month_bounds [of n] civil_mday_bounds [of n] by simp_all
  have t: "t div 3600 < 24" "t div 60 mod 60 < 60" "t mod 60 < 60" by (simp_all add: t_def less_mult_imp_div_less)
  have hms: "t div 3600 * 3600 + t div 60 mod 60 * 60 + t mod 60 = t"
  proof -
    have "t div 3600 * 60 + t div 60 mod 60 = t div 60"
      using div_mult_mod_eq [of "t div 60" 60] by (simp add: div_mult2_eq [symmetric])
    then have "(t div 3600 * 60 + t div 60 mod 60) * 60 + t mod 60 = t" by simp
    then show ?thesis by (simp add: add_mult_distrib)
  qed
  have "int n - 719528 = int (s div 86400)" by (simp add: n_def civil_day_def)
  then have v: "(int n - 719528) * 86400 + int t = int s"
    using div_mult_mod_eq [of s 86400] unfolding t_def by (metis of_nat_add of_nat_mult of_nat_numeral)
  have f: "fmt_utc s = pad4 (civil_year n) @ ''-'' @ pad2 (civil_month n) @ ''-'' @ pad2 (civil_mday n) @ ''T'' @
      pad2 (t div 3600) @ '':'' @ pad2 (t div 60 mod 60) @ '':'' @ pad2 (t mod 60) @ ''Z''"
    by (simp add: fmt_utc_def n_def t_def Let_def)
  have "time_parse (fmt_utc s) = Some ((unix_day (civil_year n) (civil_month n) (civil_mday n) * 86400
      + int (t div 3600 * 3600 + t div 60 mod 60 * 60 + t mod 60) - 0) * 10 ^ 9 + int 0)"
    unfolding f time_parse_def
    using y m t civil_date(2,3) [of n] civil_month_bounds(1,2) [of n]
    by (simp add: expect_def one_or_two_def fraction_def zone_def)
  then show ?thesis unfolding civil_date hms using v by simp
qed

end
