(* ===== verification/Bolt_Jobs.thy ===== *)
theory Bolt_Jobs
  imports Bolt_Store Go_Time Jobs_Plugin
begin

text \<open>
  The boltdb jobs driver (\<open>boltdb/boltjobs\<close>): jobs are kept in three buckets of an embedded
  database, \<open>push\<close> (waiting), \<open>processing\<close> (handed to a worker) and \<open>delayed\<close> (keyed by the
  second they become due).  Two listener goroutines move them into the priority queue.

  The database is the parameter \<open>A\<close> (see \<open>Bolt_Store\<close>).  Values are gob-encoded items; gob
  encodes the exported fields of an \<open>Item\<close>, never fails on it and decodes what it encoded, so a
  stored value is \<open>GItem it\<close>, or \<open>GOther\<close> for any other bytes, which do not decode.  \<open>now\<close> is
  the clock in nanoseconds.  The counters are \<open>uint64\<close> and wrap.  \<open>bc_loops\<close> counts the pairs of
  listener goroutines and \<open>bc_pq\<close> lists the items inserted into the priority queue.
\<close>

section \<open>Items\<close>

record bitem =
  bi_job :: string
  bi_ident :: string
  bi_payload :: string
  bi_headers :: headers
  bi_priority :: int
  bi_pipeline :: string
  bi_delay :: int
  bi_attached :: bool  \<comment> \<open>the private pointers \<open>db\<close>, \<open>active\<close>, \<open>delayed\<close> are set\<close>

datatype bval = GItem bitem | GOther bytes

definition gob_encode :: "bitem \<Rightarrow> bval" where
  "gob_encode it = GItem (it\<lparr>bi_attached := False\<rparr>)"

primrec gob_decode :: "bval \<Rightarrow> bitem option" where
  "gob_decode (GItem it) = Some it"
| "gob_decode (GOther b) = None"

definition bolt_fromJob :: "job \<Rightarrow> bitem" where
  "bolt_fromJob j = \<lparr>bi_job = job_name j, bi_ident = job_ident j, bi_payload = job_payload j,
     bi_headers = job_headers j, bi_priority = op_priority (job_options j),
     bi_pipeline = op_pipeline (job_options j), bi_delay = op_delay (job_options j),
     bi_attached = False\<rparr>"

definition PushBucket :: string where "PushBucket = ''push''"
definition InQueueBucket :: string where "InQueueBucket = ''processing''"
definition DelayBucket :: string where "DelayBucket = ''delayed''"

lemma buckets_distinct [simp]:
  "PushBucket \<noteq> InQueueBucket" "InQueueBucket \<noteq> PushBucket" "PushBucket \<noteq> DelayBucket"
  "DelayBucket \<noteq> PushBucket" "InQueueBucket \<noteq> DelayBucket" "DelayBucket \<noteq> InQueueBucket"
  by (simp_all add: PushBucket_def InQueueBucket_def DelayBucket_def)

text \<open>\<open>time.Now().UTC().Add(time.Second * time.Duration(d)).Format(time.RFC3339)\<close>; the product is an \<open>int64\<close>.\<close>

definition delay_key :: "int \<Rightarrow> int \<Rightarrow> string" where
  "delay_key now d = fmt_instant ((now + wrap64 (d * 10 ^ 9)) div 10 ^ 9)"

section \<open>The consumer\<close>

record bolt_config =
  bcf_permissions :: int
  bcf_file :: string
  bcf_priority :: int
  bcf_prefetch :: int

definition bolt_InitDefaults :: "bolt_config \<Rightarrow> bolt_config" where
  "bolt_InitDefaults c =
     (let c1 = (if bcf_file c = [] then c\<lparr>bcf_file := ''rr.db''\<rparr> else c);
          c2 = (if bcf_priority c1 = 0 then c1\<lparr>bcf_priority := 10\<rparr> else c1);
          c3 = (if bcf_prefetch c2 = 0 then c2\<lparr>bcf_prefetch := 1000\<rparr> else c2)
      in if bcf_permissions c3 = 0 then c3\<lparr>bcf_permissions := 511\<rparr> else c3)"

record 'd bolt_consumer =
  bc_file :: string
  bc_permissions :: int
  bc_priority :: int
  bc_prefetch :: int
  bc_db :: 'd
  bc_pipeline :: "pipeline option"
  bc_listeners :: u32
  bc_active :: u64
  bc_delayed :: u64
  bc_loops :: nat
  bc_pq :: "bitem list"

text \<open>The transaction at start-up: jobs that were in processing go back to the push bucket.\<close>

fun bolt_restore :: "('d, bval) bolt_api \<Rightarrow> (string \<times> bval) list \<Rightarrow> 'd \<Rightarrow> 'd res" where
  "bolt_restore A [] tx = Ok tx"
| "bolt_restore A ((k, v) # es) tx =
     (case bk_put A PushBucket k v tx of
        Ok tx1 \<Rightarrow> bolt_restore A es tx1
      | Err e \<Rightarrow> Err (EOp ''init_boltdb_jobs'' e)
      | Panic \<Rightarrow> Panic
      | Block \<Rightarrow> Block)"

fun bolt_create_buckets :: "('d, bval) bolt_api \<Rightarrow> string list \<Rightarrow> 'd \<Rightarrow> 'd res" where
  "bolt_create_buckets A [] tx = Ok tx"
| "bolt_create_buckets A (b # bs) tx =
     (case bk_create A b tx of
        Ok tx1 \<Rightarrow> bolt_create_buckets A bs tx1
      | Err e \<Rightarrow> Err (EOp ''init_boltdb_jobs'' (Str ''boltdb_plugin_update''))
      | Panic \<Rightarrow> Panic
      | Block \<Rightarrow> Block)"

definition bolt_setup :: "('d, bval) bolt_api \<Rightarrow> 'd \<Rightarrow> 'd res" where
  "bolt_setup A d =
     (case db_begin A d of
        Some e \<Rightarrow> Err e
      | None \<Rightarrow>
          (case bolt_create_buckets A [DelayBucket, PushBucket, InQueueBucket] d of
             Ok tx \<Rightarrow>
               (case bolt_restore A (bk_entries A InQueueBucket tx) tx of
                  Ok tx1 \<Rightarrow> (case db_commit A tx1 of None \<Rightarrow> Ok tx1 | Some e \<Rightarrow> Err e)
                | r \<Rightarrow> r)
           | r \<Rightarrow> r))"

definition new_bolt_consumer :: "string \<Rightarrow> int \<Rightarrow> int \<Rightarrow> int \<Rightarrow> 'd \<Rightarrow> 'd bolt_consumer" where
  "new_bolt_consumer file perm prio pre d = \<lparr>bc_file = file, bc_permissions = perm, bc_priority = prio,
     bc_prefetch = pre, bc_db = d, bc_pipeline = None, bc_listeners = 0, bc_active = 0, bc_delayed = 0,
     bc_loops = 0, bc_pq = []\<rparr>"

text \<open>
  \<open>local\<close> and \<open>global\<close>: whether the two sections exist; \<open>cfg\<close>: the result of unmarshalling both
  into one value; \<open>opn\<close>: \<open>bolt.Open\<close>.
\<close>

definition NewBoltDBJobs ::
  "('d, bval) bolt_api \<Rightarrow> (string \<Rightarrow> int \<Rightarrow> 'd res) \<Rightarrow> string \<Rightarrow> bool \<Rightarrow> bool \<Rightarrow> bolt_config res \<Rightarrow> 'd bolt_consumer res"
where
  "NewBoltDBJobs A opn key local global cfg =
     (let op = ''init_boltdb_jobs'' in
      if \<not> local then Err (EOp op (Str (''no configuration by provided key: '' @ key)))
      else if \<not> global then Err (EOp op (Str ''no global boltdb configuration''))
      else case cfg of
        Err e \<Rightarrow> Err (EOp op e)
      | Panic \<Rightarrow> Panic
      | Block \<Rightarrow> Block
      | Ok c0 \<Rightarrow>
          (let c = bolt_InitDefaults c0 in
           case wrap op (opn (bcf_file c) (bcf_permissions c)) of
             Ok d \<Rightarrow>
               (case wrap op (bolt_setup A d) of
                  Ok d1 \<Rightarrow> Ok (new_bolt_consumer (bcf_file c) (bcf_permissions c) (bcf_priority c) (bcf_prefetch c) d1)
                | Err e \<Rightarrow> Err e | Panic \<Rightarrow> Panic | Block \<Rightarrow> Block)
           | Err e \<Rightarrow> Err e | Panic \<Rightarrow> Panic | Block \<Rightarrow> Block))"

text \<open>
  \<open>FromPipeline\<close> passes the configuration by value, so whatever \<open>UnmarshalKey\<close> does it stays zero.
  \<open>unm\<close> is the error that call returns.
\<close>

definition bolt_FromPipeline ::
  "('d, bval) bolt_api \<Rightarrow> (string \<Rightarrow> int \<Rightarrow> 'd res) \<Rightarrow> bool \<Rightarrow> error option \<Rightarrow> pipeline \<Rightarrow> 'd bolt_consumer res"
where
  "bolt_FromPipeline A opn global unm p =
     (let op = ''init_boltdb_jobs'' in
      if \<not> global then Err (EOp op (Str ''no global boltdb configuration''))
      else case unm of
        Some e \<Rightarrow> Err (EOp op e)
      | None \<Rightarrow>
          (let c = bolt_InitDefaults \<lparr>bcf_permissions = 0, bcf_file = [], bcf_priority = 0, bcf_prefetch = 0\<rparr>;
               file = pl_string p ''file'' ''rr.db''
           in case wrap op (opn file (bcf_permissions c)) of
                Ok d \<Rightarrow>
                  (case wrap op (bolt_setup A d) of
                     Ok d1 \<Rightarrow> Ok (new_bolt_consumer file (bcf_permissions c) (pl_priority p)
                                (pl_int p ''prefetch'' 1000) d1)
                   | Err e \<Rightarrow> Err e | Panic \<Rightarrow> Panic | Block \<Rightarrow> Block)
              | Err e \<Rightarrow> Err e | Panic \<Rightarrow> Panic | Block \<Rightarrow> Block))"

text \<open>
  The end of a transaction that worked on \<open>tx\<close>; \<open>c\<close> already has the new counters, which are not
  undone when the commit fails.
\<close>

definition bolt_commit :: "('d, bval) bolt_api \<Rightarrow> 'd \<Rightarrow> 'd bolt_consumer \<Rightarrow> 'd bolt_consumer \<times> unit res" where
  "bolt_commit A tx c =
     (case db_commit A tx of
        None \<Rightarrow> (c\<lparr>bc_db := tx\<rparr>, Ok ())
      | Some e \<Rightarrow> (c, Err e))"

definition bolt_Push ::
  "('d, bval) bolt_api \<Rightarrow> int \<Rightarrow> job \<Rightarrow> 'd bolt_consumer \<Rightarrow> 'd bolt_consumer \<times> unit res"
where
  "bolt_Push A now jb c =
     (let op = ''boltdb_jobs_push''; it = bolt_fromJob jb; v = gob_encode it in
      case db_begin A (bc_db c) of
        Some e \<Rightarrow> (c, Err (EOp op e))
      | None \<Rightarrow>
          if 0 < bi_delay it then
            (case bk_put A DelayBucket (delay_key now (bi_delay it)) v (bc_db c) of
               Ok tx \<Rightarrow> (let (c1, r) = bolt_commit A tx (c\<lparr>bc_delayed := bc_delayed c + 1\<rparr>) in (c1, wrap op r))
             | Err e \<Rightarrow> (c, Err (EOp op (EOp op e)))
             | Panic \<Rightarrow> (c, Panic)
             | Block \<Rightarrow> (c, Block))
          else
            (case bk_put A PushBucket (bi_ident it) v (bc_db c) of
               Ok tx \<Rightarrow> (let (c1, r) = bolt_commit A tx (c\<lparr>bc_active := bc_active c + 1\<rparr>) in (c1, wrap op r))
             | Err e \<Rightarrow> (c, Err (EOp op (EOp op e)))
             | Panic \<Rightarrow> (c, Panic)
             | Block \<Rightarrow> (c, Block)))"

definition bolt_Register :: "pipeline \<Rightarrow> 'd bolt_consumer \<Rightarrow> 'd bolt_consumer \<times> unit res" where
  "bolt_Register p c = (c\<lparr>bc_pipeline := Some p\<rparr>, Ok ())"

text \<open>\<open>go c.listener(); go c.delayedJobsListener()\<close>\<close>

definition bolt_start :: "'d bolt_consumer \<Rightarrow> 'd bolt_consumer" where
  "bolt_start c = c\<lparr>bc_loops := Suc (bc_loops c), bc_listeners := bc_listeners c + 1\<rparr>"

definition bolt_Run :: "pipeline \<Rightarrow> 'd bolt_consumer \<Rightarrow> 'd bolt_consumer \<times> unit res" where
  "bolt_Run p c =
     (case bc_pipeline c of
        None \<Rightarrow> (c, Panic)
      | Some pipe \<Rightarrow>
          if pl_name pipe \<noteq> pl_name p
          then (c, Err (EOp ''boltdb_run'' (Str (''no such pipeline registered: '' @ pl_name pipe))))
          else (bolt_start c, Ok ()))"

text \<open>The two sends on \<open>stopCh\<close> are received by two listener goroutines; with none they block.\<close>

definition bolt_stop_loops :: "'d bolt_consumer \<Rightarrow> 'd bolt_consumer \<times> unit res" where
  "bolt_stop_loops c =
     (if bc_loops c = 0 then (c, Block) else (c\<lparr>bc_loops := bc_loops c - 1\<rparr>, Ok ()))"

definition bolt_Stop :: "('d, bval) bolt_api \<Rightarrow> 'd bolt_consumer \<Rightarrow> 'd bolt_consumer \<times> unit res" where
  "bolt_Stop A c =
     (let (c1, r) = (if 0 < bc_listeners c then bolt_stop_loops c else (c, Ok ())) in
      if r \<noteq> Ok () then (c1, r)
      else case bc_pipeline c1 of
        None \<Rightarrow> (c1, Panic)
      | Some _ \<Rightarrow> (case db_close A (bc_db c1) of None \<Rightarrow> (c1, Ok ()) | Some e \<Rightarrow> (c1, Err e)))"

definition bolt_Pause :: "string \<Rightarrow> 'd bolt_consumer \<Rightarrow> 'd bolt_consumer \<times> unit res" where
  "bolt_Pause p c =
     (case bc_pipeline c of
        None \<Rightarrow> (c, Panic)
      | Some _ \<Rightarrow>
          if bc_listeners c = 0 then (c, Ok ())
          else (let (c1, r) = bolt_stop_loops c in
                if r = Ok () then (c1\<lparr>bc_listeners := bc_listeners c1 + (- 1)\<rparr>, Ok ()) else (c1, r)))"

definition bolt_Resume :: "string \<Rightarrow> 'd bolt_consumer \<Rightarrow> 'd bolt_consumer \<times> unit res" where
  "bolt_Resume p c =
     (case bc_pipeline c of
        None \<Rightarrow> (c, Panic)
      | Some _ \<Rightarrow> if bc_listeners c = 1 then (c, Ok ()) else (bolt_start c, Ok ()))"

definition bolt_State :: "'d bolt_consumer \<Rightarrow> jstate res" where
  "bolt_State c =
     (case bc_pipeline c of
        None \<Rightarrow> Panic
      | Some p \<Rightarrow> Ok \<lparr>st_pipeline = pl_name p, st_driver = pl_driver p, st_queue = PushBucket,
          st_active = sint (bc_active c), st_delayed = sint (bc_delayed c), st_reserved = 0, st_ready = (0 < bc_listeners c)\<rparr>)"

section \<open>The listeners\<close>

definition bolt_insert :: "bitem \<Rightarrow> 'd bolt_consumer \<Rightarrow> 'd bolt_consumer" where
  "bolt_insert it c =
     (let it1 = (if bi_priority it = 0 then it\<lparr>bi_priority := bc_priority c\<rparr> else it)
      in c\<lparr>bc_pq := bc_pq c @ [it1\<lparr>bi_attached := True\<rparr>]\<rparr>)"

text \<open>One tick of \<open>listener\<close>; every failure rolls the transaction back and waits for the next tick.\<close>

definition bolt_listen :: "('d, bval) bolt_api \<Rightarrow> 'd bolt_consumer \<Rightarrow> 'd bolt_consumer" where
  "bolt_listen A c =
     (if (word_of_int (bc_prefetch c) :: u64) < bc_active c then c
      else if db_begin A (bc_db c) \<noteq> None then c
      else case bk_entries A PushBucket (bc_db c) of
        [] \<Rightarrow> c
      | (k, v) # _ \<Rightarrow>
          (case gob_decode v of
             None \<Rightarrow> c
           | Some it \<Rightarrow>
               (case bk_put A InQueueBucket (bi_ident it) v (bc_db c) of
                  Ok tx \<Rightarrow>
                    (case bk_delete A PushBucket k tx of
                       Ok tx1 \<Rightarrow>
                         if db_commit A tx1 \<noteq> None then c
                         else bolt_insert it (c\<lparr>bc_db := tx1\<rparr>)
                     | _ \<Rightarrow> c)
                | _ \<Rightarrow> c)))"

text \<open>
  One tick of \<open>delayedJobsListener\<close>.  \<open>visits\<close> is what the cursor yields from the start date on
  (the loop deletes from the bucket it traverses, and the documentation does not say what a cursor
  yields then).  \<open>tx = None\<close> is a transaction that was rolled back: every later operation on it
  fails.  An item is inserted into the queue before the commit.
\<close>

fun bolt_due ::
  "('d, bval) bolt_api \<Rightarrow> string \<Rightarrow> (string \<times> bval) list \<Rightarrow> 'd option \<Rightarrow> 'd bolt_consumer \<Rightarrow> 'd option \<times> 'd bolt_consumer"
where
  "bolt_due A endDate [] tx c = (tx, c)"
| "bolt_due A endDate ((k, v) # es) tx c =
     (if \<not> k \<le> endDate then (tx, c)
      else case gob_decode v of
        None \<Rightarrow> bolt_due A endDate es None c
      | Some it \<Rightarrow>
          (case tx of
             None \<Rightarrow> bolt_due A endDate es None c
           | Some d \<Rightarrow>
               (case bk_put A InQueueBucket (bi_ident it) v d of
                  Ok d1 \<Rightarrow>
                    (case bk_delete A DelayBucket k d1 of
                       Ok d2 \<Rightarrow> bolt_due A endDate es (Some d2) (bolt_insert it c)
                     | _ \<Rightarrow> bolt_due A endDate es None c)
                | _ \<Rightarrow> bolt_due A endDate es None c)))"

definition bolt_delayed_tick ::
  "('d, bval) bolt_api \<Rightarrow> int \<Rightarrow> (string \<times> bval) list \<Rightarrow> 'd bolt_consumer \<Rightarrow> 'd bolt_consumer"
where
  "bolt_delayed_tick A now visits c =
     (if db_begin A (bc_db c) \<noteq> None then c
      else case bolt_due A (fmt_instant (now div 10 ^ 9)) visits (Some (bc_db c)) c of
        (Some tx, c1) \<Rightarrow> (if db_commit A tx = None then c1\<lparr>bc_db := tx\<rparr> else c1)
      | (None, c1) \<Rightarrow> c1)"

section \<open>Settling an item\<close>

text \<open>\<open>show_err\<close> renders an error.\<close>

definition bolt_Ack :: "('d, bval) bolt_api \<Rightarrow> (error \<Rightarrow> string) \<Rightarrow> bitem \<Rightarrow> 'd bolt_consumer \<Rightarrow> 'd bolt_consumer \<times> unit res" where
  "bolt_Ack A show_err it c =
     (let op = ''boltdb_item_ack'' in
      if \<not> bi_attached it then (c, Panic)
      else case db_begin A (bc_db c) of
        Some e \<Rightarrow> (c, Err (EOp op (Str (''can't open transaction, error: '' @ show_err e))))
      | None \<Rightarrow>
          (case bk_delete A InQueueBucket (bi_ident it) (bc_db c) of
             Ok tx \<Rightarrow>
               bolt_commit A tx
                 (if 0 < bi_delay it then c\<lparr>bc_delayed := bc_delayed c + (- 1)\<rparr>
                  else c\<lparr>bc_active := bc_active c + (- 1)\<rparr>)
           | Err e \<Rightarrow> (c, Err (EOp op e))
           | Panic \<Rightarrow> (c, Panic)
           | Block \<Rightarrow> (c, Block)))"

text \<open>A missing value is nil, which \<open>Put\<close> stores as an empty one.\<close>

definition bolt_Nack :: "('d, bval) bolt_api \<Rightarrow> (error \<Rightarrow> string) \<Rightarrow> bitem \<Rightarrow> 'd bolt_consumer \<Rightarrow> 'd bolt_consumer \<times> unit res" where
  "bolt_Nack A show_err it c =
     (let op = ''boltdb_item_ack'' in
      if \<not> bi_attached it then (c, Panic)
      else case db_begin A (bc_db c) of
        Some e \<Rightarrow> (c, Err (EOp op (Str (''can't open transaction, error: '' @ show_err e))))
      | None \<Rightarrow>
          (let v = (case bk_get A InQueueBucket (bi_ident it) (bc_db c) of None \<Rightarrow> GOther [] | Some v \<Rightarrow> v) in
           case bk_put A PushBucket (bi_ident it) v (bc_db c) of
             Ok tx \<Rightarrow>
               (case bk_delete A InQueueBucket (bi_ident it) tx of
                  Ok tx1 \<Rightarrow> bolt_commit A tx1 c
                | Err e \<Rightarrow> (c, Err (EOp op e))
                | Panic \<Rightarrow> (c, Panic)
                | Block \<Rightarrow> (c, Block))
           | Err e \<Rightarrow> (c, Err (EOp op e))
           | Panic \<Rightarrow> (c, Panic)
           | Block \<Rightarrow> (c, Block)))"

text \<open>The error of \<open>rollback\<close>.\<close>

definition bolt_rollback :: "('d, bval) bolt_api \<Rightarrow> (error \<Rightarrow> string) \<Rightarrow> error \<Rightarrow> 'd \<Rightarrow> error" where
  "bolt_rollback A show_err e tx =
     (case db_rollback A tx of
        Some eR \<Rightarrow> Str (''transaction commit error: '' @ show_err e @ '', rollback failed: '' @ show_err eR)
      | None \<Rightarrow> Str (''transaction commit error: '' @ show_err e))"

definition bolt_Requeue ::
  "('d, bval) bolt_api \<Rightarrow> (error \<Rightarrow> string) \<Rightarrow> int \<Rightarrow> headers \<Rightarrow> int \<Rightarrow> bitem \<Rightarrow> 'd bolt_consumer \<Rightarrow> 'd bolt_consumer \<times> unit res"
where
  "bolt_Requeue A show_err now h delay it c =
     (let op = ''boltdb_item_requeue''; it1 = it\<lparr>bi_headers := h, bi_delay := delay\<rparr>; val = gob_encode it1 in
      if \<not> bi_attached it then (c, Panic)
      else case db_begin A (bc_db c) of
        Some e \<Rightarrow> (c, Err (EOp op e))
      | None \<Rightarrow>
          (case bk_delete A InQueueBucket (bi_ident it1) (bc_db c) of
             Err e \<Rightarrow> (c, Err (EOp op (bolt_rollback A show_err e (bc_db c))))
           | Panic \<Rightarrow> (c, Panic)
           | Block \<Rightarrow> (c, Block)
           | Ok tx \<Rightarrow>
               (case (if 0 < delay then bk_put A DelayBucket (delay_key now delay) val tx
                      else bk_put A PushBucket (bi_ident it1) val tx) of
                  Ok tx1 \<Rightarrow> bolt_commit A tx1 c
                | Err e \<Rightarrow> (c, Err (EOp op (bolt_rollback A show_err e tx)))
                | Panic \<Rightarrow> (c, Panic)
                | Block \<Rightarrow> (c, Block))))"

definition bolt_Respond :: "bytes \<Rightarrow> string \<Rightarrow> bitem \<Rightarrow> 'd bolt_consumer \<Rightarrow> 'd bolt_consumer \<times> unit res" where
  "bolt_Respond data queue it c = (c, Ok ())"

definition bolt_acknowledger ::
  "('d, bval) bolt_api \<Rightarrow> (error \<Rightarrow> string) \<Rightarrow> int \<Rightarrow> bitem \<Rightarrow> 'd bolt_consumer acknowledger"
where
  "bolt_acknowledger A show_err now it = \<lparr>ack = bolt_Ack A show_err it, nack = bolt_Nack A show_err it,
     requeue = (\<lambda>h d. bolt_Requeue A show_err now h d it), respond = (\<lambda>b q. bolt_Respond b q it)\<rparr>"

section \<open>The driver as a consumer of the jobs plugin\<close>

definition bolt_ops :: "('d, bval) bolt_api \<Rightarrow> int \<Rightarrow> 'd bolt_consumer consumer_ops" where
  "bolt_ops A now = \<lparr>c_push = (\<lambda>c j. bolt_Push A now j c), c_register = (\<lambda>c p. bolt_Register p c),
     c_run = (\<lambda>c p. bolt_Run p c), c_pause = (\<lambda>c n. bolt_Pause n c),
     c_resume = (\<lambda>c n. bolt_Resume n c), c_stop = bolt_Stop A, c_state = bolt_State\<rparr>"

text \<open>There is a pair of listener goroutines exactly when the listener counter is one.\<close>

definition bolt_ok :: "'d bolt_consumer \<Rightarrow> bool" where
  "bolt_ok c \<longleftrightarrow> (bc_listeners c = 0 \<and> bc_loops c = 0 \<or> bc_listeners c = 1 \<and> bc_loops c = 1)
     \<and> (bc_pipeline c = None \<longrightarrow> bc_listeners c = 0)"

lemma bolt_commit_frame:
  "bolt_commit A tx c = (c', r) \<Longrightarrow> bc_listeners c' = bc_listeners c \<and> bc_loops c' = bc_loops c
     \<and> bc_pipeline c' = bc_pipeline c \<and> bc_active c' = bc_active c \<and> bc_delayed c' = bc_delayed c
     \<and> (r = Ok () \<and> bc_db c' = tx \<or> is_err r \<and> c' = c)"
  by (auto simp: bolt_commit_def split: option.splits)

lemma bolt_Push_frame:
  "bolt_Push A now j c = (c', r) \<Longrightarrow> bc_listeners c' = bc_listeners c \<and> bc_loops c' = bc_loops c
     \<and> bc_pipeline c' = bc_pipeline c"
  by (auto simp: bolt_Push_def Let_def split: option.splits res.splits if_splits prod.splits
      dest!: bolt_commit_frame)

lemma bolt_ops_simps [simp]:
  "c_push (bolt_ops A now) c j = bolt_Push A now j c"
  "c_register (bolt_ops A now) c p = bolt_Register p c"
  "c_run (bolt_ops A now) c p = bolt_Run p c"
  "c_pause (bolt_ops A now) c n = bolt_Pause n c"
  "c_resume (bolt_ops A now) c n = bolt_Resume n c"
  "c_state (bolt_ops A now) = bolt_State"
  by (simp_all add: bolt_ops_def)

lemma bolt_ready_iff: "ready (bolt_ops A now) c \<longleftrightarrow> bc_pipeline c \<noteq> None \<and> 0 < bc_listeners c"
  by (auto simp: ready_def bolt_State_def split: option.splits)

lemma bolt_counts:
  "counts (bolt_ops A now) c
     = (if bc_pipeline c = None then None else Some (sint (bc_active c), sint (bc_delayed c)))"
  by (auto simp: counts_def bolt_State_def split: option.splits)

interpretation bolt_driver: job_consumer "bolt_ops A now" bolt_ok bc_pipeline
  for A :: "('d, bval) bolt_api" and now
proof unfold_locales
  fix c c' p r
  assume "bolt_ok c" "c_register (bolt_ops A now) c p = (c', r)"
  then show "r = Ok () \<and> bolt_ok c' \<and> bc_pipeline c' = Some p
      \<and> (\<not> ready (bolt_ops A now) c \<longrightarrow> \<not> ready (bolt_ops A now) c')"
    by (auto simp: bolt_ready_iff bolt_Register_def bolt_ok_def)
next
  fix c c' j r
  assume "bolt_ok c" "c_push (bolt_ops A now) c j = (c', r)"
  then show "bolt_ok c' \<and> bc_pipeline c' = bc_pipeline c
      \<and> ready (bolt_ops A now) c' = ready (bolt_ops A now) c"
    using bolt_Push_frame [of A now j c c' r] by (simp add: bolt_ready_iff bolt_ok_def)
next
  fix c c' p r
  assume "bolt_ok c" "bc_pipeline c = Some p" "\<not> ready (bolt_ops A now) c"
    "c_run (bolt_ops A now) c p = (c', r)"
  then show "r = Ok () \<and> bolt_ok c' \<and> bc_pipeline c' = Some p \<and> ready (bolt_ops A now) c'"
    by (auto simp: bolt_ready_iff bolt_Run_def bolt_ok_def bolt_start_def)
next
  fix c c' p n r
  assume "bolt_ok c" "bc_pipeline c = Some p" "c_pause (bolt_ops A now) c n = (c', r)"
  then show "r = Ok () \<and> bolt_ok c' \<and> bc_pipeline c' = Some p \<and> \<not> ready (bolt_ops A now) c'
      \<and> counts (bolt_ops A now) c' = counts (bolt_ops A now) c"
    by (auto simp: bolt_ready_iff bolt_counts bolt_Pause_def bolt_ok_def bolt_stop_loops_def)
next
  fix c c' p n r
  assume "bolt_ok c" "bc_pipeline c = Some p" "c_resume (bolt_ops A now) c n = (c', r)"
  then show "r = Ok () \<and> bolt_ok c' \<and> bc_pipeline c' = Some p \<and> ready (bolt_ops A now) c'
      \<and> counts (bolt_ops A now) c' = counts (bolt_ops A now) c"
    by (auto simp: bolt_ready_iff bolt_counts bolt_Resume_def bolt_ok_def bolt_start_def)
next
  fix c :: "'d bolt_consumer" and p
  assume "bolt_ok c" "bc_pipeline c = Some p"
  then show "\<exists>st. c_state (bolt_ops A now) c = Ok st \<and> st_pipeline st = pl_name p
      \<and> st_driver st = pl_driver p"
    by (simp add: bolt_State_def)
qed

section \<open>Durability\<close>

text \<open>
  What can happen to a consumer and its database: the calls of the plugin and of the workers, the
  ticks of the listeners, and a restart of the process on the same file.
\<close>

datatype bolt_event =
    BPush int job | BListen | BTick int "(string \<times> bval) list" | BAck bitem | BNack bitem
  | BRequeue int headers int bitem | BRestart

definition bolt_restart :: "('d, bval) bolt_api \<Rightarrow> 'd bolt_consumer \<Rightarrow> 'd bolt_consumer" where
  "bolt_restart A c =
     (case bolt_setup A (bc_db c) of
        Ok d \<Rightarrow> new_bolt_consumer (bc_file c) (bc_permissions c) (bc_priority c) (bc_prefetch c) d
      | _ \<Rightarrow> c)"

primrec bolt_react :: "('d, bval) bolt_api \<Rightarrow> (error \<Rightarrow> string) \<Rightarrow> bolt_event \<Rightarrow> 'd bolt_consumer \<Rightarrow> 'd bolt_consumer" where
  "bolt_react A sh (BPush now j) c = fst (bolt_Push A now j c)"
| "bolt_react A sh BListen c = bolt_listen A c"
| "bolt_react A sh (BTick now visits) c = bolt_delayed_tick A now visits c"
| "bolt_react A sh (BAck it) c = fst (bolt_Ack A sh it c)"
| "bolt_react A sh (BNack it) c = fst (bolt_Nack A sh it c)"
| "bolt_react A sh (BRequeue now h d it) c = fst (bolt_Requeue A sh now h d it c)"
| "bolt_react A sh BRestart c = bolt_restart A c"

text \<open>The job \<open>i\<close> is in the push or the processing bucket.\<close>

definition has_job :: "('d, bval) bolt_api \<Rightarrow> string \<Rightarrow> 'd \<Rightarrow> bool" where
  "has_job A i d \<longleftrightarrow> (\<exists>it. bk_get A PushBucket i d = Some (GItem it) \<and> bi_ident it = i)
     \<or> (\<exists>it. bk_get A InQueueBucket i d = Some (GItem it) \<and> bi_ident it = i)"

text \<open>The processing bucket holds items under their own identifier.\<close>

definition inq_ok :: "('d, bval) bolt_api \<Rightarrow> 'd \<Rightarrow> bool" where
  "inq_ok A d \<longleftrightarrow> (\<forall>k v. bk_get A InQueueBucket k d = Some v \<longrightarrow> (\<exists>it. v = GItem it \<and> bi_ident it = k))"

text \<open>
  The events that do not ask to remove the job \<open>i\<close>: no \<open>Ack\<close> of it, no requeue with a delay, and
  \<open>Nack\<close> only while it is in processing.
\<close>

fun keeps :: "('d, bval) bolt_api \<Rightarrow> string \<Rightarrow> bolt_event \<Rightarrow> 'd bolt_consumer \<Rightarrow> bool" where
  "keeps A i (BAck it) c = (bi_ident it \<noteq> i)"
| "keeps A i (BNack it) c = (bi_ident it = i \<longrightarrow> bk_get A InQueueBucket i (bc_db c) \<noteq> None)"
| "keeps A i (BRequeue now h d it) c = (bi_ident it = i \<longrightarrow> d \<le> 0)"
| "keeps A i ev c = True"

fun keeps_all :: "('d, bval) bolt_api \<Rightarrow> (error \<Rightarrow> string) \<Rightarrow> string \<Rightarrow> bolt_event list \<Rightarrow> 'd bolt_consumer \<Rightarrow> bool" where
  "keeps_all A sh i [] c = True"
| "keeps_all A sh i (ev # evs) c = (keeps A i ev c \<and> keeps_all A sh i evs (bolt_react A sh ev c))"

definition bolt_events ::
  "('d, bval) bolt_api \<Rightarrow> (error \<Rightarrow> string) \<Rightarrow> bolt_event list \<Rightarrow> 'd bolt_consumer \<Rightarrow> 'd bolt_consumer"
where
  "bolt_events A sh evs c = fold (bolt_react A sh) evs c"

definition kept :: "('d, bval) bolt_api \<Rightarrow> string \<Rightarrow> 'd \<Rightarrow> bool" where
  "kept A i d \<longleftrightarrow> has_job A i d \<and> inq_ok A d"

lemma kept_put_push:
  assumes "bolt_laws A" "bk_put A PushBucket k (GItem it) d = Ok d'" "k = i \<longrightarrow> bi_ident it = i" "kept A i d"
  shows "kept A i d'"
  using assms by (auto simp: kept_def has_job_def inq_ok_def bk_put_get [OF assms(1,2)])

lemma kept_put_inq:
  assumes "bolt_laws A" "bk_put A InQueueBucket (bi_ident it) (GItem it) d = Ok d'" "kept A i d"
  shows "kept A i d'"
  using assms by (auto simp: kept_def has_job_def inq_ok_def bk_put_get [OF assms(1,2)])

lemma kept_put_delay:
  assumes "bolt_laws A" "bk_put A DelayBucket k v d = Ok d'" "kept A i d"
  shows "kept A i d'"
  using assms by (auto simp: kept_def has_job_def inq_ok_def bk_put_get [OF assms(1,2)])

lemma kept_del_delay:
  assumes "bolt_laws A" "bk_delete A DelayBucket k d = Ok d'" "kept A i d"
  shows "kept A i d'"
  using assms by (auto simp: kept_def has_job_def inq_ok_def bk_delete_get [OF assms(1,2)])

lemma kept_del_inq:
  assumes "bolt_laws A" "bk_delete A InQueueBucket k d = Ok d'" "kept A i d" "k \<noteq> i"
  shows "kept A i d'"
  using assms by (auto simp: kept_def has_job_def inq_ok_def bk_delete_get [OF assms(1,2)])

text \<open>Moving an item between the two buckets.\<close>

lemma kept_to_inq:
  assumes "bolt_laws A" "bk_get A PushBucket k d = Some (GItem it)" "kept A i d"
    and "bk_put A InQueueBucket (bi_ident it) (GItem it) d = Ok d1" "bk_delete A PushBucket k d1 = Ok d2"
  shows "kept A i d2"
  using assms(2,3)
  by (auto simp: kept_def has_job_def inq_ok_def bk_put_get [OF assms(1,4)] bk_delete_get [OF assms(1,5)])

lemma kept_to_push:
  assumes "bolt_laws A" "bk_put A PushBucket (bi_ident it) v d = Ok d1"
    and "bk_delete A InQueueBucket (bi_ident it) d1 = Ok d2" "kept A i d"
    and "bi_ident it = i \<longrightarrow> bk_get A InQueueBucket i d = Some v"
  shows "kept A i d2"
  using assms(4,5)
  by (fastforce simp: kept_def has_job_def inq_ok_def bk_put_get [OF assms(1,2)] bk_delete_get [OF assms(1,3)])

lemma bolt_Push_kept:
  assumes "bolt_laws A" "kept A i (bc_db c)"
  shows "kept A i (bc_db (fst (bolt_Push A now j c)))"
  using assms
  by (auto simp: bolt_Push_def Let_def bolt_commit_def gob_encode_def split: option.splits res.splits
      intro: kept_put_push kept_put_delay)

lemma bolt_listen_kept:
  assumes "bolt_laws A" "kept A i (bc_db c)"
  shows "kept A i (bc_db (bolt_listen A c))"
proof -
  have *: "kept A i tx1" if "bk_entries A PushBucket (bc_db c) = (k, v) # es" "gob_decode v = Some it"
      "bk_put A InQueueBucket (bi_ident it) v (bc_db c) = Ok tx" "bk_delete A PushBucket k tx = Ok tx1"
    for k v es it tx tx1
    using kept_to_inq [OF assms(1) _ assms(2)] bk_first_get [OF assms(1) that(1)] that(2-4)
    by (cases v) auto
  then show ?thesis
    using assms(2) by (auto simp: bolt_listen_def bolt_insert_def Let_def split: list.splits option.splits res.splits)
qed

lemma bolt_due_kept:
  assumes "bolt_laws A"
  shows "(\<forall>d. tx = Some d \<longrightarrow> kept A i d) \<Longrightarrow> bolt_due A e visits tx c = (tx', c') \<Longrightarrow>
    (\<forall>d. tx' = Some d \<longrightarrow> kept A i d) \<and> bc_db c' = bc_db c"
proof (induction visits arbitrary: tx c)
  case (Cons kv es)
  obtain k v where kv: "kv = (k, v)" by fastforce
  have moved: "kept A i d2" if "gob_decode v = Some it" "tx = Some d"
      "bk_put A InQueueBucket (bi_ident it) v d = Ok d1" "bk_delete A DelayBucket k d1 = Ok d2"
    for it d d1 d2
  proof -
    have v: "v = GItem it" using that(1) by (cases v) auto
    show ?thesis
      using kept_put_inq [OF assms that(3) [unfolded v]] kept_del_delay [OF assms that(4)] Cons.prems(1) that(2)
      by blast
  qed
  have "bc_db (bolt_insert it c) = bc_db c" for it by (simp add: bolt_insert_def Let_def)
  with Cons moved show ?case
    by (auto simp: kv split: if_splits option.splits res.splits) (metis option.inject option.distinct(1))+
qed simp

lemma bolt_tick_kept:
  assumes "bolt_laws A" "kept A i (bc_db c)"
  shows "kept A i (bc_db (bolt_delayed_tick A now visits c))"
proof -
  obtain tx' c' where h: "bolt_due A (fmt_instant (now div 10 ^ 9)) visits (Some (bc_db c)) c = (tx', c')"
    by fastforce
  from bolt_due_kept [OF assms(1) _ h] assms(2) h show ?thesis
    by (auto simp: bolt_delayed_tick_def split: option.splits)
qed

lemma bolt_Ack_kept:
  assumes "bolt_laws A" "kept A i (bc_db c)" "bi_ident it \<noteq> i"
  shows "kept A i (bc_db (fst (bolt_Ack A sh it c)))"
  using assms
  by (auto simp: bolt_Ack_def Let_def bolt_commit_def split: option.splits res.splits intro: kept_del_inq)

lemma bolt_Nack_kept:
  assumes "bolt_laws A" "kept A i (bc_db c)" "bi_ident it = i \<longrightarrow> bk_get A InQueueBucket i (bc_db c) \<noteq> None"
  shows "kept A i (bc_db (fst (bolt_Nack A sh it c)))"
  using assms
  by (auto simp: bolt_Nack_def Let_def bolt_commit_def split: option.splits res.splits
      intro: kept_to_push [OF assms(1)])

lemma kept_requeue:
  assumes "bolt_laws A" "bk_delete A InQueueBucket k d = Ok d1" "kept A i d"
    and "bk_put A PushBucket k (GItem it) d1 = Ok d2" "bi_ident it = k"
  shows "kept A i d2"
  using assms(3,5)
  by (auto simp: kept_def has_job_def inq_ok_def bk_delete_get [OF assms(1,2)] bk_put_get [OF assms(1,4)])

lemma bolt_Requeue_kept:
  assumes "bolt_laws A" "kept A i (bc_db c)" "bi_ident it = i \<longrightarrow> d \<le> 0"
  shows "kept A i (bc_db (fst (bolt_Requeue A sh now h d it c)))"
proof (cases "0 < d")
  case True
  with assms show ?thesis
    by (auto simp: bolt_Requeue_def Let_def bolt_commit_def split: option.splits res.splits
        intro: kept_put_delay kept_del_inq)
next
  case False
  have "kept A i d2" if "bk_delete A InQueueBucket (bi_ident it) (bc_db c) = Ok d1"
      "bk_put A PushBucket (bi_ident it) (gob_encode (it\<lparr>bi_headers := h, bi_delay := d\<rparr>)) d1 = Ok d2" for d1 d2
    using kept_requeue [OF assms(1) that(1) assms(2)] that(2) by (simp add: gob_encode_def)
  with False assms(2) show ?thesis
    by (auto simp: bolt_Requeue_def Let_def bolt_commit_def split: option.splits res.splits)
qed

lemma bolt_restore_get:
  assumes "bolt_laws A"
  shows "bolt_restore A es tx = Ok tx' \<Longrightarrow> distinct (map fst es) \<Longrightarrow>
    bk_get A b k tx' = (if b = PushBucket \<and> map_of es k \<noteq> None then map_of es k else bk_get A b k tx)"
proof (induction es arbitrary: tx)
  case (Cons kv es)
  obtain k0 v0 where kv: "kv = (k0, v0)" by fastforce
  with Cons.prems obtain tx1 where 1: "bk_put A PushBucket k0 v0 tx = Ok tx1" "bolt_restore A es tx1 = Ok tx'"
    by (auto split: res.splits)
  have "map_of es k0 = None" using Cons.prems(2) kv by (simp add: map_of_eq_None_iff)
  with Cons.IH [OF 1(2)] Cons.prems(2) show ?case by (auto simp: kv bk_put_get [OF assms 1(1)])
qed simp

lemma bolt_create_buckets_get:
  assumes "bolt_laws A"
  shows "bolt_create_buckets A bs tx = Ok tx' \<Longrightarrow> bk_get A b k tx' = bk_get A b k tx"
  by (induction bs arbitrary: tx) (auto split: res.splits simp: bk_create_get [OF assms])

lemma bolt_setup_get:
  assumes "bolt_laws A" "bolt_setup A d = Ok d'"
  shows "bk_get A b k d' = (if b = PushBucket \<and> bk_get A InQueueBucket k d \<noteq> None
    then bk_get A InQueueBucket k d else bk_get A b k d)"
proof -
  obtain tx where 1: "bolt_create_buckets A [DelayBucket, PushBucket, InQueueBucket] d = Ok tx"
    and 2: "bolt_restore A (bk_entries A InQueueBucket tx) tx = Ok d'"
    using assms(2)
    by (auto simp: bolt_setup_def split: option.splits res.splits simp del: bolt_create_buckets.simps)
  show ?thesis
    using bolt_restore_get [OF assms(1) 2 bk_entries_distinct [OF assms(1)]]
      bolt_create_buckets_get [OF assms(1) 1] bk_entries_get [OF assms(1)] by auto
qed

lemma bolt_restart_kept:
  assumes "bolt_laws A" "kept A i (bc_db c)"
  shows "kept A i (bc_db (bolt_restart A c))"
proof (cases "bolt_setup A (bc_db c)")
  case (Ok d)
  have "kept A i d"
    using assms(2) unfolding kept_def has_job_def inq_ok_def
    by (auto simp: bolt_setup_get [OF assms(1) Ok])
  with Ok show ?thesis by (simp add: bolt_restart_def new_bolt_consumer_def)
qed (use assms(2) in \<open>simp_all add: bolt_restart_def\<close>)

lemma bolt_react_kept:
  assumes "bolt_laws A" "kept A i (bc_db c)" "keeps A i ev c"
  shows "kept A i (bc_db (bolt_react A sh ev c))"
  using assms
  by (cases ev) (simp_all add: bolt_Push_kept bolt_listen_kept bolt_tick_kept bolt_Ack_kept bolt_Nack_kept
      bolt_Requeue_kept bolt_restart_kept)

section \<open>Properties\<close>


text \<open>A pushed job on association lists, without failures.\<close>

definition sample_bolt :: "(string \<Rightarrow> (string \<times> bval) list) bolt_consumer" where
  "sample_bolt = new_bolt_consumer ''rr.db'' 511 10 1000 (\<lambda>_. [])"

definition sample_bjob :: "string \<Rightarrow> int \<Rightarrow> job" where
  "sample_bjob i d = \<lparr>job_name = ''app'', job_ident = i, job_payload = ''x'', job_headers = Map.empty,
     job_options = \<lparr>op_priority = 0, op_pipeline = ''p'', op_delay = d\<rparr>\<rparr>"

definition sample_stored :: "(string \<Rightarrow> (string \<times> bval) list) bolt_consumer" where
  "sample_stored = sample_bolt\<lparr>bc_active := 1,
     bc_db := (\<lambda>_. [])(PushBucket := [(''1'', GItem (bolt_fromJob (sample_bjob ''1'' 0)))])\<rparr>"

lemma sample_push: "bolt_Push list_bolt now (sample_bjob ''1'' 0) sample_bolt = (sample_stored, Ok ())"
  by (simp add: bolt_Push_def bolt_commit_def sample_stored_def sample_bolt_def new_bolt_consumer_def
      sample_bjob_def bolt_fromJob_def gob_encode_def)


text \<open>
  C28: Crash recovery.  A consumer created on an existing file finds every job that was in processing
  back in the push bucket, next to the ones that were waiting there; the other two buckets keep
  their content, and the counters start at zero whatever the buckets hold.
\<close>
theorem bolt_recovery:
  assumes "bolt_laws A" "NewBoltDBJobs A opn key local global (Ok cfg) = Ok c"
    and "opn (bcf_file (bolt_InitDefaults cfg)) (bcf_permissions (bolt_InitDefaults cfg)) = Ok d"
  shows "bk_get A PushBucket k (bc_db c) = (case bk_get A InQueueBucket k d of
        Some v \<Rightarrow> Some v | None \<Rightarrow> bk_get A PushBucket k d)
    \<and> bk_get A InQueueBucket k (bc_db c) = bk_get A InQueueBucket k d
    \<and> bk_get A DelayBucket k (bc_db c) = bk_get A DelayBucket k d
    \<and> bc_active c = 0 \<and> bc_delayed c = 0"
proof -
  have "bolt_setup A d = Ok (bc_db c)" "bc_active c = 0" "bc_delayed c = 0"
    using assms(2,3)
    by (auto simp: NewBoltDBJobs_def Let_def new_bolt_consumer_def split: if_splits res.splits)
  with bolt_setup_get [OF assms(1), of d "bc_db c"] show ?thesis by (auto split: option.splits)
qed

theorem bolt_recovery_witness:
  "\<exists>c. NewBoltDBJobs list_bolt (\<lambda>_ _. Ok ((\<lambda>_. [])(InQueueBucket := [(''1'', GOther ''v'')]))) ''k'' True True
       (Ok \<lparr>bcf_permissions = 0, bcf_file = [], bcf_priority = 0, bcf_prefetch = 0\<rparr>) = Ok c
     \<and> bk_get list_bolt PushBucket ''1'' (bc_db c) = Some (GOther ''v'') \<and> bc_active c = 0"
proof -
  let ?d = "(\<lambda>_. [])(InQueueBucket := [(''1'', GOther ''v'')])"
  let ?cfg = "\<lparr>bcf_permissions = 0, bcf_file = [], bcf_priority = 0, bcf_prefetch = 0\<rparr>"
  obtain c where c: "NewBoltDBJobs list_bolt (\<lambda>_ _. Ok ?d) ''k'' True True (Ok ?cfg) = Ok c"
    by (simp add: NewBoltDBJobs_def bolt_setup_def Let_def)
  from bolt_recovery [OF list_bolt_laws c refl, of "''1''"] c show ?thesis by simp
qed

text \<open>
  C30: Recovered jobs stall the driver.  They are not counted in \<open>active\<close>, which starts at zero, so
  acknowledging one wraps the counter to its maximum; from then on every tick of the listener sees
  more active jobs than the prefetch limit and moves nothing.
\<close>
theorem bolt_recovered_ack_stalls:
  assumes "bc_active c = 0" "bi_delay it \<le> 0" "bolt_Ack A sh it c = (c', Ok ())"
    and "0 \<le> bc_prefetch c" "bc_prefetch c < 2 ^ 63"
  shows "bc_active c' = - 1 \<and> bolt_listen A c' = c'"
proof -
  have c': "bc_active c' = - 1" "bc_prefetch c' = bc_prefetch c"
    using assms(1-3) by (auto simp: bolt_Ack_def Let_def bolt_commit_def split: if_splits option.splits res.splits)
  have "(word_of_int (bc_prefetch c) :: u64) \<noteq> - 1"
  proof
    assume "(word_of_int (bc_prefetch c) :: u64) = - 1"
    then have "uint (word_of_int (bc_prefetch c) :: u64) = 2 ^ 64 - 1"
      by (simp add: unsigned_minus_1_eq_mask mask_eq_exp_minus_1)
    with assms(4,5) show False by (simp add: uint_word_of_int)
  qed
  then have "(word_of_int (bc_prefetch c) :: u64) < - 1"
    by (simp add: word_order.not_eq_extremum)
  with c' show ?thesis by (simp add: bolt_listen_def)
qed

theorem bolt_recovered_ack_stalls_witness:
  "let c' = fst (bolt_Ack list_bolt (\<lambda>_. []) ((bolt_fromJob (sample_bjob ''1'' 0))\<lparr>bi_attached := True\<rparr>)
       (sample_stored\<lparr>bc_active := 0\<rparr>))
   in bc_active c' = - 1 \<and> bolt_listen list_bolt c' = c'"
proof -
  let ?it = "(bolt_fromJob (sample_bjob ''1'' 0))\<lparr>bi_attached := True\<rparr>"
  obtain c' where a: "bolt_Ack list_bolt (\<lambda>_. []) ?it (sample_stored\<lparr>bc_active := 0\<rparr>) = (c', Ok ())"
    by (simp add: bolt_Ack_def bolt_commit_def)
  from bolt_recovered_ack_stalls [OF _ _ a] a show ?thesis
    by (simp add: bolt_fromJob_def sample_bjob_def sample_stored_def sample_bolt_def new_bolt_consumer_def)
qed

text \<open>
  Two jobs that become due in the same second share one key of the delayed bucket.  The second
  push replaces the first job, which is then stored nowhere, although both pushes succeed and both
  are counted.
\<close>
theorem bolt_delayed_overwrite:
  assumes "bolt_laws A" "0 < op_delay (job_options j1)" "0 < op_delay (job_options j2)"
    and same: "delay_key now' (op_delay (job_options j2)) = delay_key now (op_delay (job_options j1))"
    and "bolt_fromJob j1 \<noteq> bolt_fromJob j2"
    and fresh: "\<And>b k. bk_get A b k (bc_db c) \<noteq> Some (gob_encode (bolt_fromJob j1))"
    and p1: "bolt_Push A now j1 c = (c1, Ok ())" and p2: "bolt_Push A now' j2 c1 = (c2, Ok ())"
  shows "bk_get A b k (bc_db c2) \<noteq> Some (gob_encode (bolt_fromJob j1)) \<and> bc_delayed c2 = bc_delayed c + 2"
proof -
  have 1: "bk_put A DelayBucket (delay_key now (op_delay (job_options j1))) (gob_encode (bolt_fromJob j1))
      (bc_db c) = Ok (bc_db c1) \<and> bc_delayed c1 = bc_delayed c + 1"
    using p1 assms(2) by (auto simp: bolt_Push_def Let_def bolt_commit_def bolt_fromJob_def
        split: option.splits res.splits)
  have 2: "bk_put A DelayBucket (delay_key now (op_delay (job_options j1))) (gob_encode (bolt_fromJob j2))
      (bc_db c1) = Ok (bc_db c2) \<and> bc_delayed c2 = bc_delayed c1 + 1"
    using p2 assms(3) same by (auto simp: bolt_Push_def Let_def bolt_commit_def bolt_fromJob_def
        split: option.splits res.splits)
  have "gob_encode (bolt_fromJob j2) \<noteq> gob_encode (bolt_fromJob j1)"
    using assms(5) by (auto simp: gob_encode_def bolt_fromJob_def)
  with fresh 1 2 show ?thesis
    by (simp add: bk_put_get [OF assms(1) conjunct1 [OF 1]] bk_put_get [OF assms(1) conjunct1 [OF 2]])
qed

theorem bolt_delayed_overwrite_witness:
  "let (c1, r1) = bolt_Push list_bolt 0 (sample_bjob ''1'' 5) sample_bolt;
       (c2, r2) = bolt_Push list_bolt 0 (sample_bjob ''2'' 5) c1
   in r1 = Ok () \<and> r2 = Ok () \<and> bc_delayed c2 = 2
     \<and> bk_get list_bolt DelayBucket (delay_key 0 5) (bc_db c2) \<noteq> Some (gob_encode (bolt_fromJob (sample_bjob ''1'' 5)))"
proof -
  obtain c1 where 1: "bolt_Push list_bolt 0 (sample_bjob ''1'' 5) sample_bolt = (c1, Ok ())"
    by (simp add: bolt_Push_def bolt_commit_def sample_bjob_def bolt_fromJob_def)
  obtain c2 where 2: "bolt_Push list_bolt 0 (sample_bjob ''2'' 5) c1 = (c2, Ok ())"
    by (simp add: bolt_Push_def bolt_commit_def sample_bjob_def bolt_fromJob_def)
  have "bk_get list_bolt b k (bc_db c2) \<noteq> Some (gob_encode (bolt_fromJob (sample_bjob ''1'' 5)))
      \<and> bc_delayed c2 = bc_delayed sample_bolt + 2" for b k
    by (rule bolt_delayed_overwrite [OF list_bolt_laws _ _ _ _ _ 1 2])
      (simp_all add: sample_bjob_def bolt_fromJob_def sample_bolt_def new_bolt_consumer_def)
  with 1 2 show ?thesis by (simp add: sample_bolt_def new_bolt_consumer_def)
qed

text \<open>
  The delayed listener compares formatted instants as bytes, and that is the order of time: for
  jobs with a delay below 292 years, up to the year 9999, a key is at or before the end date exactly
  when the job's second has come.
\<close>
theorem bolt_due_in_time:
  assumes "0 \<le> now" "0 \<le> d" "d \<le> 9223372036" "0 \<le> now'"
    and "now div 10 ^ 9 + d \<le> int max_instant" "now' div 10 ^ 9 \<le> int max_instant"
  shows "delay_key now d \<le> fmt_instant (now' div 10 ^ 9) \<longleftrightarrow> now div 10 ^ 9 + d \<le> now' div 10 ^ 9"
proof -
  have "wrap64 (d * 10 ^ 9) = d * 10 ^ 9"
    using assms(2,3) by (intro wrap64_id) simp_all
  then have due: "(now + wrap64 (d * 10 ^ 9)) div 10 ^ 9 = now div 10 ^ 9 + d" by simp
  obtain s t where st: "now div 10 ^ 9 + d = int s" "now' div 10 ^ 9 = int t"
    using assms(1,2,4) by (metis add_nonneg_nonneg div_int_pos_iff nonneg_int_cases zero_le_numeral zero_le_power)
  with assms(5,6) show ?thesis
    unfolding delay_key_def due st fmt_instant_nat by (simp add: fmt_utc_le_iff)
qed

theorem bolt_due_in_time_witness:
  "delay_key 1500000000 2 \<le> fmt_instant (3999999999 div 10 ^ 9) \<and> \<not> delay_key 1500000000 2 \<le> fmt_instant (2999999999 div 10 ^ 9)"
  using bolt_due_in_time [of 1500000000 2 3999999999] bolt_due_in_time [of 1500000000 2 2999999999]
  by (simp add: max_instant_def)



end
