(* ===== verification/Jobs_System.thy ===== *)
theory Jobs_System
  imports Memory_Jobs Bolt_Jobs
begin

text \<open>
  The jobs plugin with its drivers plugged in: the contract the plugin relies on is discharged by the
  models of the memory and the boltdb driver, alone and side by side, and the plugin's lemmas become
  properties of the whole.
\<close>

definition mem_constructor :: "(string \<Rightarrow> mem_config option res) \<Rightarrow> mem_consumer constructor" where
  "mem_constructor unmarshalKey =
     \<lparr>ConsumerFromConfig = mem_FromConfig unmarshalKey, ConsumerFromPipeline = mem_FromPipeline\<rparr>"

lemma new_mem_consumer_ok:
  "new_mem_consumer cfg n prio = Ok c \<Longrightarrow> mem_ok c \<and> \<not> ready (mem_ops ctx idle) c"
  by (auto simp: new_mem_consumer_def mem_ok_def mem_ready_iff split: if_splits)

lemma mem_FromConfig_ok:
  "mem_FromConfig u key = Ok c \<Longrightarrow> mem_ok c \<and> \<not> ready (mem_ops ctx idle) c"
  by (auto simp: mem_FromConfig_def Let_def dest: new_mem_consumer_ok split: res.splits option.splits if_splits)

text \<open>The plugin as it is after \<open>Init\<close>, with the memory driver collected.\<close>

definition mem_plugin :: "(string \<Rightarrow> mem_config option res) \<Rightarrow> mem_consumer plugin \<Rightarrow> mem_consumer plugin" where
  "mem_plugin u P = CollectMQBrokers ''memory'' (mem_constructor u) P"

lemma mem_plugin_good:
  assumes "jobs_Init n (Some (Ok cfg)) = Ok P"
  shows "plugin_ok (mem_ops ctx idle) mem_ok mc_pipeline (mem_plugin u P)"
  using jobs_Init_result [OF assms] mem_FromConfig_ok [of u] new_mem_consumer_ok
  by (auto simp: mem_plugin_def CollectMQBrokers_def mem_constructor_def mem_FromPipeline_def
      plugin_ok_def names_ok_def consumers_ok_def constructors_ok_def)

definition sample_config :: jconfig where
  "sample_config = \<lparr>num_pollers = 2, pipeline_size = 10, timeout = 1, cfg_pipelines = Map.empty,
     cfg_consume = [''p'']\<rparr>"

definition sample_plugin :: "mem_consumer plugin" where
  "sample_plugin = mem_plugin (\<lambda>_. Ok None) (empty_plugin\<lparr>pg_cfg := sample_config, pg_consume := {''p''}\<rparr>)"

lemma sample_Init:
  "jobs_Init 4 (Some (Ok sample_config)) = Ok (empty_plugin\<lparr>pg_cfg := sample_config, pg_consume := {''p''}\<rparr>)"
  by (simp add: jobs_Init_def jobs_InitDefaults_def sample_config_def empty_plugin_def fun_eq_iff)

lemma sample_ok: "plugin_ok (mem_ops ctx idle) mem_ok mc_pipeline sample_plugin"
  using mem_plugin_good [OF sample_Init] by (simp add: sample_plugin_def)

lemma sample_constructor:
  "pg_constructors sample_plugin (pl_driver sample_pipeline) = Some (mem_constructor (\<lambda>_. Ok None))"
  by (simp add: sample_plugin_def mem_plugin_def CollectMQBrokers_def sample_pipeline_def)

section \<open>Both drivers\<close>

text \<open>The constructor of the boltdb plugin; \<open>has\<close> and \<open>cfg\<close> are the configuration it reads.\<close>

definition bolt_constructor ::
  "('d, bval) bolt_api \<Rightarrow> (string \<Rightarrow> int \<Rightarrow> 'd res) \<Rightarrow> (string \<Rightarrow> bool) \<Rightarrow> (string \<Rightarrow> bolt_config res) \<Rightarrow> error option
     \<Rightarrow> 'd bolt_consumer constructor"
where
  "bolt_constructor A opn has cfg unm = \<lparr>
     ConsumerFromConfig = (\<lambda>key. NewBoltDBJobs A opn key (has key) (has ''boltdb'') (cfg key)),
     ConsumerFromPipeline = bolt_FromPipeline A opn (has ''boltdb'') unm\<rparr>"

text \<open>A constructor, returning its consumers as one of the alternatives of the interface.\<close>

definition as_consumer :: "('a \<Rightarrow> 'b) \<Rightarrow> 'a constructor \<Rightarrow> 'b constructor" where
  "as_consumer f c = \<lparr>ConsumerFromConfig = (\<lambda>k. map_res f (ConsumerFromConfig c k)),
     ConsumerFromPipeline = (\<lambda>p. map_res f (ConsumerFromPipeline c p))\<rparr>"

definition with_drivers ::
  "mem_consumer constructor \<Rightarrow> 'd bolt_consumer constructor \<Rightarrow> (mem_consumer + 'd bolt_consumer) plugin
     \<Rightarrow> (mem_consumer + 'd bolt_consumer) plugin"
where
  "with_drivers m b P =
     CollectMQBrokers ''boltdb'' (as_consumer Inr b) (CollectMQBrokers ''memory'' (as_consumer Inl m) P)"

abbreviation driver_ops ::
  "string option \<Rightarrow> bool \<Rightarrow> ('d, bval) bolt_api \<Rightarrow> int \<Rightarrow> (mem_consumer + 'd bolt_consumer) consumer_ops"
where
  "driver_ops ctx idle A now \<equiv> sum_ops (mem_ops ctx idle) (bolt_ops A now)"

interpretation drivers: job_consumer "driver_ops ctx idle A now" "case_sum mem_ok bolt_ok"
    "case_sum mc_pipeline bc_pipeline"
  for ctx idle and A :: "('d, bval) bolt_api" and now
  by (rule sum_consumer [OF mem_driver.job_consumer_axioms bolt_driver.job_consumer_axioms])

lemma new_bolt_consumer_ok:
  "bolt_ok (new_bolt_consumer f pm pr pf d) \<and> \<not> ready (bolt_ops A now) (new_bolt_consumer f pm pr pf d)"
  by (simp add: bolt_ok_def bolt_ready_iff new_bolt_consumer_def)

lemma bolt_constructed:
  "NewBoltDBJobs A opn key l g cfg = Ok c \<Longrightarrow> bolt_ok c \<and> \<not> ready (bolt_ops A' now) c"
  "bolt_FromPipeline A opn g unm p = Ok c \<Longrightarrow> bolt_ok c \<and> \<not> ready (bolt_ops A' now) c"
  by (auto simp: NewBoltDBJobs_def bolt_FromPipeline_def Let_def new_bolt_consumer_ok
      split: if_splits res.splits option.splits)

lemma with_drivers_good:
  assumes "jobs_Init n (Some (Ok cfg)) = Ok P"
  shows "plugin_ok (driver_ops ctx idle A now) (case_sum mem_ok bolt_ok) (case_sum mc_pipeline bc_pipeline)
    (with_drivers (mem_constructor u) (bolt_constructor A opn has bcfg unm) P)"
proof -
  let ?P = "with_drivers (mem_constructor u) (bolt_constructor A opn has bcfg unm) P"
  have "constructors_ok (driver_ops ctx idle A now) (case_sum mem_ok bolt_ok) ?P"
    using jobs_Init_result [OF assms]
    by (auto simp: with_drivers_def CollectMQBrokers_def as_consumer_def mem_constructor_def
        bolt_constructor_def mem_FromPipeline_def constructors_ok_def map_res_Ok
        dest: mem_FromConfig_ok [where ctx = ctx and idle = idle] new_mem_consumer_ok [where ctx = ctx and idle = idle]
          bolt_constructed [where A' = A and now = now] split: if_splits)
  with jobs_Init_result [OF assms] show ?thesis
    by (simp add: plugin_ok_def names_ok_def consumers_ok_def with_drivers_def CollectMQBrokers_def)
qed

text \<open>
  C23: The plugin never loses track of a consumer.  With the memory and the boltdb driver, after
  start-up and any sequence of pushes, batches, pauses, resumes, declarations and destructions (and
  whatever the database answers), \<open>JobsState\<close> succeeds: it reports one state for every consumer,
  in the order of the iteration and under the name of its pipeline.
\<close>
theorem jobs_state_total:
  assumes "jobs_Init n (Some (Ok cfg)) = Ok P0"
    and "serve_pipelines (driver_ops ctx idle A now) ks
        (with_drivers (mem_constructor u) (bolt_constructor A opn has bcfg unm) P0) = (P1, r)"
    and "P = serve_calls (driver_ops ctx idle A now) calls P1"
  shows "\<exists>sts. JobsState (driver_ops ctx idle A now) ks' P = Ok sts
    \<and> map st_pipeline sts = filter (\<lambda>k. pg_consumers P k \<noteq> None) ks'"
proof -
  have "plugin_ok (driver_ops ctx idle A now) (case_sum mem_ok bolt_ok) (case_sum mc_pipeline bc_pipeline) P"
    using drivers.kept_pipelines [OF with_drivers_good [OF assms(1)] assms(2)]
      drivers.serve_calls_ok assms(3) by blast
  from drivers.jobs_states_ok [OF this] show ?thesis by (auto simp: JobsState_def)
qed

definition sample_boltdb :: "(string \<Rightarrow> (string \<times> bval) list) bolt_consumer constructor" where
  "sample_boltdb = bolt_constructor list_bolt (\<lambda>_ _. Ok (\<lambda>_. [])) (\<lambda>_. True)
     (\<lambda>_. Ok \<lparr>bcf_permissions = 0, bcf_file = [], bcf_priority = 0, bcf_prefetch = 0\<rparr>) None"

definition sample_both :: "(mem_consumer + (string \<Rightarrow> (string \<times> bval) list) bolt_consumer) plugin" where
  "sample_both = with_drivers (mem_constructor (\<lambda>_. Ok None)) sample_boltdb
     (empty_plugin\<lparr>pg_cfg := sample_config, pg_consume := {''p''}\<rparr>)"

theorem jobs_state_total_witness:
  "\<exists>sts. JobsState (driver_ops None True list_bolt 0) [''p''] (serve_calls (driver_ops None True list_bolt 0)
       [CallDeclare sample_pipeline, CallPause ''q''] sample_both) = Ok sts
     \<and> map st_pipeline sts = [''p'']"
proof -
  let ?o = "driver_ops None True list_bolt 0" and ?calls = "[CallDeclare sample_pipeline, CallPause ''q'']"
  obtain P1 r1 where 1: "jobs_Declare ?o sample_pipeline sample_both = (P1, r1)" by fastforce
  obtain d where d: "ConsumerFromPipeline (as_consumer Inl (mem_constructor (\<lambda>_. Ok None))) sample_pipeline
      = Ok (Inl d :: mem_consumer + (string \<Rightarrow> (string \<times> bval) list) bolt_consumer)"
    by (simp add: as_consumer_def map_res_def mem_constructor_def mem_FromPipeline_def new_mem_consumer_def
        sample_pipeline_def chan_size_ok_def)
  have con: "pg_constructors sample_both (pl_driver sample_pipeline)
      = Some (as_consumer Inl (mem_constructor (\<lambda>_. Ok None)))"
    by (simp add: sample_both_def with_drivers_def CollectMQBrokers_def sample_pipeline_def)
  have ok: "plugin_ok ?o (case_sum mem_ok bolt_ok) (case_sum mc_pipeline bc_pipeline) sample_both"
    unfolding sample_both_def sample_boltdb_def by (rule with_drivers_good [OF sample_Init])
  have s: "serve_pipelines ?o [] sample_both = (sample_both, Ok ())" by simp
  have "pg_consumers P1 ''p'' \<noteq> None"
    using drivers.declared [OF ok _ con d 1] by (auto simp: sample_pipeline_def)
  then have "pg_consumers (fst (jobs_Pause ?o ''q'' P1)) ''p'' \<noteq> None"
    by (simp add: jobs_Pause_def Let_def split: option.splits prod.splits)
  then show ?thesis
    using jobs_state_total [OF sample_Init s [unfolded sample_both_def sample_boltdb_def] refl,
        of "[''p'']" ?calls] 1
    by (auto simp: sample_both_def sample_boltdb_def serve_calls_def)
qed

section \<open>The memory driver\<close>

text \<open>
  C24: The lifecycle of a pipeline declared at run time on the memory driver.  Declaring it succeeds
  and lists it, started exactly when it is configured to be consumed; pausing and resuming it
  always succeed, switch its readiness and keep its counters; destroying it succeeds, and every
  later push to it is refused.
\<close>
theorem mem_pipeline_lifecycle:
  assumes ok: "plugin_ok (mem_ops ctx idle) mem_ok mc_pipeline P"
    and con: "pg_constructors P (pl_driver p) = Some (mem_constructor u)" "pl_driver p \<noteq> []"
    and sz: "chan_size_ok (pl_int p ''prefetch'' 100000)"
    and P1: "jobs_Declare (mem_ops ctx idle) p P = (P1, r1)"
    and P2: "jobs_Pause (mem_ops ctx idle) (pl_name p) P1 = (P2, r2)"
    and P3: "jobs_Resume (mem_ops ctx idle) (pl_name p) P2 = (P3, r3)"
    and P4: "jobs_Destroy (mem_ops ctx idle) (pl_name p) P3 = (P4, r4)"
    and j: "op_pipeline (job_options j) = pl_name p"
  shows "r1 = Ok () \<and> r2 = Ok () \<and> r3 = Ok () \<and> r4 = Ok ()
    \<and> (\<exists>c1 c2 c3. pg_consumers P1 (pl_name p) = Some c1 \<and> pg_consumers P2 (pl_name p) = Some c2
        \<and> pg_consumers P3 (pl_name p) = Some c3
        \<and> mc_listeners c1 = (if pl_name p \<in> pg_consume P then 1 else 0)
        \<and> mc_listeners c2 = 0 \<and> mc_listeners c3 = 1
        \<and> (mc_active c2, mc_delayed c2) = (mc_active c1, mc_delayed c1)
        \<and> (mc_active c3, mc_delayed c3) = (mc_active c1, mc_delayed c1))
    \<and> is_err (snd (jobs_Push (mem_ops ctx idle) j P4))"
proof -
  let ?n = "pl_name p" and ?o = "mem_ops ctx idle"
  obtain d where d: "ConsumerFromPipeline (mem_constructor u) p = Ok d"
    using sz by (simp add: mem_constructor_def mem_FromPipeline_def new_mem_consumer_def)
  obtain c1 where 1: "r1 = Ok ()" "pg_pipelines P1 ?n = Some p" "pg_consumers P1 ?n = Some c1"
      "ready ?o c1 \<longleftrightarrow> ?n \<in> pg_consume P"
    using mem_driver.declared [OF ok con(2,1) d P1] by blast
  have ok1: "plugin_ok ?o mem_ok mc_pipeline P1" using mem_driver.kept_Declare [OF ok P1] .
  obtain c2 where 2: "P2 = store_consumer ?n c2 P1" "\<not> ready ?o c2" "counts ?o c2 = counts ?o c1"
    using mem_driver.paused [OF ok1 1(2,3) P2] by blast
  have ok2: "plugin_ok ?o mem_ok mc_pipeline P2" "r2 = Ok ()"
    using mem_driver.plugin_Pause_ok [OF ok1 P2] by blast+
  have "pg_pipelines P2 ?n = Some p" "pg_consumers P2 ?n = Some c2" using 1 2 by simp_all
  then obtain c3 where 3: "P3 = store_consumer ?n c3 P2" "ready ?o c3" "counts ?o c3 = counts ?o c2"
    using mem_driver.resumed [OF ok2(1) _ _ P3] by blast
  have ok3: "plugin_ok ?o mem_ok mc_pipeline P3" "r3 = Ok ()"
    using mem_driver.plugin_Resume_ok [OF ok2(1) P3] by blast+
  have reg: "mc_pipeline c1 \<noteq> None \<and> mem_ok c1" "mc_pipeline c2 \<noteq> None \<and> mem_ok c2" "mc_pipeline c3 \<noteq> None \<and> mem_ok c3"
    using mem_driver.good_consumer [OF ok1, of ?n c1] mem_driver.good_consumer [OF ok2(1), of ?n c2]
      mem_driver.good_consumer [OF ok3(1), of ?n c3] 1 2 3 by auto
  have "r4 = Ok ()" "pg_pipelines P4 ?n = None"
    using P4 1 2 3 reg(3) by (auto simp: jobs_Destroy_def mem_ops_def mem_Stop_def)
  moreover have "is_err (snd (jobs_Push ?o j P4))"
    using calculation j by (simp add: jobs_Push_def)
  moreover have "mc_listeners c1 = (if ?n \<in> pg_consume P then 1 else 0)" "mc_listeners c2 = 0"
      "mc_listeners c3 = 1"
    using reg 1(4) 2(2) 3(2) unfolding mem_ready_iff mem_ok_def mem_ready_def by auto
  moreover have "(mc_active c2, mc_delayed c2) = (mc_active c1, mc_delayed c1)"
      "(mc_active c3, mc_delayed c3) = (mc_active c1, mc_delayed c1)"
    using reg 2(3) 3(3) by (auto simp: mem_counts)
  moreover have "pg_consumers P2 ?n = Some c2" "pg_consumers P3 ?n = Some c3"
    using 2(1) 3(1) by simp_all
  ultimately show ?thesis using 1(1,3) ok2(2) ok3(2) by blast
qed

theorem mem_pipeline_lifecycle_witness:
  "\<exists>P1 P2 P3 P4 c3. jobs_Declare (mem_ops None True) sample_pipeline sample_plugin = (P1, Ok ())
     \<and> jobs_Pause (mem_ops None True) ''p'' P1 = (P2, Ok ())
     \<and> jobs_Resume (mem_ops None True) ''p'' P2 = (P3, Ok ())
     \<and> pg_consumers P3 ''p'' = Some c3 \<and> mc_listeners c3 = 1
     \<and> jobs_Destroy (mem_ops None True) ''p'' P3 = (P4, Ok ())"
proof -
  let ?o = "mem_ops None True"
  obtain P1 r1 where 1: "jobs_Declare ?o sample_pipeline sample_plugin = (P1, r1)" by fastforce
  obtain P2 r2 where 2: "jobs_Pause ?o ''p'' P1 = (P2, r2)" by fastforce
  obtain P3 r3 where 3: "jobs_Resume ?o ''p'' P2 = (P3, r3)" by fastforce
  obtain P4 r4 where 4: "jobs_Destroy ?o ''p'' P3 = (P4, r4)" by fastforce
  have n: "pl_name sample_pipeline = ''p''" by (simp add: sample_pipeline_def)
  from mem_pipeline_lifecycle [OF sample_ok sample_constructor, unfolded n, OF _ _ 1 2 3 4, of "sample_job 0"] 1 2 3 4
  show ?thesis by (auto simp: sample_pipeline_def chan_size_ok_def sample_job_def)
qed

end
