(* ===== verification/Jobs_Remote.thy ===== *)
theory Jobs_Remote
  imports Jobs_Plugin
begin

text \<open>
  What the drivers with a remote broker (amqp, sqs, nats, beanstalk) share: calls to a client library,
  which change the state of the broker and return an error or a value, run one after the other up to
  the first error; the item a driver makes of a job; the names under which the drivers store the fields
  of a job in a message; and the JSON encoding of the headers.
\<close>

section \<open>Calls to a client library\<close>

type_synonym ('b, 'a) rpc = "'b \<Rightarrow> 'b \<times> (error + 'a)"

text \<open>
  \<open>on_ok m f\<close> continues with \<open>f\<close> when \<open>m\<close> succeeded; otherwise its result is the result.  \<open>wrapped\<close>
  adds the operation to an error, as \<open>errors.E(op, err)\<close> does.
\<close>

definition on_ok :: "'s \<times> 'a res \<Rightarrow> ('s \<Rightarrow> 'a \<Rightarrow> 's \<times> 'b res) \<Rightarrow> 's \<times> 'b res" where
  "on_ok m f = (case m of (s, Ok a) \<Rightarrow> f s a | (s, Err e) \<Rightarrow> (s, Err e) | (s, Panic) \<Rightarrow> (s, Panic) | (s, Block) \<Rightarrow> (s, Block))"

definition wrapped :: "string \<Rightarrow> 's \<times> 'a res \<Rightarrow> 's \<times> 'a res" where
  "wrapped op m = (fst m, wrap op (snd m))"

definition reply :: "error + 'a \<Rightarrow> 'a res" where
  "reply r = (case r of Inl e \<Rightarrow> Err e | Inr a \<Rightarrow> Ok a)"

definition bind_res :: "'a res \<Rightarrow> ('a \<Rightarrow> 'b res) \<Rightarrow> 'b res" where
  "bind_res r f = (case r of Ok a \<Rightarrow> f a | Err e \<Rightarrow> Err e | Panic \<Rightarrow> Panic | Block \<Rightarrow> Block)"

lemma bind_res_simps [simp]:
  "bind_res (Ok a) f = f a" "bind_res (Err e) f = Err e" "bind_res Panic f = Panic" "bind_res Block f = Block"
  by (simp_all add: bind_res_def)

lemma bind_res_Panic: "bind_res r f = Panic \<longleftrightarrow> r = Panic \<or> (\<exists>a. r = Ok a \<and> f a = Panic)"
  by (cases r) simp_all

lemma on_ok_simps [simp]:
  "on_ok (s, Ok a) f = f s a" "on_ok (s, Err e) f = (s, Err e)" "on_ok (s, Panic) f = (s, Panic)" "on_ok (s, Block) f = (s, Block)"
  by (simp_all add: on_ok_def)

lemma reply_simps [simp]: "reply (Inl e) = Err e" "reply (Inr a) = Ok a" "reply r \<noteq> Panic" "reply r \<noteq> Block"
  by (simp_all add: reply_def split: sum.split)

lemma reply_eq [simp]: "reply r = Ok a \<longleftrightarrow> r = Inr a" "reply r = Err e \<longleftrightarrow> r = Inl e"
  by (auto simp: reply_def split: sum.split)

lemma wrapped_simps [simp]:
  "fst (wrapped op m) = fst m" "snd (wrapped op m) = wrap op (snd m)" "wrapped op (s, r) = (s, wrap op r)"
  by (simp_all add: wrapped_def)

text \<open>What every call keeps, a sequence of calls keeps.\<close>

lemma on_ok_keeps:
  assumes "I (fst m)" "\<And>s a. m = (s, Ok a) \<Longrightarrow> I s \<Longrightarrow> I (fst (f s a))"
  shows "I (fst (on_ok m f))"
proof (cases m)
  case (Pair s r)
  with assms show ?thesis by (cases r) auto
qed

lemma on_ok_no_panic:
  assumes "snd m \<noteq> Panic" "\<And>s a. m = (s, Ok a) \<Longrightarrow> snd (f s a) \<noteq> Panic"
  shows "snd (on_ok m f) \<noteq> Panic"
proof (cases m)
  case (Pair s r)
  with assms show ?thesis by (cases r) auto
qed

lemma on_ok_Ok: "on_ok m f = (s', Ok b) \<longleftrightarrow> (\<exists>s a. m = (s, Ok a) \<and> f s a = (s', Ok b))"
  by (auto simp: on_ok_def split: prod.splits res.splits)

section \<open>Items\<close>

text \<open>The exported fields of an \<open>Item\<close>, which the drivers declare with the same names and types.\<close>

record jitem =
  ji_job :: string
  ji_ident :: string
  ji_payload :: string
  ji_headers :: headers
  ji_priority :: int
  ji_pipeline :: string
  ji_delay :: int

definition fromJob :: "job \<Rightarrow> jitem" where
  "fromJob j = \<lparr>ji_job = job_name j, ji_ident = job_ident j, ji_payload = job_payload j, ji_headers = job_headers j,
     ji_priority = op_priority (job_options j), ji_pipeline = op_pipeline (job_options j), ji_delay = op_delay (job_options j)\<rparr>"

text \<open>
  \<open>jobs.RRID\<close> and the other names of the API package; a driver relies on their being different.
\<close>

record rr_keys =
  k_id :: string
  k_job :: string
  k_pipeline :: string
  k_headers :: string
  k_delay :: string
  k_priority :: string

definition keys_ok :: "rr_keys \<Rightarrow> bool" where
  "keys_ok K \<longleftrightarrow> distinct [k_id K, k_job K, k_pipeline K, k_headers K, k_delay K, k_priority K]"

definition sample_keys :: rr_keys where
  "sample_keys = \<lparr>k_id = ''rr_id'', k_job = ''rr_job'', k_pipeline = ''rr_pipeline'', k_headers = ''rr_headers'',
     k_delay = ''rr_delay'', k_priority = ''rr_priority''\<rparr>"

lemma sample_keys_ok: "keys_ok sample_keys"
  by (simp add: keys_ok_def sample_keys_def)

text \<open>A count that does not parse is reported as zero.\<close>

definition count_of :: "(string \<rightharpoonup> string) \<Rightarrow> string \<Rightarrow> int" where
  "count_of m k = (case parse_int (case m k of None \<Rightarrow> [] | Some s \<Rightarrow> s) of None \<Rightarrow> 0 | Some n \<Rightarrow> n)"

text \<open>The JSON library on header maps: decoding into an empty map.\<close>

record header_json =
  hj_marshal :: "headers \<Rightarrow> error + bytes"
  hj_unmarshal :: "bytes \<Rightarrow> error + headers"

definition json_ok :: "header_json \<Rightarrow> headers \<Rightarrow> bool" where
  "json_ok J h \<longleftrightarrow> (\<exists>d. hj_marshal J h = Inr d \<and> hj_unmarshal J d = Inr h)"

definition sample_json :: header_json where
  "sample_json = \<lparr>hj_marshal = (\<lambda>h. Inr (if h = Map.empty then ''{}'' else ''?'')), hj_unmarshal = (\<lambda>_. Inr Map.empty)\<rparr>"

definition sample_remote_job :: job where
  "sample_remote_job = \<lparr>job_name = ''j'', job_ident = ''1'', job_payload = ''hi'', job_headers = Map.empty,
     job_options = \<lparr>op_priority = 3, op_pipeline = ''p'', op_delay = 5\<rparr>\<rparr>"

definition sample_remote_pipeline :: pipeline where
  "sample_remote_pipeline = \<lparr>pl_name = ''p'', pl_driver = ''remote'', pl_priority = 10, pl_int = (\<lambda>_ d. d), pl_string = (\<lambda>_ d. d), pl_bool = (\<lambda>_ d. d)\<rparr>"

lemma sample_json_ok: "json_ok sample_json (job_headers sample_remote_job)"
  by (simp add: json_ok_def sample_json_def sample_remote_job_def)

end
