(* ===== verification/Sqs_Jobs.thy ===== *)
theory Sqs_Jobs
  imports Jobs_Remote
begin

text \<open>
  The Amazon SQS jobs driver (\<open>sqs/sqsjobs\<close>).  The client is the record \<open>sqs_api\<close> of calls on a state
  \<open>'b\<close> of the service; \<open>sq_missing\<close> recognises the error of a queue that does not exist.
  \<open>sc_loops\<close> counts the listener goroutines and \<open>sc_token\<close> says that the channel of capacity one that
  stops them holds a token.
\<close>

type_synonym i32 = "32 word"

section \<open>Messages\<close>

text \<open>A message attribute; the string is a pointer and may be nil.\<close>

record sqs_attr =
  sa_type :: string
  sa_string :: "string option"
  sa_binary :: bytes

record sqs_input =
  in_body :: string
  in_queue :: string
  in_delay :: i32
  in_attrs :: "string \<rightharpoonup> sqs_attr"

record sqs_message =
  ms_attributes :: "string \<rightharpoonup> string"
  ms_attrs :: "string \<rightharpoonup> sqs_attr"
  ms_body :: "string option"
  ms_handle :: string

record 'b sqs_api =
  sq_create :: "string \<Rightarrow> (string \<rightharpoonup> string) \<Rightarrow> (string \<rightharpoonup> string) \<Rightarrow> ('b, string) rpc"
  sq_send :: "sqs_input \<Rightarrow> ('b, unit) rpc"
  sq_receive :: "string \<Rightarrow> i32 \<Rightarrow> i32 \<Rightarrow> i32 \<Rightarrow> ('b, sqs_message list) rpc"
  sq_delete :: "string \<Rightarrow> string \<Rightarrow> ('b, unit) rpc"
  sq_attributes :: "string \<Rightarrow> 'b \<Rightarrow> error + (string \<rightharpoonup> string)"
  sq_missing :: "error \<Rightarrow> bool"

section \<open>Configuration and the consumer\<close>

text \<open>The maps and the name of the queue may be nil.\<close>

record sqs_config =
  scf_endpoint :: string
  scf_visibility :: i32
  scf_wait :: i32
  scf_prefetch :: i32
  scf_queue :: "string option"
  scf_attributes :: "(string \<rightharpoonup> string) option"
  scf_tags :: "(string \<rightharpoonup> string) option"

definition sqs_InitDefault :: "sqs_config \<Rightarrow> sqs_config" where
  "sqs_InitDefault c0 =
     (let c1 = (if scf_endpoint c0 = [] then c0\<lparr>scf_endpoint := ''http://127.0.0.1:9324''\<rparr> else c0);
          c2 = (if scf_queue c1 = None then c1\<lparr>scf_queue := Some ''default''\<rparr> else c1);
          c3 = (if scf_prefetch c2 = 0 \<or> sint (scf_prefetch c2) > 10 then c2\<lparr>scf_prefetch := 10\<rparr> else c2);
          c4 = (if scf_wait c3 = 0 then c3\<lparr>scf_wait := 5\<rparr> else c3);
          c5 = (if scf_attributes c4 = None then c4\<lparr>scf_attributes := Some Map.empty\<rparr> else c4)
      in if scf_tags c5 = None then c5\<lparr>scf_tags := Some Map.empty\<rparr> else c5)"

record sitem = jitem +
  si_count :: int
  si_queue :: string
  si_handle :: string

record 'b sqs_consumer =
  sc_pq :: "sitem list"
  sc_pipeline :: "pipeline option"
  sc_queue :: string
  sc_wait :: i32
  sc_prefetch :: i32
  sc_visibility :: i32
  sc_listeners :: u32
  sc_attributes :: "string \<rightharpoonup> string"
  sc_tags :: "string \<rightharpoonup> string"
  sc_client :: 'b
  sc_url :: string
  sc_token :: bool
  sc_loops :: nat

definition sqs_call :: "('b, 'a) rpc \<Rightarrow> 'b sqs_consumer \<Rightarrow> 'b sqs_consumer \<times> 'a res" where
  "sqs_call f c = (let (b, r) = f (sc_client c) in (c\<lparr>sc_client := b\<rparr>, reply r))"

text \<open>The end of both constructors; \<open>load\<close> is the result of loading the AWS configuration.\<close>

definition sqs_connect :: "string \<Rightarrow> 'b sqs_api \<Rightarrow> error + unit \<Rightarrow> 'b sqs_consumer \<Rightarrow> 'b sqs_consumer res" where
  "sqs_connect op A load c0 =
     (case load of
        Inl e \<Rightarrow> Err (EOp op e)
      | Inr _ \<Rightarrow>
          (case wrapped op (sqs_call (sq_create A (sc_queue c0) (sc_attributes c0) (sc_tags c0)) c0) of
             (c, Ok url) \<Rightarrow> Ok (c\<lparr>sc_url := url\<rparr>)
           | (c, Err e) \<Rightarrow> Err e
           | (c, Panic) \<Rightarrow> Panic
           | (c, Block) \<Rightarrow> Block))"

text \<open>
  \<open>aws\<close>: the process runs inside AWS, where no global section is needed; \<open>cfg\<close> is the result of
  unmarshalling the sections that are read.
\<close>

definition NewSQSConsumer ::
  "'b sqs_api \<Rightarrow> error + unit \<Rightarrow> 'b \<Rightarrow> bool \<Rightarrow> string \<Rightarrow> bool \<Rightarrow> bool \<Rightarrow> error + sqs_config \<Rightarrow> 'b sqs_consumer res"
where
  "NewSQSConsumer A load b aws key local global cfg =
     (let op = ''new_sqs_consumer'' in
      if \<not> local then Err (EOp op (Str (''no configuration by provided key: '' @ key)))
      else if \<not> global \<and> \<not> aws then Err (EOp op (Str ''no global sqs configuration, global configuration should contain sqs section''))
      else case cfg of
        Inl e \<Rightarrow> Err (EOp op e)
      | Inr conf0 \<Rightarrow>
          (let conf = sqs_InitDefault conf0 in
           sqs_connect op A load \<lparr>sc_pq = [], sc_pipeline = None, sc_queue = the (scf_queue conf), sc_wait = scf_wait conf,
             sc_prefetch = scf_prefetch conf, sc_visibility = scf_visibility conf, sc_listeners = 0,
             sc_attributes = the (scf_attributes conf), sc_tags = the (scf_tags conf), sc_client = b, sc_url = [],
             sc_token = False, sc_loops = 0\<rparr>))"

text \<open>\<open>maps\<close>: the attributes and the tags of the pipeline, or the error of reading them.\<close>

definition sqs_FromPipeline ::
  "'b sqs_api \<Rightarrow> error + unit \<Rightarrow> 'b \<Rightarrow> bool \<Rightarrow> bool \<Rightarrow> error option \<Rightarrow> error + (string \<rightharpoonup> string) \<times> (string \<rightharpoonup> string) \<Rightarrow>
   pipeline \<Rightarrow> 'b sqs_consumer res"
where
  "sqs_FromPipeline A load b aws global unm maps p =
     (let op = ''new_sqs_consumer'' in
      if \<not> global \<and> \<not> aws then Err (EOp op (Str ''no global sqs configuration, global configuration should contain sqs section''))
      else if \<not> aws \<and> unm \<noteq> None then Err (EOp op (the unm))
      else case maps of
        Inl e \<Rightarrow> Err (EOp op e)
      | Inr (attr, tg) \<Rightarrow>
          sqs_connect op A load \<lparr>sc_pq = [], sc_pipeline = None, sc_queue = pl_string p ''queue'' ''default'',
            sc_wait = word_of_int (pl_int p ''wait_time'' 0), sc_prefetch = word_of_int (pl_int p ''prefetch'' 10),
            sc_visibility = word_of_int (pl_int p ''visibility_timeout'' 0), sc_listeners = 0, sc_attributes = attr,
            sc_tags = tg, sc_client = b, sc_url = [], sc_token = False, sc_loops = 0\<rparr>)"

section \<open>Items\<close>

definition sqs_fromJob :: "job \<Rightarrow> sitem" where
  "sqs_fromJob j = jitem.extend (fromJob j) \<lparr>si_count = 0, si_queue = [], si_handle = []\<rparr>"

definition string_attr :: "string \<Rightarrow> string \<Rightarrow> sqs_attr" where
  "string_attr ty s = \<lparr>sa_type = ty, sa_string = Some s, sa_binary = []\<rparr>"

definition sqs_pack :: "header_json \<Rightarrow> rr_keys \<Rightarrow> string \<Rightarrow> sitem \<Rightarrow> sqs_input res" where
  "sqs_pack J K url it =
     (case hj_marshal J (ji_headers it) of
        Inl e \<Rightarrow> Err e
      | Inr data \<Rightarrow> Ok \<lparr>in_body = ji_payload it, in_queue = url, in_delay = word_of_int (ji_delay it),
          in_attrs = [k_id K \<mapsto> string_attr ''String'' (ji_ident it), k_job K \<mapsto> string_attr ''String'' (ji_job it),
            k_delay K \<mapsto> string_attr ''String'' (itoa (ji_delay it)),
            k_headers K \<mapsto> \<lparr>sa_type = ''Binary'', sa_string = None, sa_binary = data\<rparr>,
            k_priority K \<mapsto> string_attr ''Number'' (itoa (ji_priority it))]\<rparr>)"

definition itemAttributes :: "rr_keys \<Rightarrow> string list" where
  "itemAttributes K = [k_id K, k_job K, k_delay K, k_priority K, k_headers K]"

text \<open>\<open>*attr.StringValue\<close>, and \<open>strconv.Atoi\<close> on it with the error wrapped.\<close>

definition deref :: "string option \<Rightarrow> string res" where
  "deref s = (case s of None \<Rightarrow> Panic | Some x \<Rightarrow> Ok x)"

definition atoi :: "string \<Rightarrow> string \<Rightarrow> int res" where
  "atoi op s = (case parse_int s of None \<Rightarrow> Err (EOp op (Str ''invalid syntax'')) | Some n \<Rightarrow> Ok n)"

definition sqs_unpack :: "header_json \<Rightarrow> rr_keys \<Rightarrow> sqs_message \<Rightarrow> 'b sqs_consumer \<Rightarrow> sitem res" where
  "sqs_unpack J K msg c =
     (let op = ''sqs_unpack''; at = (\<lambda>k. the (ms_attrs msg k)) in
      case ms_attributes msg ''ApproximateReceiveCount'' of
        None \<Rightarrow> Err (EOp op (Str ''failed to unpack the ApproximateReceiveCount attribute''))
      | Some cnt \<Rightarrow>
          (case find (\<lambda>k. ms_attrs msg k = None) (itemAttributes K) of
             Some k \<Rightarrow> Err (EOp op (Str (''missing queue attribute: '' @ k)))
           | None \<Rightarrow>
               bind_res (reply (hj_unmarshal J (sa_binary (at (k_headers K))))) (\<lambda>h.
               bind_res (bind_res (deref (sa_string (at (k_delay K)))) (atoi op)) (\<lambda>dly.
               bind_res (bind_res (deref (sa_string (at (k_priority K)))) (atoi op)) (\<lambda>prio.
               bind_res (atoi op cnt) (\<lambda>n.
               bind_res (deref (sa_string (at (k_job K)))) (\<lambda>job.
               bind_res (deref (sa_string (at (k_id K)))) (\<lambda>ident.
               bind_res (deref (ms_body msg)) (\<lambda>body.
               Ok \<lparr>ji_job = job, ji_ident = ident, ji_payload = body, ji_headers = h, ji_priority = prio, ji_pipeline = [],
                   ji_delay = dly, si_count = n, si_queue = sc_url c, si_handle = ms_handle msg\<rparr>)))))))))"

section \<open>Publishing and acknowledging\<close>

definition sqs_handleItem :: "'b sqs_api \<Rightarrow> header_json \<Rightarrow> rr_keys \<Rightarrow> sitem \<Rightarrow> 'b sqs_consumer \<Rightarrow> 'b sqs_consumer \<times> unit res" where
  "sqs_handleItem A J K it c =
     (case sqs_pack J K (sc_url c) it of
        Ok d \<Rightarrow> sqs_call (sq_send A d) c
      | Err e \<Rightarrow> (c, Err e)
      | Panic \<Rightarrow> (c, Panic)
      | Block \<Rightarrow> (c, Block))"

definition sqs_Push :: "'b sqs_api \<Rightarrow> header_json \<Rightarrow> rr_keys \<Rightarrow> job \<Rightarrow> 'b sqs_consumer \<Rightarrow> 'b sqs_consumer \<times> unit res" where
  "sqs_Push A J K j c =
     (let op = ''sqs_push'' in
      case sc_pipeline c of
        None \<Rightarrow> (c, Panic)
      | Some pipe \<Rightarrow>
          if pl_name pipe \<noteq> op_pipeline (job_options j)
          then (c, Err (EOp op (Str (''no such pipeline: '' @ op_pipeline (job_options j) @ '', actual: '' @ pl_name pipe))))
          else if op_delay (job_options j) > 900
          then (c, Err (EOp op (Str (''unable to push, maximum possible delay is 900 seconds (15 minutes), provided: ''
                  @ itoa (op_delay (job_options j))))))
          else wrapped op (sqs_handleItem A J K (sqs_fromJob j) c))"

type_synonym 'b sqs_held = "sitem \<times> 'b sqs_consumer"

definition sqs_Ack :: "'b sqs_api \<Rightarrow> 'b sqs_held \<Rightarrow> 'b sqs_held \<times> unit res" where
  "sqs_Ack A h = (let (c, r) = sqs_call (sq_delete A (si_queue (fst h)) (si_handle (fst h))) (snd h) in ((fst h, c), r))"

text \<open>\<open>Nack\<close> and \<open>Requeue\<close>: the message is sent again, and deleted only after that succeeded.\<close>

definition resend :: "'b sqs_api \<Rightarrow> header_json \<Rightarrow> rr_keys \<Rightarrow> 'b sqs_held \<Rightarrow> 'b sqs_held \<times> unit res" where
  "resend A J K h =
     (case sqs_handleItem A J K (fst h) (snd h) of
        (c, Ok _) \<Rightarrow> sqs_Ack A (fst h, c)
      | (c, r) \<Rightarrow> ((fst h, c), r))"

definition sqs_Nack :: "'b sqs_api \<Rightarrow> header_json \<Rightarrow> rr_keys \<Rightarrow> 'b sqs_held \<Rightarrow> 'b sqs_held \<times> unit res" where
  "sqs_Nack A J K h = resend A J K h"

definition sqs_Requeue ::
  "'b sqs_api \<Rightarrow> header_json \<Rightarrow> rr_keys \<Rightarrow> headers \<Rightarrow> int \<Rightarrow> 'b sqs_held \<Rightarrow> 'b sqs_held \<times> unit res"
where
  "sqs_Requeue A J K hs d h = resend A J K ((fst h)\<lparr>ji_delay := d, ji_headers := hs\<rparr>, snd h)"

definition sqs_Respond :: "'b sqs_api \<Rightarrow> bytes \<Rightarrow> string \<Rightarrow> 'b sqs_held \<Rightarrow> 'b sqs_held \<times> unit res" where
  "sqs_Respond A data q h =
     (let (c, r) = wrapped ''sqs_respond'' (sqs_call (sq_send A \<lparr>in_body = data, in_queue = q, in_delay = 0, in_attrs = Map.empty\<rparr>) (snd h))
      in ((fst h, c), r))"

section \<open>Consuming\<close>

text \<open>
  One received message: one that cannot be unpacked is deleted, whatever the deletion returns.
\<close>

definition sqs_deliver :: "'b sqs_api \<Rightarrow> header_json \<Rightarrow> rr_keys \<Rightarrow> sqs_message \<Rightarrow> 'b sqs_consumer \<Rightarrow> 'b sqs_consumer \<times> unit res" where
  "sqs_deliver A J K msg c =
     (case sqs_unpack J K msg c of
        Ok it \<Rightarrow> (c\<lparr>sc_pq := sc_pq c @ [it]\<rparr>, Ok ())
      | Err e \<Rightarrow> (fst (sqs_call (sq_delete A (sc_url c) (ms_handle msg)) c), Ok ())
      | Panic \<Rightarrow> (c, Panic)
      | Block \<Rightarrow> (c, Block))"

fun sqs_deliver_all :: "'b sqs_api \<Rightarrow> header_json \<Rightarrow> rr_keys \<Rightarrow> sqs_message list \<Rightarrow> 'b sqs_consumer \<Rightarrow> 'b sqs_consumer \<times> unit res" where
  "sqs_deliver_all A J K [] c = (c, Ok ())"
| "sqs_deliver_all A J K (m # ms) c = on_ok (sqs_deliver A J K m c) (\<lambda>c _. sqs_deliver_all A J K ms c)"

text \<open>One round of a listener: it leaves when there is a token, otherwise it receives.\<close>

definition sqs_listen :: "'b sqs_api \<Rightarrow> header_json \<Rightarrow> rr_keys \<Rightarrow> 'b sqs_consumer \<Rightarrow> 'b sqs_consumer \<times> unit res" where
  "sqs_listen A J K c0 =
     (if sc_token c0 then (c0\<lparr>sc_token := False, sc_loops := sc_loops c0 - 1\<rparr>, Ok ())
      else case sqs_call (sq_receive A (sc_url c0) (sc_prefetch c0) (sc_visibility c0) (sc_wait c0)) c0 of
        (c, Ok ms) \<Rightarrow> sqs_deliver_all A J K ms c
      | (c, Err e) \<Rightarrow>
          (if sq_missing A e then fst (sqs_call (sq_create A (sc_queue c) (sc_attributes c) (sc_tags c)) c) else c, Ok ())
      | (c, Panic) \<Rightarrow> (c, Panic)
      | (c, Block) \<Rightarrow> (c, Block))"

definition sqs_Register :: "pipeline \<Rightarrow> 'b sqs_consumer \<Rightarrow> 'b sqs_consumer \<times> unit res" where
  "sqs_Register p c = (c\<lparr>sc_pipeline := Some p\<rparr>, Ok ())"

definition sqs_Run :: "pipeline \<Rightarrow> 'b sqs_consumer \<Rightarrow> 'b sqs_consumer \<times> unit res" where
  "sqs_Run p c =
     (case sc_pipeline c of
        None \<Rightarrow> (c, Panic)
      | Some pipe \<Rightarrow>
          if pl_name pipe \<noteq> pl_name p then (c, Err (EOp ''sqs_run'' (Str (''no such pipeline registered: '' @ pl_name pipe))))
          else (c\<lparr>sc_listeners := sc_listeners c + 1, sc_loops := sc_loops c + 1\<rparr>, Ok ()))"

text \<open>
  Sending the token: a full channel waits until a listener has taken the old token and left, and
  forever when there is no listener.
\<close>

definition send_pause :: "'b sqs_consumer \<Rightarrow> 'b sqs_consumer \<times> unit res" where
  "send_pause c =
     (if \<not> sc_token c then (c\<lparr>sc_token := True\<rparr>, Ok ())
      else if sc_loops c = 0 then (c, Block)
      else (c\<lparr>sc_loops := sc_loops c - 1\<rparr>, Ok ()))"

definition sqs_Stop :: "'b sqs_consumer \<Rightarrow> 'b sqs_consumer \<times> unit res" where
  "sqs_Stop c =
     on_ok (if sc_listeners c > 0 then send_pause c else (c, Ok ())) (\<lambda>c _. (c, if sc_pipeline c = None then Panic else Ok ()))"

definition sqs_Pause :: "string \<Rightarrow> 'b sqs_consumer \<Rightarrow> 'b sqs_consumer \<times> unit res" where
  "sqs_Pause p c =
     (case sc_pipeline c of
        None \<Rightarrow> (c, Panic)
      | Some pipe \<Rightarrow>
          if pl_name pipe \<noteq> p then (c, Ok ())
          else if sc_listeners c = 0 then (c, Ok ())
          else send_pause (c\<lparr>sc_listeners := sc_listeners c - 1\<rparr>))"

definition sqs_Resume :: "string \<Rightarrow> 'b sqs_consumer \<Rightarrow> 'b sqs_consumer \<times> unit res" where
  "sqs_Resume p c =
     (case sc_pipeline c of
        None \<Rightarrow> (c, Panic)
      | Some pipe \<Rightarrow>
          if pl_name pipe \<noteq> p then (c, Ok ())
          else if sc_listeners c = 1 then (c, Ok ())
          else (c\<lparr>sc_loops := sc_loops c + 1, sc_listeners := sc_listeners c + 1\<rparr>, Ok ()))"

definition sqs_State :: "'b sqs_api \<Rightarrow> 'b sqs_consumer \<Rightarrow> jstate res" where
  "sqs_State A c =
     (case sq_attributes A (sc_url c) (sc_client c) of
        Inl e \<Rightarrow> Err (EOp ''sqs_state'' e)
      | Inr at \<Rightarrow>
          (case sc_pipeline c of
             None \<Rightarrow> Panic
           | Some pipe \<Rightarrow> Ok \<lparr>st_pipeline = pl_name pipe, st_driver = pl_driver pipe, st_queue = sc_url c,
               st_active = count_of at ''ApproximateNumberOfMessages'', st_delayed = count_of at ''ApproximateNumberOfMessagesDelayed'',
               st_reserved = count_of at ''ApproximateNumberOfMessagesNotVisible'', st_ready = (sc_listeners c > 0)\<rparr>))"

definition sqs_ops :: "'b sqs_api \<Rightarrow> header_json \<Rightarrow> rr_keys \<Rightarrow> 'b sqs_consumer consumer_ops" where
  "sqs_ops A J K = \<lparr>c_push = (\<lambda>c j. sqs_Push A J K j c), c_register = (\<lambda>c p. sqs_Register p c),
     c_run = (\<lambda>c p. sqs_Run p c), c_pause = (\<lambda>c n. sqs_Pause n c), c_resume = (\<lambda>c n. sqs_Resume n c),
     c_stop = sqs_Stop, c_state = sqs_State A\<rparr>"

lemma sqs_ops_simps [simp]:
  "c_push (sqs_ops A J K) c j = sqs_Push A J K j c" "c_register (sqs_ops A J K) c p = sqs_Register p c"
  "c_run (sqs_ops A J K) c p = sqs_Run p c" "c_pause (sqs_ops A J K) c n = sqs_Pause n c"
  "c_resume (sqs_ops A J K) c n = sqs_Resume n c" "c_stop (sqs_ops A J K) c = sqs_Stop c"
  "c_state (sqs_ops A J K) c = sqs_State A c"
  by (simp_all add: sqs_ops_def)

section \<open>The driver keeps its registration\<close>

definition sqs_ok :: "'b sqs_consumer \<Rightarrow> bool" where
  "sqs_ok c \<longleftrightarrow> (sc_pipeline c = None \<longrightarrow> sc_listeners c = 0)"

lemma sqs_call_frame:
  "sqs_call f c = (c', r) \<Longrightarrow> sc_pipeline c' = sc_pipeline c \<and> sc_listeners c' = sc_listeners c"
  by (auto simp: sqs_call_def split: prod.splits)

lemma sqs_handleItem_frame:
  "sqs_handleItem A J K it c = (c', r) \<Longrightarrow> sc_pipeline c' = sc_pipeline c \<and> sc_listeners c' = sc_listeners c"
  by (auto simp: sqs_handleItem_def dest: sqs_call_frame split: res.splits)

lemma sqs_Push_frame:
  "sqs_Push A J K j c = (c', r) \<Longrightarrow> sc_pipeline c' = sc_pipeline c \<and> sc_listeners c' = sc_listeners c"
  using sqs_handleItem_frame [of A J K "sqs_fromJob j" c "fst (sqs_handleItem A J K (sqs_fromJob j) c)"]
  by (auto simp: sqs_Push_def wrapped_def Let_def prod_eq_iff split: option.splits if_splits)

lemma sqs_control:
  "sqs_Run p c = (c', r) \<Longrightarrow> sc_pipeline c' = sc_pipeline c \<and> (sc_pipeline c = Some q \<longrightarrow> sqs_ok c')"
  "sqs_Pause n c = (c', r) \<Longrightarrow> sc_pipeline c' = sc_pipeline c \<and> (sc_pipeline c = Some q \<longrightarrow> sqs_ok c')"
  "sqs_Resume n c = (c', r) \<Longrightarrow> sc_pipeline c' = sc_pipeline c \<and> (sc_pipeline c = Some q \<longrightarrow> sqs_ok c')"
  by (auto simp: sqs_Run_def sqs_Pause_def sqs_Resume_def send_pause_def sqs_ok_def split: option.splits if_splits)

interpretation sqs_driver: consumer_core "sqs_ops A J K" sqs_ok sc_pipeline for A :: "'b sqs_api" and J K
proof unfold_locales
  fix c c' :: "'b sqs_consumer" and p r
  assume "sqs_ok c" "c_register (sqs_ops A J K) c p = (c', r)"
  then show "r = Ok () \<and> sqs_ok c' \<and> sc_pipeline c' = Some p \<and> (\<not> ready (sqs_ops A J K) c \<longrightarrow> \<not> ready (sqs_ops A J K) c')"
    by (auto simp: sqs_Register_def sqs_ok_def ready_def sqs_State_def split: sum.splits option.splits)
next
  fix c c' :: "'b sqs_consumer" and j r
  assume "sqs_ok c" "c_push (sqs_ops A J K) c j = (c', r)"
  then show "sqs_ok c' \<and> sc_pipeline c' = sc_pipeline c"
    using sqs_Push_frame [of A J K j c c' r] by (auto simp: sqs_ok_def)
next
  fix c :: "'b sqs_consumer" and p
  assume "sqs_ok c" "sc_pipeline c = Some p"
  then show "(\<exists>st. c_state (sqs_ops A J K) c = Ok st \<and> st_pipeline st = pl_name p \<and> st_driver st = pl_driver p)
      \<or> is_err (c_state (sqs_ops A J K) c)"
    by (simp add: sqs_State_def split: sum.split)
qed (auto dest: sqs_control)

section \<open>Properties\<close>

lemma atoi_itoa [simp]: "- (2 ^ 63) \<le> n \<Longrightarrow> n < 2 ^ 63 \<Longrightarrow> atoi op (itoa n) = Ok n"
  by (simp add: atoi_def parse_int_itoa)

text \<open>
  C14: A job that was pushed comes back with its name, identifier, payload, headers, priority and delay,
  but its pipeline is not part of the message: the worker sees an empty one.
\<close>

theorem sqs_job_roundtrip:
  assumes "keys_ok K" "json_ok J (job_headers j)" "sqs_pack J K (sc_url c) (sqs_fromJob j) = Ok d"
    and "op_delay (job_options j) \<in> {- (2 ^ 63)..< 2 ^ 63}" "op_priority (job_options j) \<in> {- (2 ^ 63)..< 2 ^ 63}"
    and "ms_attrs m = in_attrs d" "ms_body m = Some (in_body d)" "ms_attributes m ''ApproximateReceiveCount'' = Some (show_nat n)" "n < 2 ^ 63"
  shows "sqs_deliver A J K m c = (c\<lparr>sc_pq := sc_pq c @ [jitem.extend ((fromJob j)\<lparr>ji_pipeline := []\<rparr>)
      \<lparr>si_count = int n, si_queue = sc_url c, si_handle = ms_handle m\<rparr>]\<rparr>, Ok ())"
proof -
  obtain h where h: "hj_marshal J (job_headers j) = Inr h" "hj_unmarshal J h = Inr (job_headers j)"
    using assms(2) by (auto simp: json_ok_def)
  have f: "ji_headers (sqs_fromJob j) = job_headers j" "ji_payload (sqs_fromJob j) = job_payload j"
    "ji_ident (sqs_fromJob j) = job_ident j" "ji_job (sqs_fromJob j) = job_name j"
    "ji_delay (sqs_fromJob j) = op_delay (job_options j)" "ji_priority (sqs_fromJob j) = op_priority (job_options j)"
    by (simp_all add: sqs_fromJob_def fromJob_def jitem.defs)
  have d: "in_body d = job_payload j" "in_attrs d (k_id K) = Some (string_attr ''String'' (job_ident j))"
    "in_attrs d (k_job K) = Some (string_attr ''String'' (job_name j))"
    "in_attrs d (k_delay K) = Some (string_attr ''String'' (itoa (op_delay (job_options j))))"
    "in_attrs d (k_headers K) = Some \<lparr>sa_type = ''Binary'', sa_string = None, sa_binary = h\<rparr>"
    "in_attrs d (k_priority K) = Some (string_attr ''Number'' (itoa (op_priority (job_options j))))"
    using assms(1,3) by (auto simp: sqs_pack_def f h keys_ok_def)
  have "atoi op (show_nat n) = Ok (int n)" for op using assms(9) by (simp add: atoi_def parse_int_show_nat)
  with assms(4-8) d h have "sqs_unpack J K m c = Ok (jitem.extend ((fromJob j)\<lparr>ji_pipeline := []\<rparr>)
      \<lparr>si_count = int n, si_queue = sc_url c, si_handle = ms_handle m\<rparr>)"
    by (simp add: sqs_unpack_def itemAttributes_def string_attr_def deref_def fromJob_def jitem.defs Let_def)
  then show ?thesis by (simp add: sqs_deliver_def)
qed

definition sample_sqs :: "unit sqs_consumer" where
  "sample_sqs = \<lparr>sc_pq = [], sc_pipeline = Some sample_remote_pipeline, sc_queue = ''q'', sc_wait = 5, sc_prefetch = 10,
     sc_visibility = 0, sc_listeners = 1, sc_attributes = Map.empty, sc_tags = Map.empty, sc_client = (), sc_url = ''u'',
     sc_token = False, sc_loops = 1\<rparr>"

theorem sqs_job_roundtrip_witness:
  "\<forall>A :: unit sqs_api. \<exists>d c'. sqs_pack sample_json sample_keys ''u'' (sqs_fromJob sample_remote_job) = Ok d
     \<and> sqs_deliver A sample_json sample_keys \<lparr>ms_attributes = [''ApproximateReceiveCount'' \<mapsto> show_nat 2], ms_attrs = in_attrs d,
           ms_body = Some (in_body d), ms_handle = ''h''\<rparr> sample_sqs = (c', Ok ())
     \<and> map (\<lambda>it. (ji_ident it, ji_delay it, ji_pipeline it)) (sc_pq c') = [(''1'', 5, [])]"
proof
  fix A :: "unit sqs_api"
  obtain d where d: "sqs_pack sample_json sample_keys (sc_url sample_sqs) (sqs_fromJob sample_remote_job) = Ok d"
    by (simp add: sqs_pack_def sample_json_def)
  let ?m = "\<lparr>ms_attributes = [''ApproximateReceiveCount'' \<mapsto> show_nat 2], ms_attrs = in_attrs d, ms_body = Some (in_body d), ms_handle = ''h''\<rparr>"
  have "sqs_deliver A sample_json sample_keys ?m sample_sqs = (sample_sqs\<lparr>sc_pq := sc_pq sample_sqs @
      [jitem.extend ((fromJob sample_remote_job)\<lparr>ji_pipeline := []\<rparr>) \<lparr>si_count = int 2, si_queue = sc_url sample_sqs, si_handle = ms_handle ?m\<rparr>]\<rparr>, Ok ())"
    by (rule sqs_job_roundtrip [OF sample_keys_ok sample_json_ok d]) (simp_all add: sample_remote_job_def)
  with d show "\<exists>d c'. sqs_pack sample_json sample_keys ''u'' (sqs_fromJob sample_remote_job) = Ok d
     \<and> sqs_deliver A sample_json sample_keys \<lparr>ms_attributes = [''ApproximateReceiveCount'' \<mapsto> show_nat 2], ms_attrs = in_attrs d,
           ms_body = Some (in_body d), ms_handle = ''h''\<rparr> sample_sqs = (c', Ok ())
     \<and> map (\<lambda>it. (ji_ident it, ji_delay it, ji_pipeline it)) (sc_pq c') = [(''1'', 5, [])]"
    by (auto simp: sample_sqs_def sample_remote_job_def fromJob_def jitem.defs)
qed

end
