(* ===== verification/Nats_Jobs.thy ===== *)
theory Nats_Jobs
  imports Jobs_Remote
begin

text \<open>
  The NATS jobs driver (\<open>nats/natsjobs\<close>).  The client is the record \<open>nats_api\<close> of calls on a state
  \<open>'b\<close>; JSON is the record \<open>nats_json\<close>, whose decoder says whether the options of the item were
  present.  \<open>nc_loops\<close> counts the listener goroutines, which receive from the unbuffered stop channel;
  a send that nobody can receive blocks forever.
\<close>

section \<open>The client\<close>

record nats_msg =
  nm_data :: bytes
  nm_ref :: nat

record nats_json =
  nj_job :: "job \<Rightarrow> error + bytes"
  nj_item :: "jitem \<Rightarrow> error + bytes"
  nj_decode :: "bytes \<Rightarrow> error + jitem \<times> bool"

record 'b nats_api =
  nt_connect :: "string \<Rightarrow> ('b, unit) rpc"
  nt_jetstream :: "('b, unit) rpc"
  nt_stream_info :: "string \<Rightarrow> 'b \<Rightarrow> error + unit"
  nt_not_found :: "error \<Rightarrow> bool"
  nt_add_stream :: "string \<Rightarrow> string \<Rightarrow> ('b, unit) rpc"
  nt_publish :: "string \<Rightarrow> bytes \<Rightarrow> ('b, unit) rpc"
  nt_delete_msg :: "string \<Rightarrow> nat \<Rightarrow> ('b, unit) rpc"
  nt_subscribe :: "string \<Rightarrow> bool \<Rightarrow> u64 \<Rightarrow> ('b, nat) rpc"
  nt_drain :: "nat \<Rightarrow> ('b, unit) rpc"
  nt_info :: "nat \<Rightarrow> 'b \<Rightarrow> error + (int \<times> int) option"
  nt_delete_stream :: "string \<Rightarrow> ('b, unit) rpc"
  nt_conn_drain :: "('b, unit) rpc"
  nt_conn_publish :: "string \<Rightarrow> bytes \<Rightarrow> ('b, unit) rpc"
  nt_meta :: "nats_msg \<Rightarrow> error + nat"
  nt_progress :: "nats_msg \<Rightarrow> ('b, unit) rpc"
  nt_ack :: "nat \<Rightarrow> ('b, unit) rpc"
  nt_nak :: "nat \<Rightarrow> ('b, unit) rpc"

section \<open>Configuration and the consumer\<close>

record nats_config =
  ncf_addr :: string
  ncf_priority :: int
  ncf_subject :: string
  ncf_stream :: string
  ncf_prefetch :: int
  ncf_rate :: u64
  ncf_delete_ack :: bool
  ncf_deliver_new :: bool
  ncf_delete_stop :: bool

text \<open>\<open>url\<close> is the default address of the client library.\<close>

definition nats_InitDefaults :: "string \<Rightarrow> nats_config \<Rightarrow> nats_config" where
  "nats_InitDefaults url c0 =
     (let c1 = (if ncf_addr c0 = [] then c0\<lparr>ncf_addr := url\<rparr> else c0);
          c2 = (if ncf_rate c1 = 0 then c1\<lparr>ncf_rate := 1000\<rparr> else c1);
          c3 = (if ncf_priority c2 = 0 then c2\<lparr>ncf_priority := 10\<rparr> else c2);
          c4 = (if ncf_stream c3 = [] then c3\<lparr>ncf_stream := ''default-stream''\<rparr> else c3);
          c5 = (if ncf_subject c4 = [] then c4\<lparr>ncf_subject := ''default''\<rparr> else c4)
      in if ncf_prefetch c5 = 0 then c5\<lparr>ncf_prefetch := 10\<rparr> else c5)"

text \<open>The functions of a delivered item are those of its message \<open>ni_msg\<close>; \<open>ni_stream\<close> is set when it is deleted after \<open>Ack\<close>.\<close>

record nitem = jitem +
  ni_msg :: nat
  ni_seq :: nat
  ni_stream :: "string option"

record 'b nats_consumer =
  nc_queue :: "nitem list"
  nc_listeners :: u32
  nc_pipeline :: "pipeline option"
  nc_conn :: 'b
  nc_sub :: "nat option"
  nc_priority :: int
  nc_subject :: string
  nc_stream :: string
  nc_prefetch :: int
  nc_rate :: u64
  nc_delete_ack :: bool
  nc_deliver_new :: bool
  nc_delete_stop :: bool
  nc_loops :: nat

definition nats_call :: "('b, 'a) rpc \<Rightarrow> 'b nats_consumer \<Rightarrow> 'b nats_consumer \<times> 'a res" where
  "nats_call f c = (let (b, r) = f (nc_conn c) in (c\<lparr>nc_conn := b\<rparr>, reply r))"

text \<open>
  The part both constructors share: connect, and add the stream when it is not there.  A failed lookup
  other than \<open>stream not found\<close> is an error.  A negative prefetch makes the channel panic.
\<close>

definition nats_ensure_stream :: "'b nats_api \<Rightarrow> 'b nats_consumer \<Rightarrow> 'b nats_consumer \<times> unit res" where
  "nats_ensure_stream A c =
     (case nt_stream_info A (nc_stream c) (nc_conn c) of
        Inr _ \<Rightarrow> (c, Ok ())
      | Inl e \<Rightarrow> if nt_not_found A e then nats_call (nt_add_stream A (nc_stream c) (nc_subject c)) c else (c, Err e))"

definition nats_connect :: "'b nats_api \<Rightarrow> string \<Rightarrow> 'b nats_consumer \<Rightarrow> 'b nats_consumer res" where
  "nats_connect A addr c0 =
     (case wrapped ''new_nats_consumer''
         (on_ok (nats_call (nt_connect A addr) c0) (\<lambda>c _.
          on_ok (nats_call (nt_jetstream A) c) (\<lambda>c _.
          nats_ensure_stream A c))) of
        (c, Ok _) \<Rightarrow> if nc_prefetch c < 0 then Panic else Ok c
      | (c, Err e) \<Rightarrow> Err e
      | (c, Panic) \<Rightarrow> Panic
      | (c, Block) \<Rightarrow> Block)"

text \<open>The configuration is a pointer that stays nil when the sections are empty.\<close>

definition nats_FromConfig ::
  "'b nats_api \<Rightarrow> string \<Rightarrow> 'b \<Rightarrow> string \<Rightarrow> bool \<Rightarrow> bool \<Rightarrow> error + nats_config option \<Rightarrow> 'b nats_consumer res"
where
  "nats_FromConfig A url b key local global cfg =
     (let op = ''new_nats_consumer'' in
      if \<not> local then Err (EOp op (Str (''no configuration by provided key: '' @ key)))
      else if \<not> global then Err (EOp op (Str ''no global nats configuration, global configuration should contain NATS URL''))
      else case cfg of
        Inl e \<Rightarrow> Err (EOp op e)
      | Inr None \<Rightarrow> Panic
      | Inr (Some conf0) \<Rightarrow>
          (let conf = nats_InitDefaults url conf0 in
           nats_connect A (ncf_addr conf) \<lparr>nc_queue = [], nc_listeners = 0, nc_pipeline = None, nc_conn = b, nc_sub = None,
             nc_priority = ncf_priority conf, nc_subject = ncf_subject conf, nc_stream = ncf_stream conf,
             nc_prefetch = ncf_prefetch conf, nc_rate = ncf_rate conf, nc_delete_ack = ncf_delete_ack conf,
             nc_deliver_new = ncf_deliver_new conf, nc_delete_stop = ncf_delete_stop conf, nc_loops = 0\<rparr>))"

definition nats_FromPipeline ::
  "'b nats_api \<Rightarrow> string \<Rightarrow> 'b \<Rightarrow> bool \<Rightarrow> error + nats_config option \<Rightarrow> pipeline \<Rightarrow> 'b nats_consumer res"
where
  "nats_FromPipeline A url b global cfg p =
     (let op = ''new_nats_consumer'' in
      if \<not> global then Err (EOp op (Str ''no global nats configuration, global configuration should contain NATS URL''))
      else case cfg of
        Inl e \<Rightarrow> Err (EOp op e)
      | Inr None \<Rightarrow> Panic
      | Inr (Some conf) \<Rightarrow>
          nats_connect A (ncf_addr (nats_InitDefaults url conf)) \<lparr>nc_queue = [], nc_listeners = 0, nc_pipeline = None, nc_conn = b,
             nc_sub = None, nc_priority = pl_priority p, nc_subject = pl_string p ''subject'' ''default'',
             nc_stream = pl_string p ''stream'' ''default-stream'', nc_prefetch = pl_int p ''prefetch'' 100,
             nc_rate = word_of_int (pl_int p ''rate_limit'' 1000), nc_delete_ack = pl_bool p ''delete_after_ack'' False,
             nc_deliver_new = pl_bool p ''deliver_new'' False, nc_delete_stop = pl_bool p ''delete_stream_on_stop'' False, nc_loops = 0\<rparr>)"

section \<open>Publishing and acknowledging\<close>

definition no_delays :: "string \<Rightarrow> error" where
  "no_delays op = EOp op (Str ''nats doesn't support delayed messages, see: https://github.com/nats-io/nats-streaming-server/issues/324'')"

definition nats_Push :: "'b nats_api \<Rightarrow> nats_json \<Rightarrow> job \<Rightarrow> 'b nats_consumer \<Rightarrow> 'b nats_consumer \<times> unit res" where
  "nats_Push A J j c =
     (let op = ''nats_consumer_push'' in
      if op_delay (job_options j) > 0 then (c, Err (no_delays op))
      else on_ok (c, wrap op (reply (nj_job J j))) (\<lambda>c data. wrapped op (nats_call (nt_publish A (nc_subject c) data) c)))"

text \<open>The old message is deleted whatever the deletion returns.\<close>

definition nats_requeue :: "'b nats_api \<Rightarrow> nats_json \<Rightarrow> nitem \<Rightarrow> 'b nats_consumer \<Rightarrow> 'b nats_consumer \<times> unit res" where
  "nats_requeue A J it c =
     (let op = ''nats_requeue'' in
      if ji_delay it > 0 then (c, Err (no_delays op))
      else on_ok (c, wrap op (reply (nj_item J (jitem.truncate it)))) (\<lambda>c data.
           on_ok (wrapped op (nats_call (nt_publish A (nc_subject c) data) c)) (\<lambda>c _.
           (fst (nats_call (nt_delete_msg A (nc_stream c) (ni_seq it)) c), Ok ()))))"

definition nats_respond :: "'b nats_api \<Rightarrow> bytes \<Rightarrow> string \<Rightarrow> 'b nats_consumer \<Rightarrow> 'b nats_consumer \<times> unit res" where
  "nats_respond A data subject c = wrapped ''nats_respond'' (nats_call (nt_conn_publish A subject data) c)"

type_synonym 'b nats_held = "nitem \<times> 'b nats_consumer"

text \<open>\<open>ack\<close>, followed by the deletion when the item asks for it.\<close>

definition ack_delete :: "'b nats_api \<Rightarrow> nitem \<Rightarrow> 'b nats_consumer \<Rightarrow> 'b nats_held \<times> unit res" where
  "ack_delete A it c0 =
     map_prod (Pair it) id
       (on_ok (nats_call (nt_ack A (ni_msg it)) c0) (\<lambda>c _.
         case ni_stream it of None \<Rightarrow> (c, Ok ()) | Some s \<Rightarrow> nats_call (nt_delete_msg A s (ni_seq it)) c))"

definition nats_Ack :: "'b nats_api \<Rightarrow> 'b nats_held \<Rightarrow> 'b nats_held \<times> unit res" where
  "nats_Ack A h = ack_delete A (fst h) (snd h)"

definition nats_Nack :: "'b nats_api \<Rightarrow> 'b nats_held \<Rightarrow> 'b nats_held \<times> unit res" where
  "nats_Nack A h = map_prod (Pair (fst h)) id (nats_call (nt_nak A (ni_msg (fst h))) (snd h))"

text \<open>The delay is ignored.  The text of the error that reports a failed \<open>nak\<close> as well is left out.\<close>

definition nats_Requeue :: "'b nats_api \<Rightarrow> nats_json \<Rightarrow> headers \<Rightarrow> int \<Rightarrow> 'b nats_held \<Rightarrow> 'b nats_held \<times> unit res" where
  "nats_Requeue A J hs d h =
     (let it = (fst h)\<lparr>ji_headers := hs\<rparr> in
      case nats_requeue A J it (snd h) of
        (c, Ok _) \<Rightarrow> ack_delete A it c
      | (c, Err e) \<Rightarrow>
          (case nats_call (nt_nak A (ni_msg it)) c of
             (c', Ok _) \<Rightarrow> ((it, c'), Err e)
           | (c', _) \<Rightarrow> ((it, c'), Err (Str ''requeue error'')))
      | (c, r) \<Rightarrow> ((it, c), r))"

definition nats_Respond :: "'b nats_api \<Rightarrow> bytes \<Rightarrow> string \<Rightarrow> 'b nats_held \<Rightarrow> 'b nats_held \<times> unit res" where
  "nats_Respond A data q h = map_prod (Pair (fst h)) id (nats_respond A data q (snd h))"

section \<open>Consuming\<close>

definition listenerInit :: "'b nats_api \<Rightarrow> 'b nats_consumer \<Rightarrow> 'b nats_consumer \<times> unit res" where
  "listenerInit A c0 =
     (let (c, r) = nats_call (nt_subscribe A (nc_subject c0) (nc_deliver_new c0) (nc_rate c0)) c0
      in (c\<lparr>nc_sub := (case r of Ok s \<Rightarrow> Some s | _ \<Rightarrow> None)\<rparr>, map_res (\<lambda>_. ()) r))"

text \<open>
  One message of the listener.  A message without metadata, one whose progress cannot be announced and
  one that does not decode are skipped; an item without options is a nil dereference.
\<close>

definition nats_listen :: "'b nats_api \<Rightarrow> nats_json \<Rightarrow> nats_msg \<Rightarrow> 'b nats_consumer \<Rightarrow> 'b nats_consumer \<times> unit res" where
  "nats_listen A J m c0 =
     (case nt_meta A m of
        Inl e \<Rightarrow> (c0, Ok ())
      | Inr seq \<Rightarrow>
          (case nats_call (nt_progress A m) c0 of
             (c, Ok _) \<Rightarrow>
               (case nj_decode J (nm_data m) of
                  Inl e \<Rightarrow> (c, Ok ())
                | Inr (it, opts) \<Rightarrow>
                    if \<not> opts then (c, Panic)
                    else (c\<lparr>nc_queue := nc_queue c @ [jitem.extend
                            (if ji_priority it = 0 then it\<lparr>ji_priority := nc_priority c\<rparr> else it)
                            \<lparr>ni_msg = nm_ref m, ni_seq = seq, ni_stream = (if nc_delete_ack c then Some (nc_stream c) else None)\<rparr>]\<rparr>, Ok ()))
           | (c, _) \<Rightarrow> (c, Ok ())))"

definition nats_Register :: "pipeline \<Rightarrow> 'b nats_consumer \<Rightarrow> 'b nats_consumer \<times> unit res" where
  "nats_Register p c = (c\<lparr>nc_pipeline := Some p\<rparr>, Ok ())"

text \<open>The number of listeners is raised before the subscription is tried.\<close>

definition nats_Run :: "'b nats_api \<Rightarrow> pipeline \<Rightarrow> 'b nats_consumer \<Rightarrow> 'b nats_consumer \<times> unit res" where
  "nats_Run A p c0 =
     (let op = ''nats_run'' in
      case nc_pipeline c0 of
        None \<Rightarrow> (c0, Panic)
      | Some pipe \<Rightarrow>
          if pl_name pipe \<noteq> pl_name p then (c0, Err (EOp op (Str (''no such pipeline registered: '' @ pl_name pipe))))
          else if nc_listeners c0 = 1 then (c0, Ok ())
          else on_ok (wrapped op (listenerInit A (c0\<lparr>nc_listeners := nc_listeners c0 + 1\<rparr>))) (\<lambda>c _.
               (c\<lparr>nc_loops := nc_loops c + 1\<rparr>, Ok ())))"

text \<open>\<open>c.stopCh <- struct{}{}\<close> and the drain before it, whose error is only logged.\<close>

definition nats_halt :: "'b nats_api \<Rightarrow> 'b nats_consumer \<Rightarrow> 'b nats_consumer \<times> unit res" where
  "nats_halt A c0 =
     (let c = (case nc_sub c0 of None \<Rightarrow> c0 | Some s \<Rightarrow> fst (nats_call (nt_drain A s) c0)) in
      if nc_loops c = 0 then (c, Block) else (c\<lparr>nc_loops := nc_loops c - 1\<rparr>, Ok ()))"

definition nats_Pause :: "'b nats_api \<Rightarrow> 'b nats_consumer \<Rightarrow> 'b nats_consumer \<times> unit res" where
  "nats_Pause A c =
     (case nc_pipeline c of
        None \<Rightarrow> (c, Panic)
      | Some pipe \<Rightarrow>
          if nc_listeners c = 0 then (c, Ok ())
          else on_ok (nats_halt A (c\<lparr>nc_listeners := nc_listeners c - 1\<rparr>)) (\<lambda>c _. (c\<lparr>nc_sub := None\<rparr>, Ok ())))"

definition nats_Resume :: "'b nats_api \<Rightarrow> 'b nats_consumer \<Rightarrow> 'b nats_consumer \<times> unit res" where
  "nats_Resume A c0 =
     (case nc_pipeline c0 of
        None \<Rightarrow> (c0, Panic)
      | Some pipe \<Rightarrow>
          if nc_listeners c0 = 1 then (c0, Ok ())
          else (case listenerInit A c0 of
              (c, Ok _) \<Rightarrow> (c\<lparr>nc_loops := nc_loops c + 1, nc_listeners := nc_listeners c + 1\<rparr>, Ok ())
            | (c, _) \<Rightarrow> (c, Ok ())))"

definition nats_State :: "'b nats_api \<Rightarrow> 'b nats_consumer \<Rightarrow> jstate res" where
  "nats_State A c =
     (case nc_pipeline c of
        None \<Rightarrow> Panic
      | Some pipe \<Rightarrow>
          (let st = \<lparr>st_pipeline = pl_name pipe, st_driver = pl_driver pipe, st_queue = nc_subject c, st_active = 0,
                     st_delayed = 0, st_reserved = 0, st_ready = (nc_listeners c > 0)\<rparr> in
           case nc_sub c of
             None \<Rightarrow> Ok st
           | Some s \<Rightarrow>
               (case nt_info A s (nc_conn c) of
                  Inl e \<Rightarrow> Err e
                | Inr None \<Rightarrow> Ok st
                | Inr (Some (pending, waiting)) \<Rightarrow> Ok (st\<lparr>st_active := pending, st_reserved := waiting\<rparr>))))"

definition nats_Stop :: "'b nats_api \<Rightarrow> 'b nats_consumer \<Rightarrow> 'b nats_consumer \<times> unit res" where
  "nats_Stop A c0 =
     on_ok (if nc_listeners c0 > 0 then nats_halt A c0 else (c0, Ok ())) (\<lambda>c _.
     on_ok (if nc_delete_stop c then nats_call (nt_delete_stream A (nc_stream c)) c else (c, Ok ())) (\<lambda>c _.
     if nc_pipeline c = None then (c, Panic) else nats_call (nt_conn_drain A) c))"

definition nats_ops :: "'b nats_api \<Rightarrow> nats_json \<Rightarrow> 'b nats_consumer consumer_ops" where
  "nats_ops A J = \<lparr>c_push = (\<lambda>c j. nats_Push A J j c), c_register = (\<lambda>c p. nats_Register p c),
     c_run = (\<lambda>c p. nats_Run A p c), c_pause = (\<lambda>c _. nats_Pause A c), c_resume = (\<lambda>c _. nats_Resume A c),
     c_stop = nats_Stop A, c_state = nats_State A\<rparr>"

lemma nats_ops_simps [simp]:
  "c_push (nats_ops A J) c j = nats_Push A J j c" "c_register (nats_ops A J) c p = nats_Register p c"
  "c_run (nats_ops A J) c p = nats_Run A p c" "c_pause (nats_ops A J) c n = nats_Pause A c"
  "c_resume (nats_ops A J) c n = nats_Resume A c" "c_stop (nats_ops A J) c = nats_Stop A c"
  "c_state (nats_ops A J) c = nats_State A c"
  by (simp_all add: nats_ops_def)

section \<open>The driver keeps its registration\<close>

definition nats_ok :: "'b nats_consumer \<Rightarrow> bool" where
  "nats_ok c \<longleftrightarrow> (nc_pipeline c = None \<longrightarrow> nc_listeners c = 0)"

lemma nats_call_frame:
  "nats_call f c = (c', r) \<Longrightarrow> nc_pipeline c' = nc_pipeline c \<and> nc_listeners c' = nc_listeners c \<and> nc_loops c' = nc_loops c \<and> r \<noteq> Panic \<and> r \<noteq> Block"
  by (auto simp: nats_call_def split: prod.splits)

lemma listenerInit_frame:
  "listenerInit A c = (c', r) \<Longrightarrow> nc_pipeline c' = nc_pipeline c \<and> nc_listeners c' = nc_listeners c \<and> nc_loops c' = nc_loops c
     \<and> (r \<noteq> Ok () \<longrightarrow> nc_sub c' = None)"
  by (auto simp: listenerInit_def nats_call_def Let_def map_res_def split: prod.splits res.splits)

lemma nats_halt_frame:
  "nats_halt A c = (c', r) \<Longrightarrow> nc_pipeline c' = nc_pipeline c \<and> nc_listeners c' = nc_listeners c"
  by (auto simp: nats_halt_def nats_call_def Let_def split: prod.splits option.splits if_splits)

lemma nats_Push_frame:
  "nats_Push A J j c = (c', r) \<Longrightarrow> nc_pipeline c' = nc_pipeline c \<and> nc_listeners c' = nc_listeners c"
  by (cases "nj_job J j") (auto simp: nats_Push_def nats_call_def Let_def split: prod.splits if_splits)

lemma nats_Run_frame: "nats_Run A p c = (c', r) \<Longrightarrow> nc_pipeline c' = nc_pipeline c"
proof -
  obtain c1 r1 where "listenerInit A (c\<lparr>nc_listeners := nc_listeners c + 1\<rparr>) = (c1, r1)" by fastforce
  moreover assume "nats_Run A p c = (c', r)"
  ultimately show ?thesis
    using listenerInit_frame [of A "c\<lparr>nc_listeners := nc_listeners c + 1\<rparr>" c1 r1]
    by (cases r1) (auto simp: nats_Run_def Let_def split: option.splits if_splits)
qed

lemma nats_Pause_frame: "nats_Pause A c = (c', r) \<Longrightarrow> nc_pipeline c' = nc_pipeline c"
proof -
  obtain c1 r1 where "nats_halt A (c\<lparr>nc_listeners := nc_listeners c - 1\<rparr>) = (c1, r1)" by fastforce
  moreover assume "nats_Pause A c = (c', r)"
  ultimately show ?thesis
    using nats_halt_frame [of A "c\<lparr>nc_listeners := nc_listeners c - 1\<rparr>" c1 r1]
    by (cases r1) (auto simp: nats_Pause_def split: option.splits if_splits)
qed

lemma nats_Resume_frame: "nats_Resume A c = (c', r) \<Longrightarrow> nc_pipeline c' = nc_pipeline c"
proof -
  obtain c1 r1 where "listenerInit A c = (c1, r1)" by fastforce
  moreover assume "nats_Resume A c = (c', r)"
  ultimately show ?thesis
    using listenerInit_frame [of A c c1 r1] by (cases r1) (auto simp: nats_Resume_def split: option.splits if_splits)
qed

interpretation nats_driver: consumer_core "nats_ops A J" nats_ok nc_pipeline for A :: "'b nats_api" and J
proof unfold_locales
  fix c c' :: "'b nats_consumer" and p r
  assume "nats_ok c" "c_register (nats_ops A J) c p = (c', r)"
  then show "r = Ok () \<and> nats_ok c' \<and> nc_pipeline c' = Some p \<and> (\<not> ready (nats_ops A J) c \<longrightarrow> \<not> ready (nats_ops A J) c')"
    by (auto simp: nats_Register_def nats_ok_def ready_def nats_State_def Let_def split: sum.splits option.splits)
next
  fix c c' :: "'b nats_consumer" and j r
  assume "nats_ok c" "c_push (nats_ops A J) c j = (c', r)"
  then show "nats_ok c' \<and> nc_pipeline c' = nc_pipeline c" using nats_Push_frame [of A J j c c' r] by (auto simp: nats_ok_def)
next
  fix c :: "'b nats_consumer" and p
  assume "nats_ok c" "nc_pipeline c = Some p"
  then show "(\<exists>st. c_state (nats_ops A J) c = Ok st \<and> st_pipeline st = pl_name p \<and> st_driver st = pl_driver p)
      \<or> is_err (c_state (nats_ops A J) c)"
    by (simp add: nats_State_def Let_def split: sum.split option.split prod.split)
qed (auto simp: nats_ok_def dest: nats_Run_frame nats_Pause_frame nats_Resume_frame)

section \<open>Properties\<close>

text \<open>
  C15: When the subscription of a pipeline that is being started fails, the pipeline is reported as ready
  although nothing listens: starting and resuming it again do nothing, and pausing or stopping it blocks
  forever.
\<close>

theorem nats_failed_run:
  assumes "nc_pipeline c = Some p" "nc_listeners c = 0" "nc_loops c = 0" "nats_Run A p c = (c', Err e)"
  shows "(\<exists>st. nats_State A c' = Ok st \<and> st_ready st) \<and> nc_loops c' = 0
    \<and> nats_Run A p c' = (c', Ok ()) \<and> nats_Resume A c' = (c', Ok ())
    \<and> snd (nats_Pause A c') = Block \<and> snd (nats_Stop A c') = Block"
proof -
  let ?c = "c\<lparr>nc_listeners := 1\<rparr>"
  obtain c1 r1 where 1: "listenerInit A ?c = (c1, r1)" by fastforce
  with assms have c': "c' = c1" "r1 \<noteq> Ok ()" by (cases r1; auto simp: nats_Run_def)+
  with listenerInit_frame [OF 1] assms(1,3)
  have f: "nc_pipeline c' = Some p" "nc_listeners c' = 1" "nc_loops c' = 0" "nc_sub c' = None" by simp_all
  then show ?thesis
    by (simp add: nats_State_def nats_Run_def nats_Resume_def nats_Pause_def nats_Stop_def nats_halt_def word_greater_zero_iff)
qed

text \<open>A client whose state is the set of the messages it holds; \<open>up\<close> says whether subscriptions succeed.\<close>

definition sample_nats_api :: "bool \<Rightarrow> nat set nats_api" where
  "sample_nats_api up = \<lparr>nt_connect = (\<lambda>_ b. (b, Inr ())), nt_jetstream = (\<lambda>b. (b, Inr ())), nt_stream_info = (\<lambda>_ _. Inr ()),
     nt_not_found = (\<lambda>_. False), nt_add_stream = (\<lambda>_ _ b. (b, Inr ())), nt_publish = (\<lambda>_ _ b. (b, Inr ())),
     nt_delete_msg = (\<lambda>_ n b. if n \<in> b then (b - {n}, Inr ()) else (b, Inl (Str ''no message found''))),
     nt_subscribe = (\<lambda>_ _ _ b. (b, if up then Inr 1 else Inl (Str ''no responders''))), nt_drain = (\<lambda>_ b. (b, Inr ())),
     nt_info = (\<lambda>_ _. Inr None), nt_delete_stream = (\<lambda>_ b. (b, Inr ())), nt_conn_drain = (\<lambda>b. (b, Inr ())),
     nt_conn_publish = (\<lambda>_ _ b. (b, Inr ())), nt_meta = (\<lambda>m. Inr (nm_ref m)), nt_progress = (\<lambda>_ b. (b, Inr ())),
     nt_ack = (\<lambda>_ b. (b, Inr ())), nt_nak = (\<lambda>_ b. (b, Inr ()))\<rparr>"

definition sample_nats :: "nat set nats_consumer" where
  "sample_nats = \<lparr>nc_queue = [], nc_listeners = 0, nc_pipeline = Some sample_remote_pipeline, nc_conn = {4}, nc_sub = None, nc_priority = 10,
     nc_subject = ''s'', nc_stream = ''st'', nc_prefetch = 10, nc_rate = 1000, nc_delete_ack = True, nc_deliver_new = False,
     nc_delete_stop = False, nc_loops = 0\<rparr>"

definition sample_nitem :: nitem where
  "sample_nitem = jitem.extend (fromJob (sample_remote_job\<lparr>job_options := \<lparr>op_priority = 1, op_pipeline = ''p'', op_delay = 0\<rparr>\<rparr>))
     \<lparr>ni_msg = 4, ni_seq = 4, ni_stream = Some ''st''\<rparr>"

theorem nats_failed_run_witness:
  "\<exists>c'. nats_Run (sample_nats_api False) sample_remote_pipeline sample_nats = (c', Err (EOp ''nats_run'' (Str ''no responders'')))
     \<and> snd (nats_Stop (sample_nats_api False) c') = Block"
proof -
  obtain c' where run: "nats_Run (sample_nats_api False) sample_remote_pipeline sample_nats = (c', Err (EOp ''nats_run'' (Str ''no responders'')))"
    by (simp add: nats_Run_def listenerInit_def nats_call_def sample_nats_api_def sample_nats_def map_res_def)
  have "nc_pipeline sample_nats = Some sample_remote_pipeline" "nc_listeners sample_nats = 0" "nc_loops sample_nats = 0"
    by (simp_all add: sample_nats_def)
  from nats_failed_run [OF this run] run show ?thesis by blast
qed

text \<open>Deleting a message a second time fails, also when it was acknowledged in between.\<close>

definition deletes_once :: "'b nats_api \<Rightarrow> bool" where
  "deletes_once A \<longleftrightarrow> (\<forall>s n b b1 tag. nt_delete_msg A s n b = (b1, Inr ()) \<longrightarrow> isl (snd (nt_delete_msg A s n (fst (nt_ack A tag b1)))))"

text \<open>
  With deletion after \<open>Ack\<close> a requeue reports an error although the job was published again, the old
  message deleted and the delivery acknowledged: the old message is deleted twice.
\<close>

theorem nats_requeue_reports_error:
  assumes "deletes_once A" "ni_stream it = Some (nc_stream c)" "ji_delay it \<le> 0"
    and "nj_item J (jitem.truncate (it\<lparr>ji_headers := hs\<rparr>)) = Inr data"
    and "nt_publish A (nc_subject c) data (nc_conn c) = (b1, Inr ())" "nt_delete_msg A (nc_stream c) (ni_seq it) b1 = (b2, Inr ())"
    and "nt_ack A (ni_msg it) b2 = (b3, Inr ())"
  shows "is_err (snd (nats_Requeue A J hs d (it, c)))"
proof -
  obtain b4 e where "nt_delete_msg A (nc_stream c) (ni_seq it) b3 = (b4, Inl e)"
    using assms(1,6,7) unfolding deletes_once_def by (metis fst_conv isl_def prod.collapse)
  with assms(2-) show ?thesis
    by (simp add: nats_Requeue_def nats_requeue_def nats_call_def ack_delete_def)
qed

theorem nats_requeue_reports_error_witness:
  "let J = \<lparr>nj_job = (\<lambda>_. Inr []), nj_item = (\<lambda>_. Inr ''x''), nj_decode = (\<lambda>_. Inl (Str []))\<rparr> in
   is_err (snd (nats_Requeue (sample_nats_api True) J Map.empty 7 (sample_nitem, sample_nats)))"
proof -
  have "deletes_once (sample_nats_api True)" by (simp add: deletes_once_def sample_nats_api_def)
  then show ?thesis
    unfolding Let_def
    by (rule nats_requeue_reports_error [where data = "''x''" and ?b1.0 = "{4}" and ?b2.0 = "{}" and ?b3.0 = "{}"])
      (simp_all add: sample_nats_api_def sample_nats_def sample_nitem_def sample_remote_job_def fromJob_def jitem.defs)
qed

end
