(* ===== verification/Remote_System.thy ===== *)
theory Remote_System
  imports Jobs_System Amqp_Jobs Sqs_Jobs Nats_Jobs
begin

text \<open>
  The jobs plugin with five of its drivers plugged in: memory, boltdb, amqp, sqs and nats.  The remote
  drivers keep only the weaker contract \<open>consumer_core\<close>, and so does the sum of all of them; it is
  enough for the bookkeeping of the plugin.

  A consumer holds its own view of the broker, which starts as \<open>bk\<close> of its configuration key or
  pipeline; since that view may fix every later answer, a statement for all views covers whatever the
  broker and its other clients do.
\<close>

section \<open>Constructors\<close>

definition amqp_constructor ::
  "'b amqp_api \<Rightarrow> string \<Rightarrow> (string \<Rightarrow> 'b) \<Rightarrow> (string \<Rightarrow> bool) \<Rightarrow> (string \<Rightarrow> error + amqp_config) \<Rightarrow> 'b amqp_consumer constructor"
where
  "amqp_constructor A uid bk has cfg = \<lparr>
     ConsumerFromConfig = (\<lambda>key. NewAMQPConsumer A uid (bk key) key (has key) (has ''amqp'') (cfg key)),
     ConsumerFromPipeline = (\<lambda>p. amqp_FromPipeline A uid (bk (pl_name p)) (has ''amqp'') (cfg ''amqp'') p)\<rparr>"

definition sqs_constructor ::
  "'b sqs_api \<Rightarrow> error + unit \<Rightarrow> (string \<Rightarrow> 'b) \<Rightarrow> bool \<Rightarrow> (string \<Rightarrow> bool) \<Rightarrow> (string \<Rightarrow> error + sqs_config) \<Rightarrow> error option \<Rightarrow>
   (pipeline \<Rightarrow> error + (string \<rightharpoonup> string) \<times> (string \<rightharpoonup> string)) \<Rightarrow> 'b sqs_consumer constructor"
where
  "sqs_constructor A load bk aws has cfg unm maps = \<lparr>
     ConsumerFromConfig = (\<lambda>key. NewSQSConsumer A load (bk key) aws key (has key) (has ''sqs'') (cfg key)),
     ConsumerFromPipeline = (\<lambda>p. sqs_FromPipeline A load (bk (pl_name p)) aws (has ''sqs'') unm (maps p) p)\<rparr>"

definition nats_constructor ::
  "'b nats_api \<Rightarrow> string \<Rightarrow> (string \<Rightarrow> 'b) \<Rightarrow> (string \<Rightarrow> bool) \<Rightarrow> (string \<Rightarrow> error + nats_config option) \<Rightarrow> 'b nats_consumer constructor"
where
  "nats_constructor A url bk has cfg = \<lparr>
     ConsumerFromConfig = (\<lambda>key. nats_FromConfig A url (bk key) key (has key) (has ''nats'') (cfg key)),
     ConsumerFromPipeline = (\<lambda>p. nats_FromPipeline A url (bk (pl_name p)) (has ''nats'') (cfg ''nats'') p)\<rparr>"

text \<open>A driver hands out consumers that keep the invariant and do not listen yet.\<close>

definition constructor_ok :: "'c consumer_ops \<Rightarrow> ('c \<Rightarrow> bool) \<Rightarrow> 'c constructor \<Rightarrow> bool" where
  "constructor_ok ops I con \<longleftrightarrow> (\<forall>p c. ConsumerFromPipeline con p = Ok c \<longrightarrow> I c \<and> \<not> ready ops c)
     \<and> (\<forall>key c. ConsumerFromConfig con key = Ok c \<longrightarrow> I c \<and> \<not> ready ops c)"

lemma constructors_ok_collect:
  "constructors_ok ops I P \<Longrightarrow> constructor_ok ops I con \<Longrightarrow> constructors_ok ops I (CollectMQBrokers name con P)"
  by (auto simp: constructors_ok_def constructor_ok_def CollectMQBrokers_def)

lemma constructor_ok_as:
  "constructor_ok o1 I1 con \<Longrightarrow> (\<And>c. I1 c \<Longrightarrow> \<not> ready o1 c \<Longrightarrow> I2 (f c) \<and> \<not> ready o2 (f c)) \<Longrightarrow> constructor_ok o2 I2 (as_consumer f con)"
  by (auto simp: constructor_ok_def as_consumer_def map_res_Ok)

lemma amqp_not_ready: "ac_listeners c = 0 \<Longrightarrow> \<not> ready (amqp_ops A J K don) c"
  by (auto simp: ready_def amqp_State_def Let_def split: option.split sum.split)

lemma sqs_not_ready: "sc_listeners c = 0 \<Longrightarrow> \<not> ready (sqs_ops A J K) c"
  by (auto simp: ready_def sqs_State_def split: option.split sum.split)

lemma nats_not_ready: "nc_listeners c = 0 \<Longrightarrow> \<not> ready (nats_ops A J) c"
  by (auto simp: ready_def nats_State_def Let_def split: option.split sum.split)

lemma amqp_connect_listeners: "amqp_connect op A c0 = Ok c \<Longrightarrow> ac_listeners c = ac_listeners c0"
proof -
  let ?m = "on_ok (wrapped op (amqp_call (am_dial A (ac_addr c0)) c0)) (\<lambda>c _.
     on_ok (wrapped op (initRabbitMQ A c)) (\<lambda>c _. wrapped op (amqp_call (am_channel A) c)))"
  have "same_driver c0 (fst ?m)" by (intro inv_intros) simp
  moreover assume "amqp_connect op A c0 = Ok c"
  then obtain c1 pch where "?m = (c1, Ok pch)" "c = c1\<lparr>ac_publish := Some pch, ac_redialer := True\<rparr>"
    by (auto simp: amqp_connect_def split: prod.splits res.splits)
  ultimately show ?thesis by (simp add: same_driver_def)
qed

lemma amqp_constructor_ok: "constructor_ok (amqp_ops A J K don) amqp_ok (amqp_constructor A uid bk has cfg)"
proof -
  have "amqp_ok c \<and> \<not> ready (amqp_ops A J K don) c" if "ac_listeners c = 0" for c
    using that by (simp add: amqp_ok_def amqp_not_ready)
  then show ?thesis
    by (auto simp: constructor_ok_def amqp_constructor_def NewAMQPConsumer_def amqp_FromPipeline_def map_res_Ok amqp_Register_def Let_def
        dest: amqp_connect_listeners split: if_splits sum.splits)
qed

lemma sqs_connect_listeners: "sqs_connect op A load c0 = Ok c \<Longrightarrow> sc_listeners c = sc_listeners c0"
  by (auto simp: sqs_connect_def sqs_call_def split: prod.splits res.splits sum.splits)

lemma sqs_constructor_ok: "constructor_ok (sqs_ops A J K) sqs_ok (sqs_constructor A load bk aws has cfg unm maps)"
proof -
  have "sqs_ok c \<and> \<not> ready (sqs_ops A J K) c" if "sc_listeners c = 0" for c
    using that by (simp add: sqs_ok_def sqs_not_ready)
  then show ?thesis
    by (auto simp: constructor_ok_def sqs_constructor_def NewSQSConsumer_def sqs_FromPipeline_def Let_def
        dest: sqs_connect_listeners split: if_splits sum.splits prod.splits)
qed

lemma nats_ensure_listeners: "nats_ensure_stream A c = (c', r) \<Longrightarrow> nc_listeners c' = nc_listeners c"
  by (auto simp: nats_ensure_stream_def dest: nats_call_frame split: sum.splits if_splits)

lemma nats_connect_listeners:
  assumes "nats_connect A addr c0 = Ok c"
  shows "nc_listeners c = nc_listeners c0"
proof -
  from assms obtain u where "on_ok (nats_call (nt_connect A addr) c0) (\<lambda>c _. on_ok (nats_call (nt_jetstream A) c) (\<lambda>c _. nats_ensure_stream A c)) = (c, Ok u)"
    by (auto simp: nats_connect_def wrapped_def prod_eq_iff split: res.splits if_splits)
  then show ?thesis by (auto simp: on_ok_Ok dest!: nats_call_frame nats_ensure_listeners)
qed

lemma nats_constructor_ok: "constructor_ok (nats_ops A J) nats_ok (nats_constructor A url bk has cfg)"
proof -
  have "nats_ok c \<and> \<not> ready (nats_ops A J) c" if "nc_listeners c = 0" for c
    using that by (simp add: nats_ok_def nats_not_ready)
  then show ?thesis
    by (auto simp: constructor_ok_def nats_constructor_def nats_FromConfig_def nats_FromPipeline_def Let_def
        dest!: nats_connect_listeners split: if_splits sum.splits option.splits)
qed

section \<open>The plugin with all of them\<close>

record ('d, 'a, 's, 'n) brokers =
  br_bolt :: "('d, bval) bolt_api"
  br_amqp :: "'a amqp_api"
  br_sqs :: "'s sqs_api"
  br_nats :: "'n nats_api"
  br_json :: header_json
  br_keys :: rr_keys
  br_njson :: nats_json

type_synonym ('d, 'a, 's, 'n) any_consumer =
  "(mem_consumer + 'd bolt_consumer) + ('a amqp_consumer + ('s sqs_consumer + 'n nats_consumer))"

definition any_ops :: "('d, 'a, 's, 'n) brokers \<Rightarrow> string option \<Rightarrow> bool \<Rightarrow> int \<Rightarrow> bool \<Rightarrow> ('d, 'a, 's, 'n) any_consumer consumer_ops" where
  "any_ops E ctx idle now don =
     sum_ops (driver_ops ctx idle (br_bolt E) now)
       (sum_ops (amqp_ops (br_amqp E) (br_json E) (br_keys E) don)
         (sum_ops (sqs_ops (br_sqs E) (br_json E) (br_keys E)) (nats_ops (br_nats E) (br_njson E))))"

definition any_ok :: "('d, 'a, 's, 'n) any_consumer \<Rightarrow> bool" where
  "any_ok = case_sum (case_sum mem_ok bolt_ok) (case_sum amqp_ok (case_sum sqs_ok nats_ok))"

definition any_pipeline :: "('d, 'a, 's, 'n) any_consumer \<Rightarrow> pipeline option" where
  "any_pipeline = case_sum (case_sum mc_pipeline bc_pipeline) (case_sum ac_pipeline (case_sum sc_pipeline nc_pipeline))"

interpretation any_driver: consumer_core "any_ops E ctx idle now don" any_ok any_pipeline
  for E :: "('d, 'a, 's, 'n) brokers" and ctx idle now don
  unfolding any_ops_def any_ok_def any_pipeline_def
  by (intro sum_core drivers.consumer_core_axioms amqp_driver.consumer_core_axioms sqs_driver.consumer_core_axioms
      nats_driver.consumer_core_axioms)

definition all_drivers ::
  "mem_consumer constructor \<Rightarrow> 'd bolt_consumer constructor \<Rightarrow> 'a amqp_consumer constructor \<Rightarrow> 's sqs_consumer constructor \<Rightarrow>
   'n nats_consumer constructor \<Rightarrow> ('d, 'a, 's, 'n) any_consumer plugin \<Rightarrow> ('d, 'a, 's, 'n) any_consumer plugin"
where
  "all_drivers m b a s n P =
     CollectMQBrokers ''nats'' (as_consumer (\<lambda>c. Inr (Inr (Inr c))) n)
     (CollectMQBrokers ''sqs'' (as_consumer (\<lambda>c. Inr (Inr (Inl c))) s)
     (CollectMQBrokers ''amqp'' (as_consumer (\<lambda>c. Inr (Inl c)) a)
     (CollectMQBrokers ''boltdb'' (as_consumer (\<lambda>c. Inl (Inr c)) b)
     (CollectMQBrokers ''memory'' (as_consumer (\<lambda>c. Inl (Inl c)) m) P))))"

lemma mem_constructor_ok: "constructor_ok (mem_ops ctx idle) mem_ok (mem_constructor u)"
  by (auto simp: constructor_ok_def mem_constructor_def mem_FromPipeline_def
      dest: mem_FromConfig_ok [where ctx = ctx and idle = idle] new_mem_consumer_ok [where ctx = ctx and idle = idle])

lemma bolt_constructor_ok: "constructor_ok (bolt_ops A now) bolt_ok (bolt_constructor A opn has cfg unm)"
  by (auto simp: constructor_ok_def bolt_constructor_def dest: bolt_constructed [where A' = A and now = now])

lemma collect_frame [simp]:
  "pg_consumers (CollectMQBrokers name con P) = pg_consumers P" "names_ok (CollectMQBrokers name con P) = names_ok P"
  by (simp_all add: CollectMQBrokers_def names_ok_def)

lemma all_drivers_good:
  assumes "jobs_Init n (Some (Ok cfg)) = Ok P"
    and "constructor_ok (mem_ops ctx idle) mem_ok m" "constructor_ok (bolt_ops (br_bolt E) now) bolt_ok b"
    and "constructor_ok (amqp_ops (br_amqp E) (br_json E) (br_keys E) don) amqp_ok a"
    and "constructor_ok (sqs_ops (br_sqs E) (br_json E) (br_keys E)) sqs_ok s" "constructor_ok (nats_ops (br_nats E) (br_njson E)) nats_ok t"
  shows "plugin_ok (any_ops E ctx idle now don) any_ok any_pipeline (all_drivers m b a s t P)"
proof -
  let ?o = "any_ops E ctx idle now don"
  have c: "constructor_ok ?o any_ok (as_consumer (\<lambda>c. Inl (Inl c)) m)" "constructor_ok ?o any_ok (as_consumer (\<lambda>c. Inl (Inr c)) b)"
    "constructor_ok ?o any_ok (as_consumer (\<lambda>c. Inr (Inl c)) a)" "constructor_ok ?o any_ok (as_consumer (\<lambda>c. Inr (Inr (Inl c))) s)"
    "constructor_ok ?o any_ok (as_consumer (\<lambda>c. Inr (Inr (Inr c))) t)"
    by (rule constructor_ok_as [OF assms(2)] constructor_ok_as [OF assms(3)] constructor_ok_as [OF assms(4)]
        constructor_ok_as [OF assms(5)] constructor_ok_as [OF assms(6)]; simp add: any_ops_def any_ok_def)+
  have "constructors_ok ?o any_ok P" using jobs_Init_result [OF assms(1)] by (simp add: constructors_ok_def)
  with c have "constructors_ok ?o any_ok (all_drivers m b a s t P)"
    unfolding all_drivers_def by (intro constructors_ok_collect)
  with jobs_Init_result [OF assms(1)] show ?thesis
    by (simp add: plugin_ok_def consumers_ok_def all_drivers_def)
qed

text \<open>
  C9: With the memory, boltdb, amqp, sqs and nats drivers, after start-up and any sequence of pushes,
  batches, pauses, resumes, declarations and destructions, and whatever the database and the brokers
  answer, \<open>JobsState\<close> neither panics nor blocks: it reports one state for every consumer, in the order
  of the iteration and under the name of its pipeline, or it is the error of one of the consumers.
\<close>

theorem jobs_state_remote:
  assumes "jobs_Init n (Some (Ok cfg)) = Ok P0"
    and "serve_pipelines (any_ops E ctx idle now don) ks
        (all_drivers (mem_constructor u) (bolt_constructor (br_bolt E) opn has bcfg unm) (amqp_constructor (br_amqp E) uid abk has acfg)
          (sqs_constructor (br_sqs E) load sbk aws has scfg sunm maps) (nats_constructor (br_nats E) url nbk has ncfg) P0) = (P1, r)"
    and "P = serve_calls (any_ops E ctx idle now don) calls P1"
  shows "(\<exists>sts. JobsState (any_ops E ctx idle now don) ks' P = Ok sts \<and> map st_pipeline sts = filter (\<lambda>k. pg_consumers P k \<noteq> None) ks')
    \<or> is_err (JobsState (any_ops E ctx idle now don) ks' P)
      \<and> (\<exists>k \<in> set ks'. \<exists>c. pg_consumers P k = Some c \<and> is_err (c_state (any_ops E ctx idle now don) c))"
proof -
  have "plugin_ok (any_ops E ctx idle now don) any_ok any_pipeline P"
    using any_driver.kept_pipelines [OF all_drivers_good [OF assms(1) mem_constructor_ok bolt_constructor_ok amqp_constructor_ok
          sqs_constructor_ok nats_constructor_ok] assms(2)]
      any_driver.serve_calls_ok assms(3) by blast
  from any_driver.jobs_states_kept [OF this, of ks'] show ?thesis by (auto simp: JobsState_def)
qed

definition sample_sqs_api :: "unit sqs_api" where
  "sample_sqs_api = \<lparr>sq_create = (\<lambda>q _ _ b. (b, Inr q)), sq_send = (\<lambda>_ b. (b, Inr ())), sq_receive = (\<lambda>_ _ _ _ b. (b, Inr [])),
     sq_delete = (\<lambda>_ _ b. (b, Inr ())), sq_attributes = (\<lambda>_ _. Inr Map.empty), sq_missing = (\<lambda>_. False)\<rparr>"

definition sample_brokers :: "(string \<Rightarrow> (string \<times> bval) list, unit, unit, nat set) brokers" where
  "sample_brokers = \<lparr>br_bolt = list_bolt, br_amqp = sample_broker False, br_sqs = sample_sqs_api, br_nats = sample_nats_api True,
     br_json = sample_json, br_keys = sample_keys,
     br_njson = \<lparr>nj_job = (\<lambda>_. Inr []), nj_item = (\<lambda>_. Inr []), nj_decode = (\<lambda>_. Inl (Str []))\<rparr>\<rparr>"

definition sample_all ::
  "(string \<Rightarrow> (string \<times> bval) list, unit, unit, nat set) any_consumer plugin \<Rightarrow> (string \<Rightarrow> (string \<times> bval) list, unit, unit, nat set) any_consumer plugin"
where
  "sample_all P = all_drivers (mem_constructor (\<lambda>_. Ok None))
     (bolt_constructor (br_bolt sample_brokers) (\<lambda>_ _. Ok (\<lambda>_. [])) (\<lambda>_. True) (\<lambda>_. Err (Str [])) None)
     (amqp_constructor (br_amqp sample_brokers) ''id'' (\<lambda>_. ()) (\<lambda>_. True) (\<lambda>_. Inl (Str [])))
     (sqs_constructor (br_sqs sample_brokers) (Inr ()) (\<lambda>_. ()) False (\<lambda>_. True) (\<lambda>_. Inl (Str [])) None (\<lambda>_. Inr (Map.empty, Map.empty)))
     (nats_constructor (br_nats sample_brokers) ''url'' (\<lambda>_. {}) (\<lambda>_. True) (\<lambda>_. Inr None)) P"

theorem jobs_state_remote_witness:
  "\<exists>P0. jobs_Init 4 (Some (Ok sample_config)) = Ok P0
     \<and> (let P = serve_calls (any_ops sample_brokers None True 0 False)
              [CallDeclare (sample_remote_pipeline\<lparr>pl_driver := ''sqs''\<rparr>), CallPause ''p''] (sample_all P0)
        in JobsState (any_ops sample_brokers None True 0 False) [''p''] P \<noteq> Panic
         \<and> JobsState (any_ops sample_brokers None True 0 False) [''p''] P \<noteq> Block)"
proof -
  let ?o = "any_ops sample_brokers None True 0 False"
    and ?calls = "[CallDeclare (sample_remote_pipeline\<lparr>pl_driver := ''sqs''\<rparr>), CallPause ''p'']"
  obtain P0 :: "(string \<Rightarrow> (string \<times> bval) list, unit, unit, nat set) any_consumer plugin" where
    i: "jobs_Init 4 (Some (Ok sample_config)) = Ok P0" using sample_Init by blast
  have s: "serve_pipelines ?o [] (sample_all P0) = (sample_all P0, Ok ())" by simp
  from jobs_state_remote [OF i s [unfolded sample_all_def] refl, of "[''p'']" ?calls] i show ?thesis
    unfolding Let_def sample_all_def by (metis is_err.simps(3,4) res.distinct(3,5))
qed

end
