(* ===== verification/Beanstalk_Jobs.thy ===== *)
theory Beanstalk_Jobs
  imports Jobs_Remote
begin

text \<open>
  The beanstalk jobs driver (\<open>beanstalk/beanstalkjobs\<close>) with its connection pool, which reconnects when
  a connection is lost and then repeats the call once.  The client library is the record \<open>bs_api\<close>;
  connections are numbers.  \<open>bs_lost\<close> recognises the errors of a broken connection and gives the text
  that is reported for them.  Repeating with a back-off is the number \<open>n\<close> of attempts that fit.

  A body is a gob-encoded item, with or without its options, or other bytes that do not decode.  \<open>bn_tokens\<close> is the number of
  tokens in the stop channel, whose capacity is two, and \<open>bn_loops\<close> the number of listener goroutines.
\<close>

section \<open>The connection pool\<close>

datatype bs_body = BItem jitem | BNoOptions | BRaw bytes

record 'b bs_api =
  bs_dial :: "string \<Rightarrow> string \<Rightarrow> int \<Rightarrow> ('b, nat) rpc"
  bs_put :: "nat \<Rightarrow> string \<Rightarrow> bs_body \<Rightarrow> u32 \<Rightarrow> int \<Rightarrow> int \<Rightarrow> ('b, nat) rpc"
  bs_reserve :: "nat \<Rightarrow> string \<Rightarrow> int \<Rightarrow> ('b, nat \<times> bs_body) rpc"
  bs_delete :: "nat \<Rightarrow> nat \<Rightarrow> ('b, unit) rpc"
  bs_stats :: "nat \<Rightarrow> ('b, string \<rightharpoonup> string) rpc"
  bs_close :: "nat \<Rightarrow> ('b, unit) rpc"
  bs_lost :: "error \<Rightarrow> string option"
  bs_text :: "error \<Rightarrow> string"

text \<open>\<open>cp_conn\<close> serves the reservations, \<open>cp_connT\<close> the puts.\<close>

record 'b conn_pool =
  cp_broker :: 'b
  cp_conn :: nat
  cp_connT :: nat
  cp_network :: string
  cp_address :: string
  cp_tube :: string
  cp_tout :: int

definition cp_rpc :: "('b, 'a) rpc \<Rightarrow> 'b conn_pool \<Rightarrow> 'b conn_pool \<times> 'a res" where
  "cp_rpc f p = (let (b, r) = f (cp_broker p) in (p\<lparr>cp_broker := b\<rparr>, reply r))"

text \<open>Two connections; a first one that was opened before the second failed is dropped.\<close>

definition dial_pair :: "'b bs_api \<Rightarrow> 'b conn_pool \<Rightarrow> 'b conn_pool \<times> unit res" where
  "dial_pair A p0 =
     on_ok (cp_rpc (bs_dial A (cp_network p0) (cp_address p0) (cp_tout p0)) p0) (\<lambda>p t.
     on_ok (cp_rpc (bs_dial A (cp_network p) (cp_address p) (cp_tout p)) p) (\<lambda>p ts.
     (p\<lparr>cp_connT := t, cp_conn := ts\<rparr>, Ok ())))"

definition NewConnPool :: "'b bs_api \<Rightarrow> 'b \<Rightarrow> string \<Rightarrow> string \<Rightarrow> string \<Rightarrow> int \<Rightarrow> 'b conn_pool \<times> unit res" where
  "NewConnPool A b network address tube tout =
     dial_pair A \<lparr>cp_broker = b, cp_conn = 0, cp_connT = 0, cp_network = network, cp_address = address, cp_tube = tube, cp_tout = tout\<rparr>"

fun bs_redial :: "'b bs_api \<Rightarrow> nat \<Rightarrow> error \<Rightarrow> 'b conn_pool \<Rightarrow> 'b conn_pool \<times> unit res" where
  "bs_redial A 0 e p = (p, Err e)"
| "bs_redial A (Suc n) e p =
     (case dial_pair A p of
        (p', Err e') \<Rightarrow> bs_redial A n e' p'
      | r \<Rightarrow> r)"

definition checkAndRedial :: "'b bs_api \<Rightarrow> nat \<Rightarrow> error \<Rightarrow> 'b conn_pool \<Rightarrow> 'b conn_pool \<times> unit res" where
  "checkAndRedial A n err p =
     (case bs_lost A err of
        None \<Rightarrow> (p, Err err)
      | Some text \<Rightarrow>
          (case bs_redial A n err p of
             (p', Err eR) \<Rightarrow> (p', Err (EOp ''connection_pool_check_redial'' (Str (text @ '':'' @ bs_text A eR))))
           | r \<Rightarrow> r))"

text \<open>The shape of \<open>Put\<close>, \<open>Reserve\<close>, \<open>Delete\<close> and \<open>Stats\<close>: \<open>f\<close> reads the connection from the pool, so the second call uses the new one.\<close>

definition with_redial :: "'b bs_api \<Rightarrow> nat \<Rightarrow> ('b conn_pool \<Rightarrow> ('b, 'a) rpc) \<Rightarrow> 'b conn_pool \<Rightarrow> 'b conn_pool \<times> 'a res" where
  "with_redial A n f p0 =
     (case cp_rpc (f p0) p0 of
        (p, Err err) \<Rightarrow>
          (case checkAndRedial A n err p of
             (p', Ok _) \<Rightarrow> cp_rpc (f p') p'
           | (p', Err eN) \<Rightarrow> (p', Err (Str (''err: '' @ bs_text A err @ [CHR 0x0A] @ ''err redial: '' @ bs_text A eN)))
           | (p', Panic) \<Rightarrow> (p', Panic)
           | (p', Block) \<Rightarrow> (p', Block))
      | r \<Rightarrow> r)"

definition cp_Put :: "'b bs_api \<Rightarrow> nat \<Rightarrow> bs_body \<Rightarrow> u32 \<Rightarrow> int \<Rightarrow> int \<Rightarrow> 'b conn_pool \<Rightarrow> 'b conn_pool \<times> nat res" where
  "cp_Put A n body pri delay ttr p = with_redial A n (\<lambda>p. bs_put A (cp_connT p) (cp_tube p) body pri delay ttr) p"

definition cp_Reserve :: "'b bs_api \<Rightarrow> nat \<Rightarrow> int \<Rightarrow> 'b conn_pool \<Rightarrow> 'b conn_pool \<times> (nat \<times> bs_body) res" where
  "cp_Reserve A n tmo p = with_redial A n (\<lambda>p. bs_reserve A (cp_conn p) (cp_tube p) tmo) p"

definition cp_Delete :: "'b bs_api \<Rightarrow> nat \<Rightarrow> nat \<Rightarrow> 'b conn_pool \<Rightarrow> 'b conn_pool \<times> unit res" where
  "cp_Delete A n id' p = with_redial A n (\<lambda>p. bs_delete A (cp_conn p) id') p"

definition cp_Stats :: "'b bs_api \<Rightarrow> nat \<Rightarrow> 'b conn_pool \<Rightarrow> 'b conn_pool \<times> (string \<rightharpoonup> string) res" where
  "cp_Stats A n p = with_redial A n (\<lambda>p. bs_stats A (cp_conn p)) p"

definition cp_Stop :: "'b bs_api \<Rightarrow> 'b conn_pool \<Rightarrow> 'b conn_pool" where
  "cp_Stop A p = fst (cp_rpc (bs_close A (cp_connT p)) (fst (cp_rpc (bs_close A (cp_conn p)) p)))"

section \<open>Configuration and the consumer\<close>

record bs_config =
  bsc_addr :: string
  bsc_timeout :: int
  bsc_priority :: int
  bsc_tube_priority :: "u32 option"
  bsc_tube :: string
  bsc_reserve :: int

definition bs_InitDefault :: "bs_config \<Rightarrow> bs_config" where
  "bs_InitDefault c0 =
     (let c1 = (if bsc_tube c0 = [] then c0\<lparr>bsc_tube := ''default''\<rparr> else c0);
          c2 = (if bsc_reserve c1 = 0 then c1\<lparr>bsc_reserve := 10 ^ 9\<rparr> else c1);
          c3 = (if bsc_tube_priority c2 = None then c2\<lparr>bsc_tube_priority := Some 0\<rparr> else c2);
          c4 = (if bsc_priority c3 = 0 then c3\<lparr>bsc_priority := 10\<rparr> else c3);
          c5 = (if bsc_addr c4 = [] then c4\<lparr>bsc_addr := ''tcp://127.0.0.1:11300''\<rparr> else c4)
      in if bsc_timeout c5 = 0 then c5\<lparr>bsc_timeout := 30 * 10 ^ 9\<rparr> else c5)"

record bnitem = jitem +
  bj_id :: nat
  bj_conn :: nat

record 'b bs_consumer =
  bn_pq :: "bnitem list"
  bn_pipeline :: "pipeline option"
  bn_listeners :: u32
  bn_pool :: "'b conn_pool"
  bn_addr :: string
  bn_network :: string
  bn_reserve :: int
  bn_tout :: int
  bn_tube :: string
  bn_tube_priority :: u32
  bn_priority :: int
  bn_tokens :: nat
  bn_loops :: nat

text \<open>The part both constructors share, from the address on.\<close>

definition bs_connect :: "'b bs_api \<Rightarrow> 'b \<Rightarrow> bs_config \<Rightarrow> string \<Rightarrow> int \<Rightarrow> u32 \<Rightarrow> int \<Rightarrow> 'b bs_consumer res" where
  "bs_connect A b conf tube reserve tprio prio =
     (let op = ''new_beanstalk_consumer'' in
      case split_str ''://'' (bsc_addr conf) of
        [network, address] \<Rightarrow>
          (case NewConnPool A b network address tube (bsc_timeout conf) of
             (p, Ok _) \<Rightarrow> Ok \<lparr>bn_pq = [], bn_pipeline = None, bn_listeners = 0, bn_pool = p, bn_addr = address, bn_network = network,
               bn_reserve = reserve, bn_tout = bsc_timeout conf, bn_tube = tube, bn_tube_priority = tprio, bn_priority = prio,
               bn_tokens = 0, bn_loops = 0\<rparr>
           | (p, Err e) \<Rightarrow> Err (EOp op e)
           | (p, Panic) \<Rightarrow> Panic
           | (p, Block) \<Rightarrow> Block)
      | _ \<Rightarrow> Err (EOp op (Str (''invalid socket DSN (tcp://127.0.0.1:11300, unix://beanstalk.sock), provided: '' @ bsc_addr conf))))"

definition NewBeanstalkConsumer ::
  "'b bs_api \<Rightarrow> 'b \<Rightarrow> string \<Rightarrow> bool \<Rightarrow> bool \<Rightarrow> error + bs_config \<Rightarrow> 'b bs_consumer res"
where
  "NewBeanstalkConsumer A b key local global cfg =
     (let op = ''new_beanstalk_consumer'' in
      if \<not> local then Err (EOp op (Str (''no configuration by provided key: '' @ key)))
      else if \<not> global then Err (EOp op (Str ''no global beanstalk configuration, global configuration should contain beanstalk addrs and timeout''))
      else case cfg of
        Inl e \<Rightarrow> Err (EOp op e)
      | Inr conf0 \<Rightarrow>
          (let conf = bs_InitDefault conf0 in
           bs_connect A b conf (bsc_tube conf) (bsc_reserve conf) (the (bsc_tube_priority conf)) (bsc_priority conf)))"

definition bs_FromPipeline :: "'b bs_api \<Rightarrow> 'b \<Rightarrow> bool \<Rightarrow> error + bs_config \<Rightarrow> pipeline \<Rightarrow> 'b bs_consumer res" where
  "bs_FromPipeline A b global cfg pipe =
     (let op = ''new_beanstalk_consumer'' in
      if \<not> global then Err (EOp op (Str ''no global beanstalk configuration, global configuration should contain beanstalk 'addrs' and timeout''))
      else case cfg of
        Inl e \<Rightarrow> Err (EOp op e)
      | Inr conf \<Rightarrow>
          bs_connect A b (bs_InitDefault conf) (pl_string pipe ''tube'' ''default'')
            (wrap64 (10 ^ 9 * pl_int pipe ''reserve_timeout'' 5)) (word_of_int (pl_int pipe ''tube_priority'' 1)) (pl_priority pipe))"

text \<open>A call on the pool of the consumer.\<close>

definition on_pool :: "('b conn_pool \<Rightarrow> 'b conn_pool \<times> 'a res) \<Rightarrow> 'b bs_consumer \<Rightarrow> 'b bs_consumer \<times> 'a res" where
  "on_pool f c = (let (p, r) = f (bn_pool c) in (c\<lparr>bn_pool := p\<rparr>, r))"

section \<open>Publishing and acknowledging\<close>

definition bs_fromJob :: "job \<Rightarrow> bnitem" where
  "bs_fromJob j = jitem.extend (fromJob j) \<lparr>bj_id = 0, bj_conn = 0\<rparr>"

text \<open>A failed \<open>Put\<close> returns the identifier zero, which is then deleted.\<close>

definition bs_handleItem :: "'b bs_api \<Rightarrow> nat \<Rightarrow> bnitem \<Rightarrow> 'b bs_consumer \<Rightarrow> 'b bs_consumer \<times> unit res" where
  "bs_handleItem A n it c0 =
     (let op = ''beanstalk_handle_item'' in
      case on_pool (cp_Put A n (BItem (jitem.truncate it)) (bn_tube_priority c0) (wrap64 (10 ^ 9 * ji_delay it)) (bn_tout c0)) c0 of
        (c, Ok _) \<Rightarrow> (c, Ok ())
      | (c, Err err) \<Rightarrow>
          (case on_pool (cp_Delete A n 0) c of
             (c', Err errD) \<Rightarrow> (c', Err (EOp op (Str (bs_text A err @ '':'' @ bs_text A errD))))
           | (c', _) \<Rightarrow> (c', Err (EOp op err)))
      | (c, Panic) \<Rightarrow> (c, Panic)
      | (c, Block) \<Rightarrow> (c, Block))"

definition bs_Push :: "'b bs_api \<Rightarrow> nat \<Rightarrow> job \<Rightarrow> 'b bs_consumer \<Rightarrow> 'b bs_consumer \<times> unit res" where
  "bs_Push A n j c =
     (let op = ''beanstalk_push'' in
      case bn_pipeline c of
        None \<Rightarrow> (c, Panic)
      | Some pipe \<Rightarrow>
          if pl_name pipe \<noteq> op_pipeline (job_options j)
          then (c, Err (EOp op (Str (''no such pipeline: '' @ op_pipeline (job_options j) @ '', actual: '' @ pl_name pipe))))
          else wrapped op (bs_handleItem A n (bs_fromJob j) c))"

definition handleTPush :: "'b bs_api \<Rightarrow> bytes \<Rightarrow> string \<Rightarrow> 'b bs_consumer \<Rightarrow> 'b bs_consumer \<times> unit res" where
  "handleTPush A data tube c0 =
     on_ok (on_pool (cp_rpc (bs_dial A (bn_network c0) (bn_addr c0) (bn_tout c0))) c0) (\<lambda>c conn.
     on_ok (on_pool (cp_rpc (bs_put A conn tube (BRaw data) 0 0 (bn_tout c))) c) (\<lambda>c _.
     on_pool (cp_rpc (bs_close A conn)) c))"

type_synonym 'b bs_held = "bnitem \<times> 'b bs_consumer"

text \<open>\<open>Ack\<close> and \<open>Nack\<close> both delete, on the connection the job was reserved on.\<close>

definition bs_Ack :: "'b bs_api \<Rightarrow> 'b bs_held \<Rightarrow> 'b bs_held \<times> unit res" where
  "bs_Ack A h = map_prod (Pair (fst h)) id (on_pool (cp_rpc (bs_delete A (bj_conn (fst h)) (bj_id (fst h)))) (snd h))"

definition bs_Nack :: "'b bs_api \<Rightarrow> 'b bs_held \<Rightarrow> 'b bs_held \<times> unit res" where
  "bs_Nack A h = map_prod (Pair (fst h)) id (on_pool (cp_rpc (bs_delete A (bj_conn (fst h)) (bj_id (fst h)))) (snd h))"

definition bs_Requeue :: "'b bs_api \<Rightarrow> nat \<Rightarrow> headers \<Rightarrow> int \<Rightarrow> 'b bs_held \<Rightarrow> 'b bs_held \<times> unit res" where
  "bs_Requeue A n hs d h =
     (let it = (fst h)\<lparr>ji_delay := d, ji_headers := hs\<rparr> in
      case bs_handleItem A n it (snd h) of
        (c, Ok _) \<Rightarrow> bs_Ack A (it, c)
      | (c, r) \<Rightarrow> ((it, c), r))"

definition bs_Respond :: "'b bs_api \<Rightarrow> bytes \<Rightarrow> string \<Rightarrow> 'b bs_held \<Rightarrow> 'b bs_held \<times> unit res" where
  "bs_Respond A data q h = map_prod (Pair (fst h)) id (wrapped ''beanstalk_respond'' (handleTPush A data q (snd h)))"

section \<open>Consuming\<close>

definition bs_unpack :: "nat \<Rightarrow> bs_body \<Rightarrow> 'b bs_consumer \<Rightarrow> bnitem res" where
  "bs_unpack id' body c =
     (case body of
        BRaw d \<Rightarrow> Err (Str ''gob'')
      | BNoOptions \<Rightarrow> Panic
      | BItem it \<Rightarrow> Ok (jitem.extend (if ji_priority it = 0 then it\<lparr>ji_priority := bn_priority c\<rparr> else it)
          \<lparr>bj_id = id', bj_conn = cp_conn (bn_pool c)\<rparr>))"

text \<open>One round of a listener.\<close>

definition bs_listen :: "'b bs_api \<Rightarrow> nat \<Rightarrow> 'b bs_consumer \<Rightarrow> 'b bs_consumer \<times> unit res" where
  "bs_listen A n c0 =
     (if bn_tokens c0 > 0 then (c0\<lparr>bn_tokens := bn_tokens c0 - 1, bn_loops := bn_loops c0 - 1\<rparr>, Ok ())
      else case on_pool (cp_Reserve A n (bn_reserve c0)) c0 of
        (c, Ok (id', body)) \<Rightarrow>
          (case bs_unpack id' body c of
             Ok it \<Rightarrow> (c\<lparr>bn_pq := bn_pq c @ [it]\<rparr>, Ok ())
           | Err e \<Rightarrow> (fst (on_pool (cp_Delete A n id') c), Ok ())
           | Panic \<Rightarrow> (c, Panic)
           | Block \<Rightarrow> (c, Block))
      | (c, Err e) \<Rightarrow> (c, Ok ())
      | (c, Panic) \<Rightarrow> (c, Panic)
      | (c, Block) \<Rightarrow> (c, Block))"

definition bs_Register :: "pipeline \<Rightarrow> 'b bs_consumer \<Rightarrow> 'b bs_consumer \<times> unit res" where
  "bs_Register p c = (c\<lparr>bn_pipeline := Some p\<rparr>, Ok ())"

text \<open>\<open>State\<close> may reconnect, so it returns the consumer as well.\<close>

definition bs_State :: "'b bs_api \<Rightarrow> nat \<Rightarrow> 'b bs_consumer \<Rightarrow> 'b bs_consumer \<times> jstate res" where
  "bs_State A n c0 =
     on_ok (wrapped ''beanstalk_state'' (on_pool (cp_Stats A n) c0)) (\<lambda>c m.
     (c, case bn_pipeline c of
           None \<Rightarrow> Panic
         | Some pipe \<Rightarrow> Ok \<lparr>st_pipeline = pl_name pipe, st_driver = pl_driver pipe, st_queue = bn_tube c,
             st_active = count_of m ''current-jobs-ready'', st_delayed = count_of m ''current-jobs-delayed'',
             st_reserved = count_of m ''current-jobs-reserved'', st_ready = (bn_listeners c > 0)\<rparr>))"

definition bs_Run :: "pipeline \<Rightarrow> 'b bs_consumer \<Rightarrow> 'b bs_consumer \<times> unit res" where
  "bs_Run p c =
     (case bn_pipeline c of
        None \<Rightarrow> (c, Panic)
      | Some pipe \<Rightarrow>
          if pl_name pipe \<noteq> pl_name p
          then (c, Err (EOp ''beanstalk_run'' (Str (''no such pipeline: '' @ pl_name p @ '', actual: '' @ pl_name pipe))))
          else (c\<lparr>bn_listeners := bn_listeners c + 1, bn_loops := bn_loops c + 1\<rparr>, Ok ()))"

text \<open>A full stop channel waits for a listener to take a token and leave.\<close>

definition bs_send_stop :: "'b bs_consumer \<Rightarrow> 'b bs_consumer \<times> unit res" where
  "bs_send_stop c =
     (if bn_tokens c < 2 then (c\<lparr>bn_tokens := bn_tokens c + 1\<rparr>, Ok ())
      else if bn_loops c = 0 then (c, Block)
      else (c\<lparr>bn_loops := bn_loops c - 1\<rparr>, Ok ()))"

definition bs_Stop :: "'b bs_api \<Rightarrow> 'b bs_consumer \<Rightarrow> 'b bs_consumer \<times> unit res" where
  "bs_Stop A c0 =
     (if bn_pipeline c0 = None then (c0, Panic)
      else on_ok (if bn_listeners c0 = 1 then bs_send_stop c0 else (c0, Ok ())) (\<lambda>c _. (c\<lparr>bn_pool := cp_Stop A (bn_pool c)\<rparr>, Ok ())))"

definition bs_Pause :: "string \<Rightarrow> 'b bs_consumer \<Rightarrow> 'b bs_consumer \<times> unit res" where
  "bs_Pause p c =
     (case bn_pipeline c of
        None \<Rightarrow> (c, Panic)
      | Some pipe \<Rightarrow>
          if pl_name pipe \<noteq> p then (c, Ok ())
          else if bn_listeners c = 0 then (c, Ok ())
          else bs_send_stop (c\<lparr>bn_listeners := bn_listeners c - 1\<rparr>))"

definition bs_Resume :: "string \<Rightarrow> 'b bs_consumer \<Rightarrow> 'b bs_consumer \<times> unit res" where
  "bs_Resume p c =
     (case bn_pipeline c of
        None \<Rightarrow> (c, Panic)
      | Some pipe \<Rightarrow>
          if pl_name pipe \<noteq> p then (c, Ok ())
          else if bn_listeners c = 1 then (c, Ok ())
          else (c\<lparr>bn_loops := bn_loops c + 1, bn_listeners := bn_listeners c + 1\<rparr>, Ok ()))"

section \<open>Properties\<close>

lemma cp_rpc_pool: "cp_rpc f p = (p', r) \<Longrightarrow> p' = p\<lparr>cp_broker := fst (f (cp_broker p))\<rparr> \<and> r = reply (snd (f (cp_broker p)))"
  by (auto simp: cp_rpc_def split: prod.splits)

text \<open>A call that succeeds, or fails for another reason than a broken connection, is made once.\<close>

lemma with_redial_once:
  "f p (cp_broker p) = (b, Inr a) \<Longrightarrow> with_redial A n f p = (p\<lparr>cp_broker := b\<rparr>, Ok a)"
  "f p (cp_broker p) = (b, Inl e) \<Longrightarrow> bs_lost A e = None \<Longrightarrow>
     with_redial A n f p = (p\<lparr>cp_broker := b\<rparr>, Err (Str (''err: '' @ bs_text A e @ [CHR 0x0A] @ ''err redial: '' @ bs_text A e)))"
  by (simp_all add: with_redial_def cp_rpc_def checkAndRedial_def)

text \<open>On a broken connection the call is repeated once, on the connections of the first attempt to dial that succeeds.\<close>

lemma with_redial_twice:
  assumes "f p (cp_broker p) = (b, Inl e)" "bs_lost A e = Some text" "bs_redial A n e (p\<lparr>cp_broker := b\<rparr>) = (p', Ok ())"
  shows "with_redial A n f p = cp_rpc (f p') p'"
  using assms by (simp add: with_redial_def cp_rpc_def checkAndRedial_def)

lemma bs_redial_pool:
  "bs_redial A n e p = (p', r) \<Longrightarrow> cp_tube p' = cp_tube p \<and> cp_network p' = cp_network p \<and> cp_address p' = cp_address p"
proof (induction n arbitrary: e p)
  case (Suc n)
  obtain p1 r1 where 1: "dial_pair A p = (p1, r1)" by fastforce
  have "cp_tube p1 = cp_tube p \<and> cp_network p1 = cp_network p \<and> cp_address p1 = cp_address p"
    using 1 by (auto simp: dial_pair_def cp_rpc_def on_ok_def split: prod.splits res.splits)
  with Suc 1 show ?case by (cases r1) auto
qed simp

text \<open>
  What a push puts is what a listener that reserves it inserts, except that a priority of zero becomes
  the one of the pipeline.
\<close>

lemma bs_item_back:
  assumes "bn_tokens c = 0"
    and "bs_reserve A (cp_conn (bn_pool c)) (cp_tube (bn_pool c)) (bn_reserve c) (cp_broker (bn_pool c)) =
      (b, Inr (i, BItem (jitem.truncate (bs_fromJob j))))"
  shows "\<exists>c'. bs_listen A n c = (c', Ok ()) \<and> bn_pq c' = bn_pq c @ [jitem.extend
      ((fromJob j)\<lparr>ji_priority := if op_priority (job_options j) = 0 then bn_priority c else op_priority (job_options j)\<rparr>)
      \<lparr>bj_id = i, bj_conn = cp_conn (bn_pool c)\<rparr>]"
  using assms
  by (simp add: bs_listen_def on_pool_def cp_Reserve_def with_redial_once(1) bs_unpack_def bs_fromJob_def fromJob_def jitem.defs)

text \<open>A gob-encoded item without options ends the process.\<close>

lemma bs_no_options_panics:
  assumes "bn_tokens c = 0"
    and "bs_reserve A (cp_conn (bn_pool c)) (cp_tube (bn_pool c)) (bn_reserve c) (cp_broker (bn_pool c)) = (b, Inr (i, BNoOptions))"
  shows "snd (bs_listen A n c) = Panic"
  using assms by (simp add: bs_listen_def on_pool_def cp_Reserve_def with_redial_once(1) bs_unpack_def)

end
