(* ===== verification/Kv_Api.thy ===== *)
theory Kv_Api
  imports Go_Time
begin

text \<open>
  The storage interface of the key-value plugin (\<open>kv.Storage\<close>) and the plugin itself
  (\<open>kv/plugin.go\<close>, \<open>kv/rpc.go\<close>).  A storage is a record of its methods over the state of the
  driver.  A variadic argument is \<open>None\<close> when Go passes a nil slice, which the drivers tell apart
  from an empty one; an item is \<open>None\<close> when it is a nil pointer.

  The locale \<open>kv_storage\<close> is the contract behind the RPC methods: a storage is a map from keys to
  values, which \<open>Set\<close>, \<open>Delete\<close> and \<open>Clear\<close> update and \<open>Has\<close> and \<open>MGet\<close> read.  The drivers
  interpret it in their own theories.
\<close>

record kvitem =
  kv_key :: string
  kv_value :: bytes
  kv_timeout :: string

record 's storage_ops =
  s_has :: "'s \<Rightarrow> string list option \<Rightarrow> (string \<rightharpoonup> bool) res"
  s_mget :: "'s \<Rightarrow> string list option \<Rightarrow> (string \<rightharpoonup> bytes) res"
  s_set :: "'s \<Rightarrow> kvitem option list option \<Rightarrow> 's \<times> unit res"
  s_mexpire :: "'s \<Rightarrow> kvitem option list option \<Rightarrow> 's \<times> unit res"
  s_ttl :: "'s \<Rightarrow> string list option \<Rightarrow> (string \<rightharpoonup> string) res"
  s_delete :: "'s \<Rightarrow> string list option \<Rightarrow> 's \<times> unit res"
  s_clear :: "'s \<Rightarrow> 's \<times> unit res"
  s_stop :: "'s \<Rightarrow> 's"

text \<open>\<open>strings.TrimSpace(key) == ""\<close>\<close>

definition blank :: "string \<Rightarrow> bool" where
  "blank k \<longleftrightarrow> trim_space k = []"

lemma not_blank_a: "\<not> blank ''a''"
  by (simp add: blank_def trim_space_def trim_left_any.simps go_spaces_def has_prefix_def)

fun set_all :: "kvitem list \<Rightarrow> (string \<rightharpoonup> bytes) \<Rightarrow> (string \<rightharpoonup> bytes)" where
  "set_all [] m = m"
| "set_all (i # is) m = set_all is (m(kv_key i \<mapsto> kv_value i))"

text \<open>
  Shared by the drivers: a timeout is absent or an RFC 3339 time, and the loop
  \<open>for i := range keys { if v, ok := load(keys[i]); ok { m[keys[i]] = v } }\<close>.
\<close>

definition time_error :: "string \<Rightarrow> error" where
  "time_error s = Str (''time.Parse: '' @ s)"

definition ttl_ok :: "string \<Rightarrow> bool" where
  "ttl_ok t \<longleftrightarrow> t = [] \<or> time_parse t \<noteq> None"

lemma time_parse_Nil: "time_parse [] = None"
  by (simp add: time_parse_def digits_n_def)

fun collect_keys :: "(string \<rightharpoonup> 'v) \<Rightarrow> string list \<Rightarrow> (string \<rightharpoonup> 'v) \<Rightarrow> (string \<rightharpoonup> 'v)" where
  "collect_keys h [] m = m"
| "collect_keys h (k # ks) m = collect_keys h ks (case h k of None \<Rightarrow> m | Some v \<Rightarrow> m(k \<mapsto> v))"

lemma collect_keys_restrict: "collect_keys h ks m k = (if k \<in> set ks \<and> h k \<noteq> None then h k else m k)"
  by (induction ks arbitrary: m) (auto split: option.splits)

lemma fold_delete: "fold (\<lambda>k h. h(k := None)) ks h = h |` (- set ks)"
  by (induction ks arbitrary: h) (auto simp: restrict_map_def fun_eq_iff)

lemma restrict_map_eq: "(m |` A) k = Some v \<longleftrightarrow> k \<in> A \<and> m k = Some v"
  by (simp add: restrict_map_def)

section \<open>The plugin\<close>

text \<open>A section of the configuration, as far as the plugin looks into it.\<close>

datatype driver_field = DriverMissing | DriverString string | DriverOther
datatype kv_section = SecNil | SecOther | SecMap driver_field

record 's kv_plugin =
  kp_constructors :: "string \<rightharpoonup> (string \<Rightarrow> 's res)"
  kp_storages :: "string \<rightharpoonup> 's"
  kp_data :: "string \<rightharpoonup> kv_section"

text \<open>\<open>cfg\<close>: the unmarshalled section, \<open>None\<close> when it is absent.\<close>

definition kv_Init :: "(string \<rightharpoonup> kv_section) res option \<Rightarrow> 's kv_plugin res" where
  "kv_Init cfg =
     (case cfg of
        None \<Rightarrow> Err (Kind Disabled)
      | Some (Err e) \<Rightarrow> Err (EOp ''kv_plugin_init'' e)
      | Some Panic \<Rightarrow> Panic
      | Some Block \<Rightarrow> Block
      | Some (Ok d) \<Rightarrow> Ok \<lparr>kp_constructors = Map.empty, kp_storages = Map.empty, kp_data = d\<rparr>)"

definition GetAllStorageDrivers :: "string \<Rightarrow> (string \<Rightarrow> 's res) \<Rightarrow> 's kv_plugin \<Rightarrow> 's kv_plugin" where
  "GetAllStorageDrivers name c p = p\<lparr>kp_constructors := (kp_constructors p)(name \<mapsto> c)\<rparr>"

text \<open>The body of both cases of the switch in \<open>Serve\<close>, with the key the storage is built from.\<close>

definition kv_construct :: "string \<Rightarrow> string \<Rightarrow> string \<Rightarrow> 's kv_plugin \<Rightarrow> 's kv_plugin \<times> unit res" where
  "kv_construct k dr key p =
     (case kp_constructors p dr of
        None \<Rightarrow> (p, Ok ())
      | Some con \<Rightarrow>
          (case wrap ''kv_plugin_serve'' (con key) of
             Ok st \<Rightarrow> (p\<lparr>kp_storages := (kp_storages p)(k \<mapsto> st)\<rparr>, Ok ())
           | Err e \<Rightarrow> (p, Err e)
           | Panic \<Rightarrow> (p, Panic)
           | Block \<Rightarrow> (p, Block)))"

definition kv_serve_one :: "(string \<Rightarrow> bool) \<Rightarrow> string \<Rightarrow> kv_section \<Rightarrow> 's kv_plugin \<Rightarrow> 's kv_plugin \<times> unit res" where
  "kv_serve_one has k v p =
     (case v of
        SecNil \<Rightarrow> (p, Ok ())
      | SecOther \<Rightarrow> (p, Ok ())
      | SecMap DriverMissing \<Rightarrow>
          (p, Err (EOp ''kv_plugin_serve''
             (Str (''could not find mandatory driver field in the '' @ k @ '' storage''))))
      | SecMap DriverOther \<Rightarrow> (p, Ok ())
      | SecMap (DriverString dr) \<Rightarrow>
          (let configKey = ''kv.'' @ k @ ''.config'' in
           if has configKey then kv_construct k dr configKey p
           else if has k then kv_construct k dr k p
           else (p, Ok ())))"

fun kv_Serve :: "(string \<Rightarrow> bool) \<Rightarrow> string list \<Rightarrow> 's kv_plugin \<Rightarrow> 's kv_plugin \<times> unit res" where
  "kv_Serve has [] p = (p, Ok ())"
| "kv_Serve has (k # ks) p =
     (case kp_data p k of
        None \<Rightarrow> kv_Serve has ks p
      | Some v \<Rightarrow>
          (let (p1, r) = kv_serve_one has k v p in if r = Ok () then kv_Serve has ks p1 else (p1, r)))"

text \<open>The storages are stopped in the order \<open>ks\<close> and forgotten; the second result lists what they become.\<close>

definition kv_Stop :: "'s storage_ops \<Rightarrow> string list \<Rightarrow> 's kv_plugin \<Rightarrow> 's kv_plugin \<times> 's list" where
  "kv_Stop ops ks p =
     (p\<lparr>kp_storages := Map.empty, kp_constructors := Map.empty\<rparr>,
      map (s_stop ops) (concat (map (\<lambda>k. case kp_storages p k of None \<Rightarrow> [] | Some st \<Rightarrow> [st]) ks)))"

section \<open>RPC\<close>

text \<open>
  A request; \<open>rq_items\<close> is \<open>None\<close> for a nil slice.  A nil item makes the loop over the keys panic.
\<close>

record kv_request =
  rq_storage :: string
  rq_items :: "kvitem option list option"

fun kv_keys :: "kvitem option list \<Rightarrow> string list res" where
  "kv_keys [] = Ok []"
| "kv_keys (None # is) = Panic"
| "kv_keys (Some i # is) = (case kv_keys is of Ok ks \<Rightarrow> Ok (kv_key i # ks) | r \<Rightarrow> r)"

definition request_keys :: "kv_request \<Rightarrow> string list res" where
  "request_keys rq = kv_keys (case rq_items rq of None \<Rightarrow> [] | Some is \<Rightarrow> is)"

definition no_storage :: "string \<Rightarrow> string \<Rightarrow> error" where
  "no_storage op st = EOp op (Str (''no such storage: '' @ st))"

text \<open>A method that only reads: the keys of the request go to the storage.\<close>

definition kv_read ::
  "string \<Rightarrow> ('s \<Rightarrow> string list option \<Rightarrow> 'r res) \<Rightarrow> kv_request \<Rightarrow> 's kv_plugin \<Rightarrow> 'r res"
where
  "kv_read op f rq p =
     (case request_keys rq of
        Ok ks \<Rightarrow>
          (case kp_storages p (rq_storage rq) of
             None \<Rightarrow> Err (no_storage op (rq_storage rq))
           | Some st \<Rightarrow> wrap op (f st (Some ks)))
      | Err e \<Rightarrow> Err e
      | Panic \<Rightarrow> Panic
      | Block \<Rightarrow> Block)"

definition kv_write ::
  "string \<Rightarrow> ('s \<Rightarrow> 's \<times> unit res) \<Rightarrow> string \<Rightarrow> 's kv_plugin \<Rightarrow> 's kv_plugin \<times> unit res"
where
  "kv_write op f name p =
     (case kp_storages p name of
        None \<Rightarrow> (p, Err (no_storage op name))
      | Some st \<Rightarrow>
          (let (st1, r) = f st in (p\<lparr>kp_storages := (kp_storages p)(name \<mapsto> st1)\<rparr>, wrap op r)))"

text \<open>The methods; a result map is the set of response items, whose order Go leaves open.\<close>

definition kv_rpc_Has :: "'s storage_ops \<Rightarrow> kv_request \<Rightarrow> 's kv_plugin \<Rightarrow> (string \<rightharpoonup> bool) res" where
  "kv_rpc_Has ops rq p =
     (if rq_storage rq = [] then Err (EOp ''rpc_has'' (Str ''no storage provided''))
      else kv_read ''rpc_has'' (s_has ops) rq p)"

definition kv_rpc_Set :: "'s storage_ops \<Rightarrow> kv_request \<Rightarrow> 's kv_plugin \<Rightarrow> 's kv_plugin \<times> unit res" where
  "kv_rpc_Set ops rq p = kv_write ''rpc_set'' (\<lambda>st. s_set ops st (rq_items rq)) (rq_storage rq) p"

definition kv_rpc_MGet :: "'s storage_ops \<Rightarrow> kv_request \<Rightarrow> 's kv_plugin \<Rightarrow> (string \<rightharpoonup> bytes) res" where
  "kv_rpc_MGet ops rq p = kv_read ''rpc_mget'' (s_mget ops) rq p"

definition kv_rpc_MExpire :: "'s storage_ops \<Rightarrow> kv_request \<Rightarrow> 's kv_plugin \<Rightarrow> 's kv_plugin \<times> unit res" where
  "kv_rpc_MExpire ops rq p = kv_write ''rpc_mexpire'' (\<lambda>st. s_mexpire ops st (rq_items rq)) (rq_storage rq) p"

definition kv_rpc_TTL :: "'s storage_ops \<Rightarrow> kv_request \<Rightarrow> 's kv_plugin \<Rightarrow> (string \<rightharpoonup> string) res" where
  "kv_rpc_TTL ops rq p = kv_read ''rpc_ttl'' (s_ttl ops) rq p"

definition kv_rpc_Delete :: "'s storage_ops \<Rightarrow> kv_request \<Rightarrow> 's kv_plugin \<Rightarrow> 's kv_plugin \<times> unit res" where
  "kv_rpc_Delete ops rq p =
     (case request_keys rq of
        Ok ks \<Rightarrow> kv_write ''rcp_delete'' (\<lambda>st. s_delete ops st (Some ks)) (rq_storage rq) p
      | Err e \<Rightarrow> (p, Err e)
      | Panic \<Rightarrow> (p, Panic)
      | Block \<Rightarrow> (p, Block))"

definition kv_rpc_Clear :: "'s storage_ops \<Rightarrow> kv_request \<Rightarrow> 's kv_plugin \<Rightarrow> 's kv_plugin \<times> unit res" where
  "kv_rpc_Clear ops rq p = kv_write ''rcp_delete'' (s_clear ops) (rq_storage rq) p"

text \<open>A sequence of calls that may change a storage.\<close>

datatype kv_call = KvSet kv_request | KvMExpire kv_request | KvDelete kv_request | KvClear kv_request

fun kv_exec :: "'s storage_ops \<Rightarrow> kv_call \<Rightarrow> 's kv_plugin \<Rightarrow> 's kv_plugin" where
  "kv_exec ops (KvSet rq) p = fst (kv_rpc_Set ops rq p)"
| "kv_exec ops (KvMExpire rq) p = fst (kv_rpc_MExpire ops rq p)"
| "kv_exec ops (KvDelete rq) p = fst (kv_rpc_Delete ops rq p)"
| "kv_exec ops (KvClear rq) p = fst (kv_rpc_Clear ops rq p)"

definition kv_good :: "('s \<Rightarrow> bool) \<Rightarrow> 's kv_plugin \<Rightarrow> bool" where
  "kv_good I p \<longleftrightarrow> (\<forall>k s. kp_storages p k = Some s \<longrightarrow> I s)"

definition kv_constructors_ok :: "('s \<Rightarrow> bool) \<Rightarrow> 's kv_plugin \<Rightarrow> bool" where
  "kv_constructors_ok I p \<longleftrightarrow>
     (\<forall>name con key s. kp_constructors p name = Some con \<longrightarrow> con key = Ok s \<longrightarrow> I s)"

lemma kv_construct_good:
  assumes "kv_good I p" "kv_constructors_ok I p" "kv_construct k dr key p = (p', r)"
  shows "kv_good I p' \<and> kv_constructors_ok I p'"
  using assms by (auto simp: kv_construct_def kv_good_def kv_constructors_ok_def split: option.splits res.splits if_splits)

lemma kv_serve_one_good:
  assumes "kv_good I p" "kv_constructors_ok I p" "kv_serve_one has k v p = (p', r)"
  shows "kv_good I p' \<and> kv_constructors_ok I p'"
  using assms kv_construct_good [OF assms(1,2)]
  by (auto simp: kv_serve_one_def Let_def split: kv_section.splits driver_field.splits if_splits)

lemma kv_Serve_good:
  assumes "kv_good I p" "kv_constructors_ok I p"
  shows "kv_good I (fst (kv_Serve has ks p))"
  using assms
proof (induction ks arbitrary: p)
  case (Cons k ks)
  show ?case
  proof (cases "kp_data p k")
    case (Some v)
    obtain p1 r where s: "kv_serve_one has k v p = (p1, r)" by fastforce
    with kv_serve_one_good [OF Cons.prems s] Cons.IH [of p1] Some show ?thesis by simp
  qed (use Cons in simp)
qed simp

lemma kv_write_good:
  assumes "kv_good I p" "\<And>s. I s \<Longrightarrow> I (fst (f s))"
  shows "kv_good I (fst (kv_write op f name p))"
  using assms by (auto simp: kv_write_def kv_good_def split: option.splits prod.splits) (metis fst_conv)

section \<open>The contract\<close>

text \<open>
  \<open>content s\<close> is the map a storage holds.  \<open>good_ttl\<close> says that a timeout is absent or parses, as
  the drivers require.
\<close>

locale kv_storage =
  fixes ops :: "'s storage_ops"
    and inv :: "'s \<Rightarrow> bool"
    and content :: "'s \<Rightarrow> string \<rightharpoonup> bytes"
    and good_ttl :: "string \<Rightarrow> bool"
  assumes set_items:
      "inv s \<Longrightarrow> \<forall>i \<in> set is. good_ttl (kv_timeout i) \<Longrightarrow> s_set ops s (Some (map Some is)) = (s', r) \<Longrightarrow>
         r = Ok () \<Longrightarrow> inv s' \<and> content s' = set_all is (content s)"
    and delete_keys:
      "inv s \<Longrightarrow> \<forall>k \<in> set ks. \<not> blank k \<Longrightarrow> s_delete ops s (Some ks) = (s', r) \<Longrightarrow>
         r = Ok () \<Longrightarrow> inv s' \<and> content s' = content s |` (- set ks)"
    and clear_all:
      "inv s \<Longrightarrow> s_clear ops s = (s', r) \<Longrightarrow> r = Ok () \<Longrightarrow> inv s' \<and> content s' = Map.empty"
    and has_keys:
      "inv s \<Longrightarrow> \<forall>k \<in> set ks. \<not> blank k \<Longrightarrow>
         s_has ops s (Some ks) = Ok (\<lambda>k. if k \<in> set ks \<and> content s k \<noteq> None then Some True else None)"
    and mget_keys:
      "inv s \<Longrightarrow> \<forall>k \<in> set ks. \<not> blank k \<Longrightarrow> s_mget ops s (Some ks) = Ok (content s |` set ks)"
    and blank_keys:
      "inv s \<Longrightarrow> \<exists>k \<in> set ks. blank k \<Longrightarrow>
         (\<exists>e. s_has ops s (Some ks) = Err e \<and> err_is EmptyKey e)
       \<and> (\<exists>e. s_mget ops s (Some ks) = Err e \<and> err_is EmptyKey e)
       \<and> (\<exists>e. s_delete ops s (Some ks) = (s, Err e) \<and> err_is EmptyKey e)"
    and keeps:
      "inv s \<Longrightarrow> inv (fst (s_set ops s items)) \<and> inv (fst (s_mexpire ops s items))
         \<and> inv (fst (s_delete ops s keys)) \<and> inv (fst (s_clear ops s))"
begin

lemma set_mget:
  assumes "inv s" "\<forall>i \<in> set is. good_ttl (kv_timeout i)" "s_set ops s (Some (map Some is)) = (s', Ok ())"
    and "\<forall>k \<in> set ks. \<not> blank k"
  shows "s_mget ops s' (Some ks) = Ok (set_all is (content s) |` set ks)"
  using set_items [OF assms(1-3)] mget_keys assms(4) by simp

lemma rpc_set_mget:
  assumes "kp_storages p (rq_storage rq) = Some s" "inv s"
    and "rq_items rq = Some (map Some is)" "\<forall>i \<in> set is. good_ttl (kv_timeout i)"
    and "kv_rpc_Set ops rq p = (p', Ok ())"
    and "rq_storage rq' = rq_storage rq" "request_keys rq' = Ok ks" "\<forall>k \<in> set ks. \<not> blank k"
  shows "kv_rpc_MGet ops rq' p' = Ok (set_all is (content s) |` set ks)"
proof -
  obtain s' r where s': "s_set ops s (Some (map Some is)) = (s', r)" by fastforce
  with assms(1,3,5) have r: "r = Ok ()" and p': "p' = p\<lparr>kp_storages := (kp_storages p)(rq_storage rq \<mapsto> s')\<rparr>"
    by (auto simp: kv_rpc_Set_def kv_write_def)
  from set_mget [OF assms(2,4) _ assms(8), of s'] s' r have "s_mget ops s' (Some ks) = Ok (set_all is (content s) |` set ks)"
    by simp
  with assms(6,7) p' show ?thesis by (simp add: kv_rpc_MGet_def kv_read_def)
qed

lemma exec_good: "kv_good inv p \<Longrightarrow> kv_good inv (kv_exec ops c p)"
  by (cases c)
    (auto simp: kv_rpc_Set_def kv_rpc_MExpire_def kv_rpc_Delete_def kv_rpc_Clear_def keeps intro!: kv_write_good
      split: res.splits)

lemma calls_good: "kv_good inv p \<Longrightarrow> kv_good inv (fold (kv_exec ops) cs p)"
  by (induction cs arbitrary: p) (simp_all add: exec_good)

lemma rpc_delete_has:
  assumes "kp_storages p (rq_storage rq) = Some s" "inv s"
    and "request_keys rq = Ok ks" "\<forall>k \<in> set ks. \<not> blank k" "rq_storage rq \<noteq> []"
    and "kv_rpc_Delete ops rq p = (p', Ok ())"
  shows "kv_rpc_Has ops rq p' = Ok Map.empty"
proof -
  obtain s' r where s': "s_delete ops s (Some ks) = (s', r)" by fastforce
  with assms(1,3,6) have r: "r = Ok ()" and p': "p' = p\<lparr>kp_storages := (kp_storages p)(rq_storage rq \<mapsto> s')\<rparr>"
    by (auto simp: kv_rpc_Delete_def kv_write_def)
  from delete_keys [OF assms(2,4) s' r] have "inv s'" "content s' = content s |` (- set ks)" by auto
  with has_keys [of s' ks] assms(3-5) p' show ?thesis
    by (auto simp: kv_rpc_Has_def kv_read_def fun_eq_iff)
qed

end

section \<open>Two drivers\<close>

definition sum_storage :: "'a storage_ops \<Rightarrow> 'b storage_ops \<Rightarrow> ('a + 'b) storage_ops" where
  "sum_storage o1 o2 = \<lparr>
     s_has = (\<lambda>s. case s of Inl a \<Rightarrow> s_has o1 a | Inr b \<Rightarrow> s_has o2 b),
     s_mget = (\<lambda>s. case s of Inl a \<Rightarrow> s_mget o1 a | Inr b \<Rightarrow> s_mget o2 b),
     s_set = (\<lambda>s x. case s of Inl a \<Rightarrow> map_prod Inl id (s_set o1 a x) | Inr b \<Rightarrow> map_prod Inr id (s_set o2 b x)),
     s_mexpire = (\<lambda>s x. case s of Inl a \<Rightarrow> map_prod Inl id (s_mexpire o1 a x) | Inr b \<Rightarrow> map_prod Inr id (s_mexpire o2 b x)),
     s_ttl = (\<lambda>s. case s of Inl a \<Rightarrow> s_ttl o1 a | Inr b \<Rightarrow> s_ttl o2 b),
     s_delete = (\<lambda>s x. case s of Inl a \<Rightarrow> map_prod Inl id (s_delete o1 a x) | Inr b \<Rightarrow> map_prod Inr id (s_delete o2 b x)),
     s_clear = (\<lambda>s. case s of Inl a \<Rightarrow> map_prod Inl id (s_clear o1 a) | Inr b \<Rightarrow> map_prod Inr id (s_clear o2 b)),
     s_stop = map_sum (s_stop o1) (s_stop o2)\<rparr>"

lemma map_prod_id_eq [simp]: "map_prod f id p = (x, r) \<longleftrightarrow> (\<exists>y. p = (y, r) \<and> x = f y)"
  by (cases p) auto

lemma sum_storage_contract:
  assumes 1: "kv_storage o1 I1 c1 ttl" and 2: "kv_storage o2 I2 c2 ttl"
  shows "kv_storage (sum_storage o1 o2) (case_sum I1 I2) (case_sum c1 c2) ttl"
proof unfold_locales
  fix s s' r "is"
  assume "case_sum I1 I2 s" "\<forall>i \<in> set is. ttl (kv_timeout i)" "r = Ok ()"
    "s_set (sum_storage o1 o2) s (Some (map Some is)) = (s', r)"
  then show "case_sum I1 I2 s' \<and> case_sum c1 c2 s' = set_all is (case_sum c1 c2 s)"
    using kv_storage.set_items [OF 1] kv_storage.set_items [OF 2]
    by (cases s) (auto simp: sum_storage_def)
next
  fix s s' r ks
  assume "case_sum I1 I2 s" "\<forall>k \<in> set ks. \<not> blank k" "r = Ok ()"
    "s_delete (sum_storage o1 o2) s (Some ks) = (s', r)"
  then show "case_sum I1 I2 s' \<and> case_sum c1 c2 s' = case_sum c1 c2 s |` (- set ks)"
    using kv_storage.delete_keys [OF 1] kv_storage.delete_keys [OF 2]
    by (cases s) (auto simp: sum_storage_def)
next
  fix s s' r
  assume "case_sum I1 I2 s" "r = Ok ()" "s_clear (sum_storage o1 o2) s = (s', r)"
  then show "case_sum I1 I2 s' \<and> case_sum c1 c2 s' = Map.empty"
    using kv_storage.clear_all [OF 1] kv_storage.clear_all [OF 2]
    by (cases s) (auto simp: sum_storage_def)
next
  fix s ks
  assume "case_sum I1 I2 s" "\<forall>k \<in> set ks. \<not> blank k"
  then show "s_has (sum_storage o1 o2) s (Some ks)
      = Ok (\<lambda>k. if k \<in> set ks \<and> case_sum c1 c2 s k \<noteq> None then Some True else None)"
    using kv_storage.has_keys [OF 1] kv_storage.has_keys [OF 2]
    by (cases s) (simp_all add: sum_storage_def)
next
  fix s ks
  assume "case_sum I1 I2 s" "\<forall>k \<in> set ks. \<not> blank k"
  then show "s_mget (sum_storage o1 o2) s (Some ks) = Ok (case_sum c1 c2 s |` set ks)"
    using kv_storage.mget_keys [OF 1] kv_storage.mget_keys [OF 2]
    by (cases s) (simp_all add: sum_storage_def)
next
  fix s ks
  assume "case_sum I1 I2 s" "\<exists>k \<in> set ks. blank k"
  then show "(\<exists>e. s_has (sum_storage o1 o2) s (Some ks) = Err e \<and> err_is EmptyKey e)
       \<and> (\<exists>e. s_mget (sum_storage o1 o2) s (Some ks) = Err e \<and> err_is EmptyKey e)
       \<and> (\<exists>e. s_delete (sum_storage o1 o2) s (Some ks) = (s, Err e) \<and> err_is EmptyKey e)"
    using kv_storage.blank_keys [OF 1] kv_storage.blank_keys [OF 2]
    by (cases s) (simp_all add: sum_storage_def)
next
  fix s items keys
  assume "case_sum I1 I2 s"
  then show "case_sum I1 I2 (fst (s_set (sum_storage o1 o2) s items))
      \<and> case_sum I1 I2 (fst (s_mexpire (sum_storage o1 o2) s items))
      \<and> case_sum I1 I2 (fst (s_delete (sum_storage o1 o2) s keys)) \<and> case_sum I1 I2 (fst (s_clear (sum_storage o1 o2) s))"
    using kv_storage.keeps [OF 1] kv_storage.keeps [OF 2] by (cases s) (simp_all add: sum_storage_def)
qed

end
