(* ===== verification/Memory_Kv.thy ===== *)
theory Memory_Kv
  imports Kv_Api
begin

text \<open>
  The in-memory storage (\<open>memory/memorykv\<close>): a concurrent map from keys to items and a collector
  that removes expired items at every tick.  The heap is a map; the order in which \<open>Range\<close> visits
  it is an argument of the collector.  The texts of \<open>time.Parse\<close> errors are not modelled.
\<close>

section \<open>The driver\<close>

record mem_kv =
  mk_heap :: "string \<rightharpoonup> kvitem"
  mk_interval :: int
  mk_collecting :: bool

definition mkv_InitDefaults :: "int \<Rightarrow> int" where
  "mkv_InitDefaults interval = (if interval = 0 then 60 else interval)"

definition NewInMemoryDriver :: "string \<Rightarrow> int option res \<Rightarrow> mem_kv res" where
  "NewInMemoryDriver key cfg =
     (let op = ''new_in_memory_driver'' in
      case cfg of
        Err e \<Rightarrow> Err (EOp op e)
      | Panic \<Rightarrow> Panic
      | Block \<Rightarrow> Block
      | Ok None \<Rightarrow> Err (EOp op (Str (''config not found by provided key: '' @ key)))
      | Ok (Some n) \<Rightarrow>
          Ok \<lparr>mk_heap = Map.empty, mk_interval = mkv_InitDefaults n, mk_collecting = True\<rparr>)"

fun mkv_has_loop :: "(string \<rightharpoonup> kvitem) \<Rightarrow> string list \<Rightarrow> (string \<rightharpoonup> bool) \<Rightarrow> (string \<rightharpoonup> bool) res" where
  "mkv_has_loop h [] m = Ok m"
| "mkv_has_loop h (k # ks) m =
     (if blank k then Err (EOp ''in_memory_plugin_has'' (Kind EmptyKey))
      else mkv_has_loop h ks (if h k \<noteq> None then m(k \<mapsto> True) else m))"

definition mkv_Has :: "mem_kv \<Rightarrow> string list option \<Rightarrow> (string \<rightharpoonup> bool) res" where
  "mkv_Has d keys =
     (case keys of
        None \<Rightarrow> Err (EOp ''in_memory_plugin_has'' (Kind NoKeys))
      | Some ks \<Rightarrow> mkv_has_loop (mk_heap d) ks Map.empty)"

text \<open>\<open>Ok None\<close> is a nil slice with a nil error: the key does not exist.\<close>

definition mkv_Get :: "mem_kv \<Rightarrow> string \<Rightarrow> bytes option res" where
  "mkv_Get d key =
     (if blank key then Err (EOp ''in_memory_plugin_get'' (Kind EmptyKey))
      else Ok (map_option kv_value (mk_heap d key)))"

definition mkv_MGet :: "mem_kv \<Rightarrow> string list option \<Rightarrow> (string \<rightharpoonup> bytes) res" where
  "mkv_MGet d keys =
     (case keys of
        None \<Rightarrow> Err (EOp ''in_memory_plugin_mget'' (Kind NoKeys))
      | Some ks \<Rightarrow>
          if \<exists>k \<in> set ks. blank k then Err (EOp ''in_memory_plugin_mget'' (Kind EmptyKey))
          else Ok (collect_keys (\<lambda>k. map_option kv_value (mk_heap d k)) ks Map.empty))"

fun mkv_set_loop :: "kvitem option list \<Rightarrow> mem_kv \<Rightarrow> mem_kv \<times> unit res" where
  "mkv_set_loop [] d = (d, Ok ())"
| "mkv_set_loop (None # is) d = mkv_set_loop is d"
| "mkv_set_loop (Some i # is) d =
     (if kv_timeout i \<noteq> [] \<and> time_parse (kv_timeout i) = None then (d, Err (time_error (kv_timeout i)))
      else mkv_set_loop is (d\<lparr>mk_heap := (mk_heap d)(kv_key i \<mapsto> i)\<rparr>))"

definition mkv_Set :: "mem_kv \<Rightarrow> kvitem option list option \<Rightarrow> mem_kv \<times> unit res" where
  "mkv_Set d items =
     (case items of
        None \<Rightarrow> (d, Err (EOp ''in_memory_plugin_set'' (Kind NoKeys)))
      | Some is \<Rightarrow> mkv_set_loop is d)"

fun mkv_expire_loop :: "kvitem option list \<Rightarrow> mem_kv \<Rightarrow> mem_kv \<times> unit res" where
  "mkv_expire_loop [] d = (d, Ok ())"
| "mkv_expire_loop (None # is) d = mkv_expire_loop is d"
| "mkv_expire_loop (Some i # is) d =
     (let op = ''in_memory_plugin_mexpire'' in
      if kv_timeout i = [] \<or> blank (kv_key i)
      then (d, Err (EOp op (Str ''should set timeout and at least one key'')))
      else case mk_heap d (kv_key i) of
        None \<Rightarrow> mkv_expire_loop is d
      | Some old \<Rightarrow>
          (let d1 = d\<lparr>mk_heap := (mk_heap d)(kv_key i := None)\<rparr> in
           if time_parse (kv_timeout i) = None then (d1, Err (EOp op (time_error (kv_timeout i))))
           else mkv_expire_loop is
             (d1\<lparr>mk_heap := (mk_heap d1)(kv_key i \<mapsto>
                \<lparr>kv_key = kv_key i, kv_value = kv_value old, kv_timeout = kv_timeout i\<rparr>)\<rparr>)))"

definition mkv_MExpire :: "mem_kv \<Rightarrow> kvitem option list option \<Rightarrow> mem_kv \<times> unit res" where
  "mkv_MExpire d items = mkv_expire_loop (case items of None \<Rightarrow> [] | Some is \<Rightarrow> is) d"

definition mkv_TTL :: "mem_kv \<Rightarrow> string list option \<Rightarrow> (string \<rightharpoonup> string) res" where
  "mkv_TTL d keys =
     (case keys of
        None \<Rightarrow> Err (EOp ''in_memory_plugin_ttl'' (Kind NoKeys))
      | Some ks \<Rightarrow>
          if \<exists>k \<in> set ks. blank k then Err (EOp ''in_memory_plugin_ttl'' (Kind EmptyKey))
          else Ok (collect_keys (\<lambda>k. map_option kv_timeout (mk_heap d k)) ks Map.empty))"

definition mkv_Delete :: "mem_kv \<Rightarrow> string list option \<Rightarrow> mem_kv \<times> unit res" where
  "mkv_Delete d keys =
     (case keys of
        None \<Rightarrow> (d, Err (EOp ''in_memory_plugin_delete'' (Kind NoKeys)))
      | Some ks \<Rightarrow>
          if \<exists>k \<in> set ks. blank k then (d, Err (EOp ''in_memory_plugin_delete'' (Kind EmptyKey)))
          else (d\<lparr>mk_heap := fold (\<lambda>k h. h(k := None)) ks (mk_heap d)\<rparr>, Ok ()))"

definition mkv_Clear :: "mem_kv \<Rightarrow> mem_kv \<times> unit res" where
  "mkv_Clear d = (d\<lparr>mk_heap := Map.empty\<rparr>, Ok ())"

definition mkv_Stop :: "mem_kv \<Rightarrow> mem_kv" where
  "mkv_Stop d = d\<lparr>mk_collecting := False\<rparr>"

text \<open>
  One tick of the collector at the instant \<open>now\<close>; \<open>ks\<close> is the order of the iteration, which ends
  at the first timeout that does not parse.
\<close>

fun mkv_gc :: "int \<Rightarrow> string list \<Rightarrow> mem_kv \<Rightarrow> mem_kv" where
  "mkv_gc now [] d = d"
| "mkv_gc now (k # ks) d =
     (case mk_heap d k of
        None \<Rightarrow> mkv_gc now ks d
      | Some v \<Rightarrow>
          if kv_timeout v = [] then mkv_gc now ks d
          else case time_parse (kv_timeout v) of
            None \<Rightarrow> d
          | Some t \<Rightarrow>
              mkv_gc now ks (if t < now then d\<lparr>mk_heap := (mk_heap d)(k := None)\<rparr> else d))"

section \<open>The driver as a storage\<close>

definition mkv_ops :: "mem_kv storage_ops" where
  "mkv_ops = \<lparr>s_has = mkv_Has, s_mget = mkv_MGet, s_set = mkv_Set, s_mexpire = mkv_MExpire,
     s_ttl = mkv_TTL, s_delete = mkv_Delete, s_clear = mkv_Clear, s_stop = mkv_Stop\<rparr>"

text \<open>Every stored item sits under its own key and has a timeout the collector can parse.\<close>

definition mkv_ok :: "mem_kv \<Rightarrow> bool" where
  "mkv_ok d \<longleftrightarrow> (\<forall>k i. mk_heap d k = Some i \<longrightarrow> kv_key i = k \<and> ttl_ok (kv_timeout i))"

definition mkv_content :: "mem_kv \<Rightarrow> string \<rightharpoonup> bytes" where
  "mkv_content d k = map_option kv_value (mk_heap d k)"

lemma mkv_set_loop_ok:
  assumes "mkv_ok d" "\<forall>i \<in> set is. ttl_ok (kv_timeout i)"
  shows "\<exists>d'. mkv_set_loop (map Some is) d = (d', Ok ()) \<and> mkv_ok d' \<and> mkv_content d' = set_all is (mkv_content d)"
  using assms
proof (induction "is" arbitrary: d)
  case (Cons i "is")
  let ?d = "d\<lparr>mk_heap := (mk_heap d)(kv_key i \<mapsto> i)\<rparr>"
  have ok: "mkv_ok ?d" using Cons.prems by (simp add: mkv_ok_def)
  have upd: "mkv_content ?d = (mkv_content d)(kv_key i \<mapsto> kv_value i)"
    by (simp add: mkv_content_def fun_eq_iff)
  have "\<forall>i \<in> set is. ttl_ok (kv_timeout i)" using Cons.prems(2) by simp
  from Cons.IH [OF ok this, unfolded upd]
  obtain d' where "mkv_set_loop (map Some is) ?d = (d', Ok ())" "mkv_ok d'"
      "mkv_content d' = set_all is ((mkv_content d)(kv_key i \<mapsto> kv_value i))"
    by (elim exE conjE)
  with Cons.prems(2) show ?case by (auto simp: ttl_ok_def)
qed simp

lemma mkv_has_loop_ok:
  "\<forall>k \<in> set ks. \<not> blank k \<Longrightarrow> mkv_has_loop h ks m = Ok (\<lambda>k. if k \<in> set ks \<and> h k \<noteq> None then Some True else m k)"
  by (induction ks arbitrary: m) (auto simp: fun_eq_iff)

lemma mkv_has_loop_blank:
  "\<exists>k \<in> set ks. blank k \<Longrightarrow> mkv_has_loop h ks m = Err (EOp ''in_memory_plugin_has'' (Kind EmptyKey))"
  by (induction ks arbitrary: m) auto

lemma mkv_content_restrict: "mkv_content (d\<lparr>mk_heap := mk_heap d |` A\<rparr>) = mkv_content d |` A"
  by (auto simp: mkv_content_def restrict_map_def fun_eq_iff)

lemma mkv_ok_store:
  "mkv_ok d \<Longrightarrow> kv_key i = k \<Longrightarrow> ttl_ok (kv_timeout i) \<Longrightarrow> mkv_ok (d\<lparr>mk_heap := h(k \<mapsto> i)\<rparr>)"
  if "mk_heap d = h" for h
  using that by (simp add: mkv_ok_def)

lemma mkv_set_loop_keeps: "mkv_ok d \<Longrightarrow> mkv_ok (fst (mkv_set_loop is d))"
proof (induction "is" d rule: mkv_set_loop.induct)
  case (3 i "is" d)
  show ?case
  proof (cases "kv_timeout i \<noteq> [] \<and> time_parse (kv_timeout i) = None")
    case False
    then have "ttl_ok (kv_timeout i)" by (auto simp: ttl_ok_def)
    from "3.IH" [OF False mkv_ok_store [OF refl "3.prems" refl this]] False show ?thesis by auto
  qed (use "3.prems" in simp)
qed simp_all

lemma mkv_ok_remove: "mkv_ok d \<Longrightarrow> mkv_ok (d\<lparr>mk_heap := (mk_heap d)(k := None)\<rparr>)"
  by (simp add: mkv_ok_def)

lemma mkv_expire_loop_keeps: "mkv_ok d \<Longrightarrow> mkv_ok (fst (mkv_expire_loop is d))"
proof (induction "is" arbitrary: d)
  case (Cons x "is")
  show ?case
  proof (cases x)
    case (Some i)
    show ?thesis
    proof (cases "mk_heap d (kv_key i)")
      case (Some old)
      let ?n = "\<lparr>kv_key = kv_key i, kv_value = kv_value old, kv_timeout = kv_timeout i\<rparr>"
      have rm: "mkv_ok (d\<lparr>mk_heap := (mk_heap d)(kv_key i := None)\<rparr>)" by (rule mkv_ok_remove [OF Cons.prems])
      have "time_parse (kv_timeout i) \<noteq> None \<Longrightarrow> mkv_ok (d\<lparr>mk_heap := (mk_heap d)(kv_key i \<mapsto> ?n)\<rparr>)"
        by (rule mkv_ok_store [OF refl Cons.prems]) (simp_all add: ttl_ok_def)
      with Cons.IH rm Cons.prems Some \<open>x = Some i\<close> show ?thesis by (simp add: Let_def del: fun_upd_apply)
    qed (use Cons Some in \<open>simp add: Let_def\<close>)
  qed (use Cons in simp)
qed simp

lemma mkv_Delete_keeps: "mkv_ok d \<Longrightarrow> mkv_ok (fst (mkv_Delete d keys))"
  by (cases keys) (simp_all add: mkv_Delete_def fold_delete, auto simp: mkv_ok_def restrict_map_eq)

interpretation mem_storage: kv_storage mkv_ops mkv_ok mkv_content ttl_ok
proof unfold_locales
  fix s s' r "is"
  assume "mkv_ok s" "\<forall>i \<in> set is. ttl_ok (kv_timeout i)" "s_set mkv_ops s (Some (map Some is)) = (s', r)" "r = Ok ()"
  then show "mkv_ok s' \<and> mkv_content s' = set_all is (mkv_content s)"
    using mkv_set_loop_ok [of s "is"] by (auto simp: mkv_ops_def mkv_Set_def)
next
  fix s s' r ks
  assume "mkv_ok s" "\<forall>k \<in> set ks. \<not> blank k" "s_delete mkv_ops s (Some ks) = (s', r)"
  then show "mkv_ok s' \<and> mkv_content s' = mkv_content s |` (- set ks)"
    by (auto simp: mkv_ops_def mkv_Delete_def fold_delete mkv_content_restrict mkv_ok_def restrict_map_eq
        split: if_splits)
next
  fix s s' r
  assume "s_clear mkv_ops s = (s', r)"
  then show "mkv_ok s' \<and> mkv_content s' = Map.empty"
    by (auto simp: mkv_ops_def mkv_Clear_def mkv_ok_def mkv_content_def)
next
  fix s ks
  assume "\<forall>k \<in> set ks. \<not> blank k"
  then show "s_has mkv_ops s (Some ks) = Ok (\<lambda>k. if k \<in> set ks \<and> mkv_content s k \<noteq> None then Some True else None)"
    by (simp add: mkv_ops_def mkv_Has_def mkv_has_loop_ok mkv_content_def)
next
  fix s ks
  assume "\<forall>k \<in> set ks. \<not> blank k"
  then show "s_mget mkv_ops s (Some ks) = Ok (mkv_content s |` set ks)"
    by (auto simp: mkv_ops_def mkv_MGet_def collect_keys_restrict mkv_content_def restrict_map_def fun_eq_iff)
next
  fix s ks
  assume "\<exists>k \<in> set ks. blank k"
  then show "(\<exists>e. s_has mkv_ops s (Some ks) = Err e \<and> err_is EmptyKey e)
       \<and> (\<exists>e. s_mget mkv_ops s (Some ks) = Err e \<and> err_is EmptyKey e)
       \<and> (\<exists>e. s_delete mkv_ops s (Some ks) = (s, Err e) \<and> err_is EmptyKey e)"
    by (simp add: mkv_ops_def mkv_Has_def mkv_has_loop_blank mkv_MGet_def mkv_Delete_def)
next
  fix s items keys
  assume "mkv_ok s"
  then show "mkv_ok (fst (s_set mkv_ops s items)) \<and> mkv_ok (fst (s_mexpire mkv_ops s items))
      \<and> mkv_ok (fst (s_delete mkv_ops s keys)) \<and> mkv_ok (fst (s_clear mkv_ops s))"
    using mkv_Delete_keeps [of s keys]
    by (simp add: mkv_ops_def mkv_Set_def mkv_MExpire_def mkv_Clear_def mkv_set_loop_keeps mkv_expire_loop_keeps
        split: option.splits) (simp add: mkv_ok_def)
qed

section \<open>Properties\<close>

definition expired :: "int \<Rightarrow> kvitem \<Rightarrow> bool" where
  "expired now i \<longleftrightarrow> (\<exists>t. time_parse (kv_timeout i) = Some t \<and> t < now)"

lemma mkv_gc_lookup:
  "mkv_ok d \<Longrightarrow> mkv_ok (mkv_gc now ks d) \<and> mk_heap (mkv_gc now ks d) k = (case mk_heap d k of
     None \<Rightarrow> None | Some i \<Rightarrow> if k \<in> set ks \<and> expired now i then None else Some i)"
proof (induction ks arbitrary: d)
  case Nil
  then show ?case by (simp split: option.splits)
next
  case (Cons k' ks)
  show ?case
  proof (cases "mk_heap d k'")
    case None
    with Cons show ?thesis by (auto split: option.splits)
  next
    case (Some v)
    show ?thesis
    proof (cases "kv_timeout v = []")
      case True
      with Some Cons show ?thesis by (auto simp: expired_def time_parse_Nil split: option.splits)
    next
      case False
      with Some Cons.prems obtain t where t: "time_parse (kv_timeout v) = Some t"
        by (auto simp: mkv_ok_def ttl_ok_def)
      let ?d = "if t < now then d\<lparr>mk_heap := (mk_heap d)(k' := None)\<rparr> else d"
      have "mkv_ok ?d" using Cons.prems by (simp add: mkv_ok_def)
      from Cons.IH [OF this] Some False t show ?thesis
        by (auto simp: expired_def split: option.splits if_splits)
    qed
  qed
qed

text \<open>
  The collector removes exactly the expired items.  In whatever order it visits the heap, after a
  tick at \<open>now\<close> an item is gone if and only if its timeout has passed; items without a timeout and
  items still alive are untouched, and no timeout can stop the iteration early.
\<close>
theorem mkv_gc_exact:
  assumes "mkv_ok d" "range_order (mk_heap d) ks"
  shows "mk_heap (mkv_gc now ks d) = (\<lambda>k. case mk_heap d k of
     None \<Rightarrow> None | Some i \<Rightarrow> if expired now i then None else Some i)"
  using mkv_gc_lookup [OF assms(1), of now ks] range_orderD(3) [OF assms(2)]
  by (auto simp: fun_eq_iff split: option.splits)

definition sample_kv :: mem_kv where
  "sample_kv = \<lparr>mk_heap = [''a'' \<mapsto> \<lparr>kv_key = ''a'', kv_value = ''1'', kv_timeout = []\<rparr>],
     mk_interval = 60, mk_collecting = True\<rparr>"

theorem mkv_gc_exact_witness:
  "mk_heap (mkv_gc 5 [''a''] sample_kv) ''a'' = Some \<lparr>kv_key = ''a'', kv_value = ''1'', kv_timeout = []\<rparr>"
proof -
  have "mkv_ok sample_kv" "range_order (mk_heap sample_kv) [''a'']"
    by (simp_all add: mkv_ok_def sample_kv_def ttl_ok_def range_order_def)
  from mkv_gc_exact [OF this, of 5] show ?thesis
    by (simp add: sample_kv_def expired_def time_parse_Nil)
qed

text \<open>
  \<open>MExpire\<close> takes the item out of the heap before it checks the timeout.  An expiration time
  that does not parse is reported as an error, and deletes the key.
\<close>
theorem mkv_mexpire_loses_key:
  assumes "mk_heap d (kv_key i) = Some old" "\<not> blank (kv_key i)" "kv_timeout i \<noteq> []"
    and "time_parse (kv_timeout i) = None"
  shows "\<exists>d' e. mkv_MExpire d (Some (Some i # is)) = (d', Err e) \<and> mk_heap d' (kv_key i) = None"
  using assms by (simp add: mkv_MExpire_def Let_def)

theorem mkv_mexpire_loses_key_witness:
  "\<exists>d' e. mkv_MExpire sample_kv (Some [Some \<lparr>kv_key = ''a'', kv_value = [], kv_timeout = ''soon''\<rparr>]) = (d', Err e)
     \<and> mk_heap d' ''a'' = None"
  using mkv_mexpire_loses_key [of sample_kv "\<lparr>kv_key = ''a'', kv_value = [], kv_timeout = ''soon''\<rparr>" _ "[]"]
  by (simp add: sample_kv_def not_blank_a time_parse_def digits_n_def is_digit_def)

end
