(* ===== verification/Bolt_Kv.thy ===== *)
theory Bolt_Kv
  imports Kv_Api Bolt_Store
begin

text \<open>
  The boltdb storage (\<open>boltdb/boltkv\<close>): values in one bucket of the database, expiration times in a
  map in memory, and a collector that removes expired keys at every tick.

  A stored value is the gob encoding of a byte slice or of a string, or any other bytes.  The
  constructor of \<open>kvalue\<close> is the type gob records; decoding into another type is an error, as the
  documentation of \<open>encoding/gob\<close> says.  The database is the parameter \<open>A\<close> of every operation.  A
  method that writes runs in a transaction of its own, which its deferred function commits on every
  return, and on a panic; the error of that commit is dropped.
\<close>

section \<open>The driver\<close>

datatype kvalue = KBytes bytes | KString string | KRaw bytes

record bkv_config =
  bkc_file :: string
  bkc_bucket :: string
  bkc_permissions :: int
  bkc_interval :: int

record 'd bolt_kv =
  bkv_db :: 'd
  bkv_open :: bool
  bkv_bucket :: string
  bkv_gc :: "string \<rightharpoonup> string"
  bkv_timeout :: int

definition bkv_InitDefaults :: "bkv_config \<Rightarrow> bkv_config" where
  "bkv_InitDefaults c = c\<lparr>
     bkc_bucket := ''default'',
     bkc_file := (if bkc_file c = [] then ''rr.db'' else bkc_file c),
     bkc_permissions := (if bkc_permissions c = 0 then 511 else bkc_permissions c),
     bkc_interval := (if bkc_interval c = 0 then 60 else bkc_interval c)\<rparr>"

definition not_open :: error where
  "not_open = Str ''database not open''"

text \<open>\<open>DB.View\<close>, \<open>DB.Begin(true)\<close> and \<open>DB.Update\<close>.\<close>

definition bolt_view :: "('d, 'v) bolt_api \<Rightarrow> bool \<Rightarrow> 'd \<Rightarrow> ('d \<Rightarrow> 'a res) \<Rightarrow> 'a res" where
  "bolt_view A opened db f =
     (if \<not> opened then Err not_open else case db_view A db of Some e \<Rightarrow> Err e | None \<Rightarrow> f db)"

definition bolt_begin :: "('d, 'v) bolt_api \<Rightarrow> bool \<Rightarrow> 'd \<Rightarrow> error option" where
  "bolt_begin A opened db = (if \<not> opened then Some not_open else db_begin A db)"

definition bolt_update :: "('d, 'v) bolt_api \<Rightarrow> bool \<Rightarrow> 'd \<Rightarrow> ('d \<Rightarrow> 'd res) \<Rightarrow> 'd res" where
  "bolt_update A opened db f =
     (case bolt_begin A opened db of
        Some e \<Rightarrow> Err e
      | None \<Rightarrow>
          (case f db of
             Ok tx \<Rightarrow> (case db_commit A tx of None \<Rightarrow> Ok tx | Some e \<Rightarrow> Err e)
           | r \<Rightarrow> r))"

text \<open>\<open>open_db\<close> is \<open>bolt.Open\<close>; a key that is not configured leaves the nil pointer \<open>Ok None\<close>.\<close>

definition NewBoltDBDriver ::
  "('d, kvalue) bolt_api \<Rightarrow> (string \<Rightarrow> int \<Rightarrow> 'd res) \<Rightarrow> bool \<Rightarrow> bkv_config option res \<Rightarrow> 'd bolt_kv res"
where
  "NewBoltDBDriver A open_db has_kv cfg =
     (let op = ''new_boltdb_driver'' in
      if \<not> has_kv then Err (EOp op (Str ''no kv section in the configuration''))
      else case cfg of
        Err e \<Rightarrow> Err (EOp op e)
      | Panic \<Rightarrow> Panic
      | Block \<Rightarrow> Block
      | Ok None \<Rightarrow> Panic
      | Ok (Some c0) \<Rightarrow>
          (let c = bkv_InitDefaults c0 in
           case wrap op (open_db (bkc_file c) (bkc_permissions c)) of
             Ok db \<Rightarrow>
               (case wrap op (bolt_update A True db (\<lambda>tx.
                   case bk_create A (bkc_bucket c) tx of
                     Err e \<Rightarrow> Err (Str ''boltdb_plugin_update'')
                   | r \<Rightarrow> r)) of
                  Ok db1 \<Rightarrow> Ok \<lparr>bkv_db = db1, bkv_open = True, bkv_bucket = bkc_bucket c,
                              bkv_gc = Map.empty, bkv_timeout = bkc_interval c * 1000000000\<rparr>
                | Err e \<Rightarrow> Err e
                | Panic \<Rightarrow> Panic
                | Block \<Rightarrow> Block)
           | Err e \<Rightarrow> Err e
           | Panic \<Rightarrow> Panic
           | Block \<Rightarrow> Block))"

fun bkv_has_loop ::
  "('d, kvalue) bolt_api \<Rightarrow> string \<Rightarrow> string list \<Rightarrow> (string \<rightharpoonup> bool) \<Rightarrow> 'd \<Rightarrow> (string \<rightharpoonup> bool) res"
where
  "bkv_has_loop A b [] m db = Ok m"
| "bkv_has_loop A b (k # ks) m db =
     (if blank k then Err (EOp ''boltdb_driver_has'' (Kind EmptyKey))
      else if \<not> bk_exists A b db then Err (EOp ''boltdb_driver_has'' (Kind NoSuchBucket))
      else bkv_has_loop A b ks (if bk_get A b k db \<noteq> None then m(k \<mapsto> True) else m) db)"

definition bkv_Has :: "('d, kvalue) bolt_api \<Rightarrow> 'd bolt_kv \<Rightarrow> string list option \<Rightarrow> (string \<rightharpoonup> bool) res" where
  "bkv_Has A d keys =
     (case keys of
        None \<Rightarrow> Err (EOp ''boltdb_driver_has'' (Kind NoKeys))
      | Some ks \<Rightarrow>
          wrap ''boltdb_driver_has''
            (bolt_view A (bkv_open d) (bkv_db d) (bkv_has_loop A (bkv_bucket d) ks Map.empty)))"

text \<open>\<open>Decode\<close> into a \<open>string\<close> and into a \<open>[]byte\<close>.\<close>

definition gob_error :: error where
  "gob_error = Str ''gob: type mismatch''"

fun decode_string :: "kvalue \<Rightarrow> string res" where
  "decode_string (KString s) = Ok s"
| "decode_string (KBytes v) = Err gob_error"
| "decode_string (KRaw v) = Err gob_error"

fun decode_bytes :: "kvalue \<Rightarrow> bytes res" where
  "decode_bytes (KBytes v) = Ok v"
| "decode_bytes (KString s) = Err gob_error"
| "decode_bytes (KRaw v) = Err gob_error"

definition bkv_Get :: "('d, kvalue) bolt_api \<Rightarrow> 'd bolt_kv \<Rightarrow> string \<Rightarrow> bytes option res" where
  "bkv_Get A d key =
     (let op = ''boltdb_driver_get'' in
      if blank key then Err (EOp op (Kind EmptyKey))
      else wrap op (bolt_view A (bkv_open d) (bkv_db d) (\<lambda>db.
        if \<not> bk_exists A (bkv_bucket d) db then Err (EOp op (Kind NoSuchBucket))
        else case bk_get A (bkv_bucket d) key db of
          None \<Rightarrow> Ok None
        | Some v \<Rightarrow>
            (case decode_string v of
               Ok s \<Rightarrow> Ok (Some s)
             | Err e \<Rightarrow> Err (EOp op e)
             | Panic \<Rightarrow> Panic
             | Block \<Rightarrow> Block))))"

fun bkv_mget_loop ::
  "('d, kvalue) bolt_api \<Rightarrow> string \<Rightarrow> string list \<Rightarrow> (string \<rightharpoonup> bytes) \<Rightarrow> 'd \<Rightarrow> (string \<rightharpoonup> bytes) res"
where
  "bkv_mget_loop A b [] m db = Ok m"
| "bkv_mget_loop A b (k # ks) m db =
     (case bk_get A b k db of
        None \<Rightarrow> bkv_mget_loop A b ks m db
      | Some v \<Rightarrow>
          (case decode_bytes v of
             Ok out \<Rightarrow> bkv_mget_loop A b ks (m(k \<mapsto> out)) db
           | Err e \<Rightarrow> Err (EOp ''boltdb_driver_mget'' e)
           | Panic \<Rightarrow> Panic
           | Block \<Rightarrow> Block))"

definition bkv_MGet :: "('d, kvalue) bolt_api \<Rightarrow> 'd bolt_kv \<Rightarrow> string list option \<Rightarrow> (string \<rightharpoonup> bytes) res" where
  "bkv_MGet A d keys =
     (let op = ''boltdb_driver_mget'' in
      case keys of
        None \<Rightarrow> Err (EOp op (Kind NoKeys))
      | Some ks \<Rightarrow>
          if \<exists>k \<in> set ks. blank k then Err (EOp op (Kind EmptyKey))
          else wrap op (bolt_view A (bkv_open d) (bkv_db d) (\<lambda>db.
            if \<not> bk_exists A (bkv_bucket d) db then Err (EOp op (Kind NoSuchBucket))
            else bkv_mget_loop A (bkv_bucket d) ks Map.empty db)))"

text \<open>
  The deferred function of \<open>Set\<close> and \<open>Delete\<close>: what the transaction did is kept when the commit
  succeeds, whatever the method returns.
\<close>

definition bkv_commit :: "('d, kvalue) bolt_api \<Rightarrow> 'd \<Rightarrow> 'd bolt_kv \<Rightarrow> 'd bolt_kv" where
  "bkv_commit A tx d = (if db_commit A tx = None then d\<lparr>bkv_db := tx\<rparr> else d)"

text \<open>
  The loop of \<open>Set\<close> over the transaction and the map of timeouts.  The guard on \<open>EmptyItem\<close> tests an
  error that is always nil at that point, so a nil item reaches the dereference and panics; so does
  the first \<open>Put\<close> when there is no bucket.
\<close>

fun bkv_set_loop ::
  "('d, kvalue) bolt_api \<Rightarrow> string \<Rightarrow> kvitem option list \<Rightarrow> 'd \<Rightarrow> (string \<rightharpoonup> string)
     \<Rightarrow> 'd \<times> (string \<rightharpoonup> string) \<times> unit res"
where
  "bkv_set_loop A b [] tx gc = (tx, gc, Ok ())"
| "bkv_set_loop A b (None # is) tx gc = (tx, gc, Panic)"
| "bkv_set_loop A b (Some i # is) tx gc =
     (let op = ''boltdb_driver_set'' in
      if \<not> bk_exists A b tx then (tx, gc, Panic)
      else case wrap op (bk_put A b (kv_key i) (KBytes (kv_value i)) tx) of
        Ok tx1 \<Rightarrow>
          if kv_timeout i = [] then bkv_set_loop A b is tx1 gc
          else if time_parse (kv_timeout i) = None then (tx1, gc, Err (EOp op (time_error (kv_timeout i))))
          else bkv_set_loop A b is tx1 (gc(kv_key i \<mapsto> kv_timeout i))
      | Err e \<Rightarrow> (tx, gc, Err e)
      | Panic \<Rightarrow> (tx, gc, Panic)
      | Block \<Rightarrow> (tx, gc, Block))"

definition bkv_Set :: "('d, kvalue) bolt_api \<Rightarrow> 'd bolt_kv \<Rightarrow> kvitem option list option \<Rightarrow> 'd bolt_kv \<times> unit res" where
  "bkv_Set A d items =
     (let op = ''boltdb_driver_set'' in
      case items of
        None \<Rightarrow> (d, Err (EOp op (Kind NoKeys)))
      | Some is \<Rightarrow>
          (case bolt_begin A (bkv_open d) (bkv_db d) of
             Some e \<Rightarrow> (d, Err (EOp op e))
           | None \<Rightarrow>
               (let (tx, gc, r) = bkv_set_loop A (bkv_bucket d) is (bkv_db d) (bkv_gc d)
                in (bkv_commit A tx (d\<lparr>bkv_gc := gc\<rparr>), r))))"

fun bkv_delete_loop :: "('d, kvalue) bolt_api \<Rightarrow> string \<Rightarrow> string list \<Rightarrow> 'd \<Rightarrow> 'd \<times> unit res" where
  "bkv_delete_loop A b [] tx = (tx, Ok ())"
| "bkv_delete_loop A b (k # ks) tx =
     (case wrap ''boltdb_driver_delete'' (bk_delete A b k tx) of
        Ok tx1 \<Rightarrow> bkv_delete_loop A b ks tx1
      | Err e \<Rightarrow> (tx, Err e)
      | Panic \<Rightarrow> (tx, Panic)
      | Block \<Rightarrow> (tx, Block))"

definition bkv_Delete :: "('d, kvalue) bolt_api \<Rightarrow> 'd bolt_kv \<Rightarrow> string list option \<Rightarrow> 'd bolt_kv \<times> unit res" where
  "bkv_Delete A d keys =
     (let op = ''boltdb_driver_delete'' in
      case keys of
        None \<Rightarrow> (d, Err (EOp op (Kind NoKeys)))
      | Some ks \<Rightarrow>
          if \<exists>k \<in> set ks. blank k then (d, Err (EOp op (Kind EmptyKey)))
          else case bolt_begin A (bkv_open d) (bkv_db d) of
            Some e \<Rightarrow> (d, Err (EOp op e))
          | None \<Rightarrow>
              (let (tx, r) =
                 (if \<not> bk_exists A (bkv_bucket d) (bkv_db d)
                  then (bkv_db d, Err (EOp op (Kind NoSuchBucket)))
                  else bkv_delete_loop A (bkv_bucket d) ks (bkv_db d))
               in (bkv_commit A tx d, r)))"

fun bkv_expire_loop :: "kvitem option list \<Rightarrow> (string \<rightharpoonup> string) \<Rightarrow> (string \<rightharpoonup> string) \<times> unit res" where
  "bkv_expire_loop [] gc = (gc, Ok ())"
| "bkv_expire_loop (None # is) gc = (gc, Panic)"
| "bkv_expire_loop (Some i # is) gc =
     (let op = ''boltdb_driver_mexpire'' in
      if kv_timeout i = [] \<or> blank (kv_key i)
      then (gc, Err (EOp op (Str ''should set timeout and at least one key'')))
      else if time_parse (kv_timeout i) = None then (gc, Err (EOp op (time_error (kv_timeout i))))
      else bkv_expire_loop is (gc(kv_key i \<mapsto> kv_timeout i)))"

definition bkv_MExpire :: "'d bolt_kv \<Rightarrow> kvitem option list option \<Rightarrow> 'd bolt_kv \<times> unit res" where
  "bkv_MExpire d items =
     (let (gc, r) = bkv_expire_loop (case items of None \<Rightarrow> [] | Some is \<Rightarrow> is) (bkv_gc d)
      in (d\<lparr>bkv_gc := gc\<rparr>, r))"

definition bkv_TTL :: "'d bolt_kv \<Rightarrow> string list option \<Rightarrow> (string \<rightharpoonup> string) res" where
  "bkv_TTL d keys =
     (case keys of
        None \<Rightarrow> Err (EOp ''boltdb_driver_ttl'' (Kind NoKeys))
      | Some ks \<Rightarrow>
          if \<exists>k \<in> set ks. blank k then Err (EOp ''boltdb_driver_ttl'' (Kind EmptyKey))
          else Ok (collect_keys (bkv_gc d) ks Map.empty))"

definition bkv_Clear :: "('d, kvalue) bolt_api \<Rightarrow> 'd bolt_kv \<Rightarrow> 'd bolt_kv \<times> unit res" where
  "bkv_Clear A d =
     (case bolt_update A (bkv_open d) (bkv_db d) (\<lambda>tx.
         case bk_drop A (bkv_bucket d) tx of
           Ok tx1 \<Rightarrow> bk_new A (bkv_bucket d) tx1
         | r \<Rightarrow> r) of
        Ok db \<Rightarrow> (d\<lparr>bkv_db := db, bkv_gc := Map.empty\<rparr>, Ok ())
      | Err e \<Rightarrow> (d, Err e)
      | Panic \<Rightarrow> (d, Panic)
      | Block \<Rightarrow> (d, Block))"

text \<open>The stop signal ends the collector, which closes the database.\<close>

definition bkv_Stop :: "'d bolt_kv \<Rightarrow> 'd bolt_kv" where
  "bkv_Stop d = d\<lparr>bkv_open := False\<rparr>"

text \<open>
  One tick of the collector at the instant \<open>now\<close>; \<open>ks\<close> is the order of the iteration.  It ends at
  the first timeout that does not parse and at the first update that fails, by which time the
  timeout of that key is gone.
\<close>

definition bkv_remove :: "('d, kvalue) bolt_api \<Rightarrow> string \<Rightarrow> 'd bolt_kv \<Rightarrow> 'd res" where
  "bkv_remove A k d =
     bolt_update A (bkv_open d) (bkv_db d) (\<lambda>tx.
       if \<not> bk_exists A (bkv_bucket d) tx then Err (EOp ''boltdb_plugin_gc'' (Kind NoSuchBucket))
       else wrap ''boltdb_plugin_gc'' (bk_delete A (bkv_bucket d) k tx))"

fun bkv_gc_tick :: "('d, kvalue) bolt_api \<Rightarrow> int \<Rightarrow> string list \<Rightarrow> 'd bolt_kv \<Rightarrow> 'd bolt_kv" where
  "bkv_gc_tick A now [] d = d"
| "bkv_gc_tick A now (k # ks) d =
     (case bkv_gc d k of
        None \<Rightarrow> bkv_gc_tick A now ks d
      | Some v \<Rightarrow>
          (case time_parse v of
             None \<Rightarrow> d
           | Some t \<Rightarrow>
               if t < now
               then (let d1 = d\<lparr>bkv_gc := (bkv_gc d)(k := None)\<rparr> in
                     case bkv_remove A k d1 of
                       Ok db \<Rightarrow> bkv_gc_tick A now ks (d1\<lparr>bkv_db := db\<rparr>)
                     | _ \<Rightarrow> d1)
               else bkv_gc_tick A now ks d))"

section \<open>The driver as a storage\<close>

definition bkv_ops :: "('d, kvalue) bolt_api \<Rightarrow> 'd bolt_kv storage_ops" where
  "bkv_ops A = \<lparr>s_has = bkv_Has A, s_mget = bkv_MGet A, s_set = bkv_Set A, s_mexpire = bkv_MExpire,
     s_ttl = bkv_TTL, s_delete = bkv_Delete A, s_clear = bkv_Clear A, s_stop = bkv_Stop\<rparr>"

text \<open>
  A database on which transactions begin, commit and read, and on which a key can be deleted: what
  bbolt does on an open file that the operating system does not refuse to write.
\<close>

definition bolt_healthy :: "('d, 'v) bolt_api \<Rightarrow> bool" where
  "bolt_healthy A \<longleftrightarrow> (\<forall>d. db_begin A d = None) \<and> (\<forall>d. db_commit A d = None) \<and> (\<forall>d. db_view A d = None)
     \<and> (\<forall>b k d. \<exists>d'. bk_delete A b k d = Ok d')"

lemma bolt_healthyD:
  assumes "bolt_healthy A"
  shows "db_begin A d = None" "db_commit A d = None" "db_view A d = None" "\<exists>d'. bk_delete A b k d = Ok d'"
  using assms by (simp_all add: bolt_healthy_def)

definition bytes_in :: "('d, kvalue) bolt_api \<Rightarrow> string \<Rightarrow> 'd \<Rightarrow> string \<rightharpoonup> bytes" where
  "bytes_in A b db k = (case bk_get A b k db of Some (KBytes v) \<Rightarrow> Some v | _ \<Rightarrow> None)"

text \<open>The bucket exists and every value in it was written by \<open>Set\<close>.\<close>

definition bucket_ok :: "('d, kvalue) bolt_api \<Rightarrow> string \<Rightarrow> 'd \<Rightarrow> bool" where
  "bucket_ok A b db \<longleftrightarrow> bk_exists A b db \<and> (\<forall>k v. bk_get A b k db = Some v \<longrightarrow> (\<exists>w. v = KBytes w))"

definition bkv_content :: "('d, kvalue) bolt_api \<Rightarrow> 'd bolt_kv \<Rightarrow> string \<rightharpoonup> bytes" where
  "bkv_content A d = bytes_in A (bkv_bucket d) (bkv_db d)"

definition timeouts_ok :: "(string \<rightharpoonup> string) \<Rightarrow> bool" where
  "timeouts_ok gc \<longleftrightarrow> (\<forall>k v. gc k = Some v \<longrightarrow> time_parse v \<noteq> None)"

definition bkv_ok :: "('d, kvalue) bolt_api \<Rightarrow> 'd bolt_kv \<Rightarrow> bool" where
  "bkv_ok A d \<longleftrightarrow> bolt_laws A \<and> bolt_healthy A \<and> bkv_open d \<and> bucket_ok A (bkv_bucket d) (bkv_db d)
     \<and> timeouts_ok (bkv_gc d)"

lemma bkv_okD:
  assumes "bkv_ok A d"
  shows "bolt_laws A" "bolt_healthy A" "bkv_open d" "bucket_ok A (bkv_bucket d) (bkv_db d)" "timeouts_ok (bkv_gc d)"
  using assms by (simp_all add: bkv_ok_def)

lemma bytes_in_get: "bucket_ok A b db \<Longrightarrow> bk_get A b k db = map_option KBytes (bytes_in A b db k)"
  by (auto simp: bucket_ok_def bytes_in_def split: option.splits kvalue.splits)

lemma bucket_put:
  assumes "bolt_laws A" "bucket_ok A b db" "bk_put A b k (KBytes v) db = Ok db'"
  shows "bucket_ok A b db'" "bytes_in A b db' = (bytes_in A b db)(k \<mapsto> v)"
  using assms by (auto simp: bucket_ok_def bytes_in_def fun_eq_iff bk_put_get [OF assms(1,3)] bk_exists_keep(1) [OF assms(1,3)])

lemma bucket_delete:
  assumes "bolt_laws A" "bucket_ok A b db" "bk_delete A b k db = Ok db'"
  shows "bucket_ok A b db'" "bytes_in A b db' = (bytes_in A b db)(k := None)"
  using assms
  by (auto simp: bucket_ok_def bytes_in_def fun_eq_iff bk_delete_get [OF assms(1,3)] bk_exists_keep(2) [OF assms(1,3)])

lemma bkv_set_loop_ok:
  assumes "bolt_laws A" "bucket_ok A b tx" "bkv_set_loop A b (map Some is) tx gc = (tx', gc', Ok ())"
  shows "bucket_ok A b tx' \<and> bytes_in A b tx' = set_all is (bytes_in A b tx)"
  using assms(2,3)
proof (induction "is" arbitrary: tx gc)
  case (Cons i "is")
  have ex: "bk_exists A b tx" using Cons.prems(1) by (simp add: bucket_ok_def)
  with Cons.prems(2) obtain tx1 where p: "bk_put A b (kv_key i) (KBytes (kv_value i)) tx = Ok tx1"
    by (cases "bk_put A b (kv_key i) (KBytes (kv_value i)) tx") (simp_all add: Let_def)
  note put = bucket_put [OF assms(1) Cons.prems(1) p]
  from Cons.prems(2) ex p obtain gc1 where "bkv_set_loop A b (map Some is) tx1 gc1 = (tx', gc', Ok ())"
    by (simp add: Let_def split: if_splits)
  from Cons.IH [OF put(1) this, unfolded put(2)] show ?case unfolding set_all.simps .
qed simp

lemma bkv_set_loop_timeouts:
  "timeouts_ok gc \<Longrightarrow> bkv_set_loop A b is tx gc = (tx', gc', r) \<Longrightarrow> timeouts_ok gc'"
proof (induction A b "is" tx gc rule: bkv_set_loop.induct)
  case (3 A b i "is" tx gc)
  show ?case
  proof (cases "bk_exists A b tx \<and> (\<exists>tx1. bk_put A b (kv_key i) (KBytes (kv_value i)) tx = Ok tx1)")
    case True
    then obtain tx1 where p: "bk_exists A b tx" "bk_put A b (kv_key i) (KBytes (kv_value i)) tx = Ok tx1" by blast
    then have w: "wrap op (bk_put A b (kv_key i) (KBytes (kv_value i)) tx) = Ok tx1" for op by simp
    have "time_parse (kv_timeout i) \<noteq> None \<Longrightarrow> timeouts_ok (gc(kv_key i \<mapsto> kv_timeout i))"
      using "3.prems"(1) by (simp add: timeouts_ok_def)
    with "3.IH" [OF refl _ w] "3.prems" p show ?thesis
      by (auto simp: Let_def simp del: fun_upd_apply split: if_splits)
  next
    case False
    with "3.prems" show ?thesis
      by (cases "bk_put A b (kv_key i) (KBytes (kv_value i)) tx") (auto simp: Let_def split: if_splits)
  qed
qed simp_all

lemma bkv_delete_loop_ok:
  assumes "bolt_laws A" "bolt_healthy A" "bucket_ok A b tx"
  shows "\<exists>tx'. bkv_delete_loop A b ks tx = (tx', Ok ()) \<and> bucket_ok A b tx'
    \<and> bytes_in A b tx' = bytes_in A b tx |` (- set ks)"
  using assms(3)
proof (induction ks arbitrary: tx)
  case (Cons k ks)
  from bolt_healthyD(4) [OF assms(2)] obtain tx1 where d: "bk_delete A b k tx = Ok tx1" by blast
  note del = bucket_delete [OF assms(1) Cons.prems d]
  from Cons.IH [OF del(1)] obtain tx' where
    "bkv_delete_loop A b ks tx1 = (tx', Ok ())" "bucket_ok A b tx'" "bytes_in A b tx' = bytes_in A b tx1 |` (- set ks)"
    by (elim exE conjE)
  with d del(2) show ?case by (auto simp: restrict_map_def fun_eq_iff)
qed (simp add: restrict_map_def)

lemma bkv_has_loop_ok:
  "bk_exists A b db \<Longrightarrow> \<forall>k \<in> set ks. \<not> blank k \<Longrightarrow>
     bkv_has_loop A b ks m db = Ok (\<lambda>k. if k \<in> set ks \<and> bk_get A b k db \<noteq> None then Some True else m k)"
  by (induction ks arbitrary: m) (auto simp: fun_eq_iff)

lemma bkv_has_loop_blank:
  "bk_exists A b db \<Longrightarrow> \<exists>k \<in> set ks. blank k \<Longrightarrow>
     bkv_has_loop A b ks m db = Err (EOp ''boltdb_driver_has'' (Kind EmptyKey))"
  by (induction ks arbitrary: m) auto

lemma bkv_mget_loop_ok:
  "bucket_ok A b db \<Longrightarrow>
     bkv_mget_loop A b ks m db = Ok (\<lambda>k. if k \<in> set ks \<and> bytes_in A b db k \<noteq> None then bytes_in A b db k else m k)"
  by (induction ks arbitrary: m) (auto simp: bytes_in_get fun_eq_iff split: option.splits)

lemma bkv_Set_ok:
  assumes "bkv_ok A d" "bkv_Set A d (Some (map Some is)) = (d', Ok ())"
  shows "bkv_ok A d' \<and> bkv_content A d' = set_all is (bkv_content A d)"
proof -
  note ok = bkv_okD [OF assms(1)]
  obtain tx gc r where l: "bkv_set_loop A (bkv_bucket d) (map Some is) (bkv_db d) (bkv_gc d) = (tx, gc, r)"
    by (metis prod_cases3)
  from assms(2) l ok(3) have d': "d' = d\<lparr>bkv_gc := gc, bkv_db := tx\<rparr>" and r: "r = Ok ()"
    by (auto simp: bkv_Set_def bolt_begin_def bolt_healthyD [OF ok(2)] bkv_commit_def Let_def)
  from l r have "bkv_set_loop A (bkv_bucket d) (map Some is) (bkv_db d) (bkv_gc d) = (tx, gc, Ok ())" by simp
  from bkv_set_loop_ok [OF ok(1,4) this] bkv_set_loop_timeouts [OF ok(5) this] ok d' show ?thesis
    by (simp add: bkv_ok_def bkv_content_def)
qed

lemma bkv_Delete_ok:
  assumes "bkv_ok A d" "\<forall>k \<in> set ks. \<not> blank k"
  shows "\<exists>d'. bkv_Delete A d (Some ks) = (d', Ok ()) \<and> bkv_ok A d' \<and> bkv_content A d' = bkv_content A d |` (- set ks)
    \<and> bkv_gc d' = bkv_gc d"
proof -
  note ok = bkv_okD [OF assms(1)]
  from bkv_delete_loop_ok [OF ok(1,2,4)] obtain tx where
    l: "bkv_delete_loop A (bkv_bucket d) ks (bkv_db d) = (tx, Ok ())" "bucket_ok A (bkv_bucket d) tx"
      "bytes_in A (bkv_bucket d) tx = bytes_in A (bkv_bucket d) (bkv_db d) |` (- set ks)"
    by blast
  have "bk_exists A (bkv_bucket d) (bkv_db d)" using ok(4) by (simp add: bucket_ok_def)
  with l ok assms show ?thesis
    by (auto simp: bkv_Delete_def bolt_begin_def bolt_healthyD [OF ok(2)] bkv_commit_def bkv_ok_def bkv_content_def)
qed

lemma bkv_Clear_ok:
  assumes "bkv_ok A d" "bkv_Clear A d = (d', Ok ())"
  shows "bkv_ok A d' \<and> bkv_content A d' = Map.empty"
proof -
  note ok = bkv_okD [OF assms(1)]
  from assms(2) ok(3) obtain tx db where
    t: "bk_drop A (bkv_bucket d) (bkv_db d) = Ok tx" "bk_new A (bkv_bucket d) tx = Ok db"
      "d' = d\<lparr>bkv_db := db, bkv_gc := Map.empty\<rparr>"
    by (auto simp: bkv_Clear_def bolt_update_def bolt_begin_def bolt_healthyD [OF ok(2)] split: res.splits)
  have "bk_get A (bkv_bucket d) k db = None" for k
    using bk_new_drop(2) [OF ok(1) t(2)] bk_new_drop(3) [OF ok(1) t(1)] by simp
  with t ok bk_new_drop(1) [OF ok(1) t(2)] show ?thesis
    by (simp add: bkv_ok_def bucket_ok_def bkv_content_def bytes_in_def timeouts_ok_def fun_eq_iff)
qed

lemma bkv_set_loop_keeps:
  assumes "bolt_laws A"
  shows "bucket_ok A b tx \<Longrightarrow> bkv_set_loop A b is tx gc = (tx', gc', r) \<Longrightarrow> bucket_ok A b tx'"
proof (induction "is" arbitrary: tx gc)
  case (Cons x "is")
  show ?case
  proof (cases x)
    case (Some i)
    show ?thesis
    proof (cases "bk_put A b (kv_key i) (KBytes (kv_value i)) tx")
      case (Ok tx1)
      from bucket_put(1) [OF assms Cons.prems(1) Ok] Cons.IH [of tx1] Cons.prems Some Ok show ?thesis
        by (auto simp: Let_def split: if_splits)
    qed (use Cons.prems Some in \<open>auto simp: Let_def split: if_splits\<close>)
  qed (use Cons.prems in simp)
qed simp

lemma timeouts_ok_upd: "timeouts_ok gc \<Longrightarrow> time_parse v \<noteq> None \<Longrightarrow> timeouts_ok (gc(k \<mapsto> v))"
  by (simp add: timeouts_ok_def)

lemma bkv_expire_loop_timeouts: "timeouts_ok gc \<Longrightarrow> timeouts_ok (fst (bkv_expire_loop is gc))"
proof (induction "is" arbitrary: gc)
  case (Cons x "is")
  then show ?case by (cases x) (simp_all add: Let_def timeouts_ok_upd del: fun_upd_apply)
qed simp

lemma bkv_Set_keeps:
  assumes "bkv_ok A d"
  shows "bkv_ok A (fst (bkv_Set A d items))"
proof (cases items)
  case (Some "is")
  note ok = bkv_okD [OF assms]
  obtain tx gc r where l: "bkv_set_loop A (bkv_bucket d) is (bkv_db d) (bkv_gc d) = (tx, gc, r)" by (metis prod_cases3)
  from bkv_set_loop_keeps [OF ok(1,4) l] bkv_set_loop_timeouts [OF ok(5) l] ok l Some show ?thesis
    by (simp add: bkv_Set_def bolt_begin_def bolt_healthyD [OF ok(2)] bkv_commit_def bkv_ok_def)
qed (use assms in \<open>simp add: bkv_Set_def\<close>)

lemma bkv_Delete_keeps:
  assumes "bkv_ok A d"
  shows "bkv_ok A (fst (bkv_Delete A d keys))"
proof (cases "\<exists>ks. keys = Some ks \<and> (\<forall>k \<in> set ks. \<not> blank k)")
  case True
  with bkv_Delete_ok [OF assms] show ?thesis by fastforce
qed (use assms in \<open>auto simp: bkv_Delete_def Let_def split: option.splits\<close>)

lemma bkv_Clear_keeps:
  assumes "bkv_ok A d"
  shows "bkv_ok A (fst (bkv_Clear A d))"
proof -
  obtain d' r where c: "bkv_Clear A d = (d', r)" by fastforce
  then have "r = Ok () \<or> d' = d" by (auto simp: bkv_Clear_def split: res.splits)
  with c bkv_Clear_ok [OF assms, of d'] assms show ?thesis by auto
qed

interpretation bolt_storage: kv_storage "bkv_ops A" "bkv_ok A" "bkv_content A" ttl_ok
  for A :: "('d, kvalue) bolt_api"
proof unfold_locales
  fix s s' :: "'d bolt_kv" and r "is"
  assume "bkv_ok A s" "s_set (bkv_ops A) s (Some (map Some is)) = (s', r)" "r = Ok ()"
  then show "bkv_ok A s' \<and> bkv_content A s' = set_all is (bkv_content A s)"
    using bkv_Set_ok [of A s "is" s'] by (simp add: bkv_ops_def)
next
  fix s s' :: "'d bolt_kv" and r ks
  assume "bkv_ok A s" "\<forall>k \<in> set ks. \<not> blank k" "s_delete (bkv_ops A) s (Some ks) = (s', r)"
  then show "bkv_ok A s' \<and> bkv_content A s' = bkv_content A s |` (- set ks)"
    using bkv_Delete_ok [of A s ks] by (auto simp: bkv_ops_def)
next
  fix s s' :: "'d bolt_kv" and r
  assume "bkv_ok A s" "s_clear (bkv_ops A) s = (s', r)" "r = Ok ()"
  then show "bkv_ok A s' \<and> bkv_content A s' = Map.empty"
    using bkv_Clear_ok [of A s s'] by (simp add: bkv_ops_def)
next
  fix s :: "'d bolt_kv" and ks
  assume a: "bkv_ok A s" "\<forall>k \<in> set ks. \<not> blank k"
  note ok = bkv_okD [OF a(1)]
  have "bk_exists A (bkv_bucket s) (bkv_db s)" using ok(4) by (simp add: bucket_ok_def)
  from bkv_has_loop_ok [OF this a(2), of Map.empty] ok(3)
  show "s_has (bkv_ops A) s (Some ks) = Ok (\<lambda>k. if k \<in> set ks \<and> bkv_content A s k \<noteq> None then Some True else None)"
    by (simp add: bkv_ops_def bkv_Has_def bolt_view_def bolt_healthyD [OF ok(2)] bkv_content_def bytes_in_get [OF ok(4)])
next
  fix s :: "'d bolt_kv" and ks
  assume a: "bkv_ok A s" "\<forall>k \<in> set ks. \<not> blank k"
  note ok = bkv_okD [OF a(1)]
  have "bk_exists A (bkv_bucket s) (bkv_db s)" using ok(4) by (simp add: bucket_ok_def)
  with bkv_mget_loop_ok [OF ok(4)] ok(3) a(2)
  show "s_mget (bkv_ops A) s (Some ks) = Ok (bkv_content A s |` set ks)"
    by (auto simp: bkv_ops_def bkv_MGet_def bolt_view_def bolt_healthyD [OF ok(2)] bkv_content_def restrict_map_def
        fun_eq_iff)
next
  fix s :: "'d bolt_kv" and ks
  assume a: "bkv_ok A s" "\<exists>k \<in> set ks. blank k"
  note ok = bkv_okD [OF a(1)]
  have "bk_exists A (bkv_bucket s) (bkv_db s)" using ok(4) by (simp add: bucket_ok_def)
  from bkv_has_loop_blank [OF this a(2), of Map.empty] ok(3) a(2)
  show "(\<exists>e. s_has (bkv_ops A) s (Some ks) = Err e \<and> err_is EmptyKey e)
       \<and> (\<exists>e. s_mget (bkv_ops A) s (Some ks) = Err e \<and> err_is EmptyKey e)
       \<and> (\<exists>e. s_delete (bkv_ops A) s (Some ks) = (s, Err e) \<and> err_is EmptyKey e)"
    by (simp add: bkv_ops_def bkv_Has_def bolt_view_def bolt_healthyD [OF ok(2)] bkv_MGet_def bkv_Delete_def)
next
  fix s :: "'d bolt_kv" and items keys
  assume ok: "bkv_ok A s"
  then have "bkv_ok A (fst (bkv_MExpire s items))"
    using bkv_expire_loop_timeouts [OF bkv_okD(5) [OF ok]] by (auto simp: bkv_MExpire_def bkv_ok_def case_prod_beta)
  with ok show "bkv_ok A (fst (s_set (bkv_ops A) s items)) \<and> bkv_ok A (fst (s_mexpire (bkv_ops A) s items))
      \<and> bkv_ok A (fst (s_delete (bkv_ops A) s keys)) \<and> bkv_ok A (fst (s_clear (bkv_ops A) s))"
    by (simp add: bkv_ops_def bkv_Set_keeps bkv_Delete_keeps bkv_Clear_keeps)
qed

section \<open>Properties\<close>

definition due :: "int \<Rightarrow> (string \<rightharpoonup> string) \<Rightarrow> string \<Rightarrow> bool" where
  "due now gc k \<longleftrightarrow> (\<exists>v t. gc k = Some v \<and> time_parse v = Some t \<and> t < now)"

lemma bkv_remove_ok:
  assumes "bkv_ok A d"
  shows "\<exists>db. bkv_remove A k d = Ok db \<and> bucket_ok A (bkv_bucket d) db
    \<and> bytes_in A (bkv_bucket d) db = (bkv_content A d)(k := None)"
proof -
  note ok = bkv_okD [OF assms]
  from bolt_healthyD(4) [OF ok(2)] obtain db where del: "bk_delete A (bkv_bucket d) k (bkv_db d) = Ok db" by blast
  have "bk_exists A (bkv_bucket d) (bkv_db d)" using ok(4) by (simp add: bucket_ok_def)
  with del ok(3) bucket_delete [OF ok(1,4) del] show ?thesis
    by (simp add: bkv_remove_def bolt_update_def bolt_begin_def bolt_healthyD [OF ok(2)] bkv_content_def)
qed

lemma bkv_gc_tick_lookup:
  assumes "bkv_ok A d"
  shows "bkv_ok A (bkv_gc_tick A now ks d)
    \<and> (\<forall>k. bkv_content A (bkv_gc_tick A now ks d) k
          = (if k \<in> set ks \<and> due now (bkv_gc d) k then None else bkv_content A d k))
    \<and> (\<forall>k. bkv_gc (bkv_gc_tick A now ks d) k = (if k \<in> set ks \<and> due now (bkv_gc d) k then None else bkv_gc d k))"
  using assms
proof (induction ks arbitrary: d)
  case (Cons k ks)
  show ?case
  proof (cases "due now (bkv_gc d) k")
    case True
    then obtain v t where v: "bkv_gc d k = Some v" "time_parse v = Some t" "t < now" by (auto simp: due_def)
    let ?d1 = "d\<lparr>bkv_gc := (bkv_gc d)(k := None)\<rparr>"
    have "bkv_ok A ?d1" using Cons.prems by (simp add: bkv_ok_def timeouts_ok_def)
    from bkv_remove_ok [OF this, of k] obtain db where
      db: "bkv_remove A k ?d1 = Ok db" "bucket_ok A (bkv_bucket d) db"
        "bytes_in A (bkv_bucket d) db = (bkv_content A ?d1)(k := None)" by auto
    let ?d2 = "?d1\<lparr>bkv_db := db\<rparr>"
    have 2: "bkv_ok A ?d2" "bkv_content A ?d2 = (bkv_content A d)(k := None)" "bkv_gc ?d2 = (bkv_gc d)(k := None)"
      "bkv_gc_tick A now (k # ks) d = bkv_gc_tick A now ks ?d2"
      using \<open>bkv_ok A ?d1\<close> db v by (simp_all add: bkv_ok_def bkv_content_def Let_def)
    obtain d2 where d2: "bkv_ok A d2" "bkv_content A d2 = (bkv_content A d)(k := None)"
        "bkv_gc d2 = (bkv_gc d)(k := None)" "bkv_gc_tick A now (k # ks) d = bkv_gc_tick A now ks d2"
      using 2 that by blast
    have du: "due now (bkv_gc d2) k' \<longleftrightarrow> k' \<noteq> k \<and> due now (bkv_gc d) k'" for k'
      by (simp add: d2(3) due_def)
    show ?thesis unfolding d2(4) using Cons.IH [OF d2(1), unfolded du, unfolded d2(2,3)] True by simp
  next
    case False
    have "bkv_gc_tick A now (k # ks) d = bkv_gc_tick A now ks d"
      using False bkv_okD(5) [OF Cons.prems, unfolded timeouts_ok_def, rule_format, of k]
      by (auto simp: due_def split: option.splits)
    with Cons.IH [OF Cons.prems] False show ?thesis by auto
  qed
qed simp


definition sample_bkv :: "(string \<Rightarrow> (string \<times> kvalue) list) bolt_kv" where
  "sample_bkv = \<lparr>bkv_db = (\<lambda>_. []), bkv_open = True, bkv_bucket = ''default'', bkv_gc = Map.empty,
     bkv_timeout = 60000000000\<rparr>"

lemma sample_bkv_ok: "bkv_ok list_bolt sample_bkv"
  by (simp add: bkv_ok_def list_bolt_laws bolt_healthy_def sample_bkv_def bucket_ok_def timeouts_ok_def)

definition sample_ttl :: string where
  "sample_ttl = ''2000-01-01T00:00:00Z''"

lemma sample_ttl_parse: "time_parse sample_ttl = Some (946684800 * 1000000000)"
  by (simp add: sample_ttl_def time_parse_def digits_n_def one_or_two_def fraction_def zone_def expect_def is_digit_def
      digits_val_def digit_val_def month_lens_def is_leap_def unix_day_def days_before_year_def days_before_month_def)

definition sample_bitem :: "string \<Rightarrow> kvitem" where
  "sample_bitem ttl = \<lparr>kv_key = ''a'', kv_value = ''1'', kv_timeout = ttl\<rparr>"


lemma bkv_Set_one:
  assumes "bkv_ok A d" "bkv_Set A d (Some [Some i]) = (d', Ok ())"
  shows "bkv_gc d' = (if kv_timeout i = [] then bkv_gc d else (bkv_gc d)(kv_key i \<mapsto> kv_timeout i))"
proof -
  note ok = bkv_okD [OF assms(1)]
  obtain tx gc r where l: "bkv_set_loop A (bkv_bucket d) [Some i] (bkv_db d) (bkv_gc d) = (tx, gc, r)"
    by (metis prod_cases3)
  from assms(2) l ok(3) have "bkv_gc d' = gc" "r = Ok ()"
    by (auto simp: bkv_Set_def bolt_begin_def bolt_healthyD [OF ok(2)] bkv_commit_def Let_def)
  with l ok(4) show ?thesis
    by (cases "bk_put A (bkv_bucket d) (kv_key i) (KBytes (kv_value i)) (bkv_db d)")
      (auto simp: Let_def bucket_ok_def split: if_splits)
qed

text \<open>
  \<open>Delete\<close> leaves the expiration time of a key behind.  A key that was stored with a timeout,
  deleted and stored again without one is removed by the collector when the old timeout passes,
  although its item never expires.
\<close>
theorem bkv_stale_timeout:
  assumes "bkv_ok A d"
    and "bkv_Set A d (Some [Some i]) = (d1, Ok ())" "kv_timeout i \<noteq> []" "time_parse (kv_timeout i) = Some t"
    and "bkv_Delete A d1 (Some [kv_key i]) = (d2, Ok ())" "\<not> blank (kv_key i)"
    and "bkv_Set A d2 (Some [Some i']) = (d3, Ok ())" "kv_key i' = kv_key i" "kv_timeout i' = []"
    and "range_order (bkv_gc d3) ks" "t < now"
  shows "bkv_content A d3 (kv_key i) = Some (kv_value i') \<and> bkv_content A (bkv_gc_tick A now ks d3) (kv_key i) = None"
proof -
  have 1: "bkv_ok A d1" using bkv_Set_ok [of A d "[i]"] assms(1,2) by simp
  then have 2: "bkv_ok A d2" "bkv_gc d2 = bkv_gc d1" using bkv_Delete_ok [of A d1 "[kv_key i]"] assms(5,6) by auto
  have 3: "bkv_ok A d3" "bkv_content A d3 (kv_key i) = Some (kv_value i')"
    using bkv_Set_ok [of A d2 "[i']"] 2(1) assms(7,8) by auto
  have "bkv_gc d3 (kv_key i) = Some (kv_timeout i)"
    using bkv_Set_one [OF assms(1,2)] bkv_Set_one [OF 2(1) assms(7)] 2(2) assms(3,9) by simp
  with assms(4,10,11) bkv_gc_tick_lookup [OF 3(1), of now ks] 3(2) show ?thesis
    by (auto simp: due_def range_orderD(3))
qed

theorem bkv_stale_timeout_witness:
  "\<exists>d1 d2 d3. bkv_Set list_bolt sample_bkv (Some [Some (sample_bitem sample_ttl)]) = (d1, Ok ())
     \<and> bkv_Delete list_bolt d1 (Some [''a'']) = (d2, Ok ())
     \<and> bkv_Set list_bolt d2 (Some [Some (sample_bitem [])]) = (d3, Ok ())
     \<and> bkv_content list_bolt (bkv_gc_tick list_bolt (10 ^ 18) [''a''] d3) ''a'' = None"
proof -
  have ne: "sample_ttl \<noteq> []" by (simp add: sample_ttl_def)
  obtain d1 where 1: "bkv_Set list_bolt sample_bkv (Some [Some (sample_bitem sample_ttl)]) = (d1, Ok ())"
      "bkv_gc d1 = [''a'' \<mapsto> sample_ttl]" "bkv_open d1"
    by (simp add: bkv_Set_def bolt_begin_def bkv_commit_def sample_bkv_def sample_bitem_def ne sample_ttl_parse)
  obtain d2 where 2: "bkv_Delete list_bolt d1 (Some [''a'']) = (d2, Ok ())" "bkv_gc d2 = bkv_gc d1" "bkv_open d2"
    using 1(3) by (simp add: bkv_Delete_def bolt_begin_def bkv_commit_def not_blank_a)
  obtain d3 where 3: "bkv_Set list_bolt d2 (Some [Some (sample_bitem [])]) = (d3, Ok ())" "bkv_gc d3 = bkv_gc d2"
    using 2(3) by (simp add: bkv_Set_def bolt_begin_def bkv_commit_def sample_bitem_def)
  have "range_order (bkv_gc d3) [''a'']" using 1(2) 2(2) 3(2) by (simp add: range_order_def)
  with bkv_stale_timeout [OF sample_bkv_ok 1(1) _ _ _ _ 3(1), of _ "[''a'']" "10 ^ 18"] 1 2 3 ne sample_ttl_parse
  show ?thesis by (auto simp: sample_bitem_def not_blank_a)
qed

text \<open>
  C34: \<open>Get\<close> cannot read what \<open>Set\<close> wrote: \<open>Set\<close> encodes a byte slice, \<open>Get\<close> decodes a string, and
  gob refuses the mismatch.  After a successful \<open>Set\<close> of a key whose commit succeeded, \<open>Get\<close> of that
  key returns an error.
\<close>
theorem bkv_get_after_set:
  assumes "bolt_laws A" "\<forall>tx. db_commit A tx = None"
    and "bkv_Set A d (Some [Some i]) = (d', Ok ())"
  shows "\<exists>e. bkv_Get A d' (kv_key i) = Err e"
proof -
  obtain tx gc r where l: "bkv_set_loop A (bkv_bucket d) [Some i] (bkv_db d) (bkv_gc d) = (tx, gc, r)"
    by (metis prod_cases3)
  from assms(2,3) l have d': "d' = d\<lparr>bkv_gc := gc, bkv_db := tx\<rparr>" and r: "r = Ok ()"
    by (auto simp: bkv_Set_def bkv_commit_def Let_def split: option.splits)
  from l r have "bk_put A (bkv_bucket d) (kv_key i) (KBytes (kv_value i)) (bkv_db d) = Ok tx"
    by (cases "bk_put A (bkv_bucket d) (kv_key i) (KBytes (kv_value i)) (bkv_db d)")
      (auto simp: Let_def split: if_splits)
  then have "bk_get A (bkv_bucket d) (kv_key i) tx = Some (KBytes (kv_value i))"
    using bk_put_get [OF assms(1)] by simp
  with d' show ?thesis by (simp add: bkv_Get_def bolt_view_def Let_def split: option.splits)
qed

theorem bkv_get_after_set_witness:
  "\<exists>d' e. bkv_Set list_bolt sample_bkv (Some [Some (sample_bitem [])]) = (d', Ok ()) \<and> bkv_Get list_bolt d' ''a'' = Err e"
proof -
  obtain d' where "bkv_Set list_bolt sample_bkv (Some [Some (sample_bitem [])]) = (d', Ok ())"
    by (simp add: bkv_Set_def bolt_begin_def bkv_commit_def sample_bkv_def sample_bitem_def)
  with bkv_get_after_set [OF list_bolt_laws _ this] show ?thesis by (simp add: sample_bitem_def)
qed

text \<open>
  A failing \<open>Set\<close> is not undone.  The value is written before its timeout is checked and the
  deferred function commits on every return, so \<open>Set\<close> with a malformed timeout reports an error and
  the new value is stored, without an expiration time of its own.
\<close>
theorem bkv_set_error_stores:
  assumes "bkv_ok A d" "bkv_Set A d (Some (Some i # is)) = (d', Err e)"
    and "kv_timeout i \<noteq> []" "time_parse (kv_timeout i) = None"
    and "bk_put A (bkv_bucket d) (kv_key i) (KBytes (kv_value i)) (bkv_db d) = Ok tx"
  shows "bkv_content A d' = (bkv_content A d)(kv_key i \<mapsto> kv_value i) \<and> bkv_gc d' = bkv_gc d"
proof -
  note ok = bkv_okD [OF assms(1)]
  have "bk_exists A (bkv_bucket d) (bkv_db d)" using ok(4) by (simp add: bucket_ok_def)
  with assms ok(3) have "d' = d\<lparr>bkv_db := tx\<rparr>"
    by (auto simp: bkv_Set_def bolt_begin_def bolt_healthyD [OF ok(2)] bkv_commit_def Let_def)
  with bucket_put [OF ok(1,4) assms(5)] show ?thesis by (simp add: bkv_content_def)
qed

theorem bkv_set_error_stores_witness:
  "\<exists>d' e. bkv_Set list_bolt sample_bkv (Some [Some (sample_bitem ''soon'')]) = (d', Err e)
     \<and> bkv_content list_bolt d' ''a'' = Some ''1''"
proof -
  have soon: "time_parse ''soon'' = None" by (simp add: time_parse_def digits_n_def is_digit_def)
  obtain d' e where "bkv_Set list_bolt sample_bkv (Some [Some (sample_bitem ''soon'')]) = (d', Err e)"
    by (simp add: bkv_Set_def bolt_begin_def bkv_commit_def sample_bkv_def sample_bitem_def soon)
  moreover from bkv_set_error_stores [OF sample_bkv_ok this] soon
  have "bkv_content list_bolt d' ''a'' = Some ''1''" by (simp add: sample_bitem_def)
  ultimately show ?thesis by blast
qed

end
