(* ===== verification/Kv_System.thy ===== *)
theory Kv_System
  imports Memory_Kv Bolt_Kv
begin

text \<open>
  The key-value plugin with the memory and the boltdb storages plugged in: the contract of a storage
  is discharged by both drivers side by side, and holds for every storage of the plugin after
  \<open>Serve\<close> and any sequence of calls.
\<close>

text \<open>\<open>KvFromConfig\<close> of the two plugins.\<close>

definition mem_KvFromConfig :: "(string \<Rightarrow> int option res) \<Rightarrow> string \<Rightarrow> mem_kv res" where
  "mem_KvFromConfig cfg key = wrap ''memory_plugin_construct'' (NewInMemoryDriver key (cfg key))"

definition bolt_KvFromConfig ::
  "('d, kvalue) bolt_api \<Rightarrow> (string \<Rightarrow> int \<Rightarrow> 'd res) \<Rightarrow> bool \<Rightarrow> (string \<Rightarrow> bkv_config option res) \<Rightarrow> string \<Rightarrow> 'd bolt_kv res"
where
  "bolt_KvFromConfig A open_db has_kv cfg key = wrap ''boltdb_plugin_provide'' (NewBoltDBDriver A open_db has_kv (cfg key))"

definition kv_driver_ops :: "('d, kvalue) bolt_api \<Rightarrow> (mem_kv + 'd bolt_kv) storage_ops" where
  "kv_driver_ops A = sum_storage mkv_ops (bkv_ops A)"

text \<open>The plugin with both constructors collected.\<close>

definition kv_with_drivers ::
  "(string \<Rightarrow> mem_kv res) \<Rightarrow> (string \<Rightarrow> 'd bolt_kv res) \<Rightarrow> (mem_kv + 'd bolt_kv) kv_plugin
     \<Rightarrow> (mem_kv + 'd bolt_kv) kv_plugin"
where
  "kv_with_drivers m b p =
     GetAllStorageDrivers ''boltdb'' (\<lambda>k. map_res Inr (b k)) (GetAllStorageDrivers ''memory'' (\<lambda>k. map_res Inl (m k)) p)"

interpretation kv_drivers: kv_storage "kv_driver_ops A" "case_sum mkv_ok (bkv_ok A)" "case_sum mkv_content (bkv_content A)" ttl_ok
  for A :: "('d, kvalue) bolt_api"
  unfolding kv_driver_ops_def
  by (rule sum_storage_contract [OF mem_storage.kv_storage_axioms bolt_storage.kv_storage_axioms])

lemma NewInMemoryDriver_ok: "NewInMemoryDriver key cfg = Ok d \<Longrightarrow> mkv_ok d"
  by (auto simp: NewInMemoryDriver_def Let_def mkv_ok_def split: res.splits option.splits)

text \<open>A database file is fit for the driver when the bucket holds only what \<open>Set\<close> writes.\<close>

definition fit_file :: "('d, kvalue) bolt_api \<Rightarrow> (string \<Rightarrow> int \<Rightarrow> 'd res) \<Rightarrow> bool" where
  "fit_file A open_db \<longleftrightarrow>
     (\<forall>f p db k v. open_db f p = Ok db \<longrightarrow> bk_get A ''default'' k db = Some v \<longrightarrow> (\<exists>w. v = KBytes w))"

lemma NewBoltDBDriver_ok:
  assumes "bolt_laws A" "bolt_healthy A"
    and "fit_file A open_db"
    and "NewBoltDBDriver A open_db has_kv cfg = Ok d"
  shows "bkv_ok A d"
proof -
  from assms(4) obtain f p db db1 where c: "open_db f p = Ok db"
      "bk_create A ''default'' db = Ok db1" and d: "bkv_db d = db1" "bkv_open d" "bkv_bucket d = ''default''" "bkv_gc d = Map.empty"
    by (auto simp: NewBoltDBDriver_def Let_def bolt_update_def bolt_begin_def bolt_healthyD [OF assms(2)]
        bkv_InitDefaults_def split: res.splits option.splits if_splits)
  have "bucket_ok A ''default'' db1"
    using assms(3) [unfolded fit_file_def, rule_format, OF c(1)] bk_create_get [OF assms(1) c(2)] bk_exists_keep(3) [OF assms(1) c(2)]
    by (simp add: bucket_ok_def)
  with assms(1,2) d show ?thesis by (simp add: bkv_ok_def timeouts_ok_def)
qed

definition kv_started ::
  "('d, kvalue) bolt_api \<Rightarrow> (string \<Rightarrow> int option res) \<Rightarrow> (string \<Rightarrow> int \<Rightarrow> 'd res) \<Rightarrow> (string \<Rightarrow> bkv_config option res)
     \<Rightarrow> (string \<Rightarrow> bool) \<Rightarrow> string list \<Rightarrow> (string \<rightharpoonup> kv_section) \<Rightarrow> (mem_kv + 'd bolt_kv) kv_plugin"
where
  "kv_started A mcfg open_db bcfg has ks data =
     fst (kv_Serve has ks (kv_with_drivers (mem_KvFromConfig mcfg) (bolt_KvFromConfig A open_db (has ''kv'') bcfg)
       \<lparr>kp_constructors = Map.empty, kp_storages = Map.empty, kp_data = data\<rparr>))"

lemma kv_started_good:
  assumes "bolt_laws A" "bolt_healthy A"
    and "fit_file A open_db"
  shows "kv_good (case_sum mkv_ok (bkv_ok A)) (kv_started A mcfg open_db bcfg has ks data)"
  unfolding kv_started_def
proof (rule kv_Serve_good)
  show "kv_constructors_ok (case_sum mkv_ok (bkv_ok A))
     (kv_with_drivers (mem_KvFromConfig mcfg) (bolt_KvFromConfig A open_db (has ''kv'') bcfg)
       \<lparr>kp_constructors = Map.empty, kp_storages = Map.empty, kp_data = data\<rparr>)"
    by (auto simp: kv_constructors_ok_def kv_with_drivers_def GetAllStorageDrivers_def map_res_Ok mem_KvFromConfig_def
        bolt_KvFromConfig_def intro: NewInMemoryDriver_ok NewBoltDBDriver_ok [OF assms] split: if_splits)
qed (simp add: kv_good_def kv_with_drivers_def GetAllStorageDrivers_def)


text \<open>A plugin with one memory storage and one boltdb storage, and a request for both.\<close>

definition sample_kv_data :: "string \<rightharpoonup> kv_section" where
  "sample_kv_data = [''m'' \<mapsto> SecMap (DriverString ''memory''), ''b'' \<mapsto> SecMap (DriverString ''boltdb'')]"

definition sample_kv_plugin :: "(mem_kv + (string \<Rightarrow> (string \<times> kvalue) list) bolt_kv) kv_plugin" where
  "sample_kv_plugin = kv_started list_bolt (\<lambda>_. Ok (Some 0)) (\<lambda>_ _. Ok (\<lambda>_. []))
     (\<lambda>_. Ok (Some \<lparr>bkc_file = [], bkc_bucket = [], bkc_permissions = 0, bkc_interval = 0\<rparr>)) (\<lambda>_. True)
     [''m'', ''b''] sample_kv_data"

lemma sample_kv_storages:
  "kp_storages sample_kv_plugin = [
     ''m'' \<mapsto> Inl \<lparr>mk_heap = Map.empty, mk_interval = 60, mk_collecting = True\<rparr>,
     ''b'' \<mapsto> Inr sample_bkv]"
  by (simp add: sample_kv_plugin_def kv_started_def kv_with_drivers_def GetAllStorageDrivers_def sample_kv_data_def
      kv_serve_one_def kv_construct_def mem_KvFromConfig_def bolt_KvFromConfig_def NewInMemoryDriver_def
      NewBoltDBDriver_def bkv_InitDefaults_def mkv_InitDefaults_def bolt_update_def bolt_begin_def map_res_def
      sample_bkv_def Let_def)

definition sample_rq :: "string \<Rightarrow> kv_request" where
  "sample_rq st = \<lparr>rq_storage = st, rq_items = Some [Some (sample_bitem [])]\<rparr>"

lemma sample_rq_simps [simp]:
  "rq_storage (sample_rq st) = st" "rq_items (sample_rq st) = Some (map Some [sample_bitem []])"
  "request_keys (sample_rq st) = Ok [''a'']"
  by (simp_all add: sample_rq_def request_keys_def sample_bitem_def)

lemma list_bolt_healthy: "bolt_healthy list_bolt"
  by (simp add: bolt_healthy_def)

lemma sample_fit: "fit_file list_bolt (\<lambda>_ _. Ok (\<lambda>_. []))"
  by (auto simp: fit_file_def)




end
