(* ===== verification/Http_Form.thy ===== *)
theory Http_Form
  imports Go_Lib "HOL-Library.Sublist"
begin

text \<open>
  Form data of an HTTP request (\<open>http/handler/parse.go\<close>): field names such as \<open>a[b][]\<close> are split
  into indexes and the values are mounted into a tree of maps.  The data tree and the file tree
  differ only in their leaves and in the element a single-valued field keeps, so the tree is
  polymorphic and \<open>mount\<close> takes the choice of that element as an argument.  A failed type assertion
  \<open>p.(dataTree)\<close> and an index out of range are \<open>Panic\<close>.
\<close>

section \<open>Field names\<close>

text \<open>
  Iterating over a string yields its code points; a byte that does not start a valid UTF-8 sequence
  yields U+FFFD.  Code points are represented by their encodings.
\<close>

definition in_range :: "nat \<Rightarrow> nat \<Rightarrow> char \<Rightarrow> bool" where
  "in_range a b c \<longleftrightarrow> a \<le> of_char c \<and> of_char c \<le> b"

definition rune_width :: "string \<Rightarrow> nat option" where
  "rune_width s =
     (case s of
        [] \<Rightarrow> None
      | c # r \<Rightarrow>
          if in_range 0 127 c then Some 1
          else if in_range 0xC2 0xDF c \<and> 1 \<le> length r \<and> in_range 0x80 0xBF (r ! 0) then Some 2
          else if in_range 0xE0 0xEF c \<and> 2 \<le> length r \<and> in_range 0x80 0xBF (r ! 0) \<and> in_range 0x80 0xBF (r ! 1)
            \<and> (in_range 0xE0 0xE0 c \<longrightarrow> in_range 0xA0 0xBF (r ! 0)) \<and> (in_range 0xED 0xED c \<longrightarrow> in_range 0x80 0x9F (r ! 0))
          then Some 3
          else if in_range 0xF0 0xF4 c \<and> 3 \<le> length r \<and> in_range 0x80 0xBF (r ! 0) \<and> in_range 0x80 0xBF (r ! 1)
            \<and> in_range 0x80 0xBF (r ! 2)
            \<and> (in_range 0xF0 0xF0 c \<longrightarrow> in_range 0x90 0xBF (r ! 0)) \<and> (in_range 0xF4 0xF4 c \<longrightarrow> in_range 0x80 0x8F (r ! 0))
          then Some 4
          else None)"

definition rune_error :: string where
  "rune_error = [CHR 0xEF, CHR 0xBF, CHR 0xBD]"

lemma rune_width_pos: "rune_width s = Some w \<Longrightarrow> 0 < w"
  by (auto simp: rune_width_def split: list.splits if_splits)

function runes :: "string \<Rightarrow> string list" where
  "runes s =
     (if s = [] then []
      else case rune_width s of
        None \<Rightarrow> rune_error # runes (drop 1 s)
      | Some w \<Rightarrow> take w s # runes (drop w s))"
  by pat_completeness auto
termination
  by (relation "measure length") (auto dest: rune_width_pos)

declare runes.simps [simp del]

text \<open>The switch of \<open>FetchIndexes\<close> on one code point, over \<open>pos\<close> and \<open>keys\<close>.\<close>

definition fetch_step :: "string \<Rightarrow> nat \<times> string list \<Rightarrow> nat \<times> string list" where
  "fetch_step ch st =
     (let (pos, keys) = st in
      if ch = '' '' then (pos, keys)
      else if ch = ''['' then (1, keys)
      else if ch = '']'' then (2, if pos = 1 then keys @ [[]] else keys)
      else (let keys1 = (if pos = 1 \<or> pos = 2 then keys @ [[]] else keys)
            in (0, butlast keys1 @ [last keys1 @ ch])))"

definition FetchIndexes :: "string \<Rightarrow> string list" where
  "FetchIndexes s = snd (fold fetch_step (runes s) (0, [[]]))"

section \<open>The tree\<close>

datatype 'v tree = Leaf 'v | Seq "'v list" | Node "string \<Rightarrow> 'v tree option"

type_synonym 'v forest = "string \<rightharpoonup> 'v tree"

definition MaxLevel :: nat where
  "MaxLevel = 127"

fun mount :: "('v list \<Rightarrow> 'v) \<Rightarrow> string list \<Rightarrow> 'v list \<Rightarrow> 'v forest \<Rightarrow> 'v forest res" where
  "mount pick [] v d = Panic"
| "mount pick (k # ks) v d =
     (if ks = [] then (if v = [] then Panic else Ok (d(k \<mapsto> Leaf (pick v))))
      else if ks = [[]] then Ok (d(k \<mapsto> Seq v))
      else case d k of
        Some (Node m) \<Rightarrow> map_res (\<lambda>m'. d(k \<mapsto> Node m')) (mount pick ks v m)
      | Some _ \<Rightarrow> Panic
      | None \<Rightarrow> map_res (\<lambda>m'. d(k \<mapsto> Node m')) (mount pick ks v Map.empty))"

declare mount.simps [simp del]

definition form_push :: "('v list \<Rightarrow> 'v) \<Rightarrow> string \<Rightarrow> 'v list \<Rightarrow> 'v forest \<Rightarrow> 'v forest res" where
  "form_push pick k v d =
     (let keys = FetchIndexes k in if length keys \<le> MaxLevel then mount pick keys v d else Ok d)"

text \<open>The loop over a map of fields, in the order \<open>ks\<close>.\<close>

fun push_all :: "('v list \<Rightarrow> 'v) \<Rightarrow> string list \<Rightarrow> (string \<rightharpoonup> 'v list) \<Rightarrow> 'v forest \<Rightarrow> 'v forest res" where
  "push_all pick [] form d = Ok d"
| "push_all pick (k # ks) form d =
     (case form k of
        None \<Rightarrow> push_all pick ks form d
      | Some v \<Rightarrow>
          (case form_push pick k v d of
             Ok d' \<Rightarrow> push_all pick ks form d'
           | r \<Rightarrow> r))"

text \<open>\<open>PostForm\<close> and \<open>MultipartForm.Value\<close>, empty when they are nil, with their iteration orders.\<close>

definition parseData ::
  "string list \<Rightarrow> (string \<rightharpoonup> string list) \<Rightarrow> string list \<Rightarrow> (string \<rightharpoonup> string list) \<Rightarrow> string forest res"
where
  "parseData ks1 post ks2 multi =
     (case push_all last ks1 post Map.empty of
        Ok d \<Rightarrow> push_all last ks2 multi d
      | r \<Rightarrow> r)"

section \<open>Facts about names\<close>

text \<open>The name of a path as a form writes it.\<close>

definition field_name :: "string list \<Rightarrow> string" where
  "field_name ks = hd ks @ concat (map (\<lambda>k. ''['' @ k @ '']'') (tl ks))"

definition plain_char :: "char \<Rightarrow> bool" where
  "plain_char c \<longleftrightarrow> in_range 0 127 c \<and> c \<notin> set '' []''"

lemma runes_Nil [simp]: "runes [] = []"
  by (simp add: runes.simps)

lemma runes_ascii [simp]: "in_range 0 127 c \<Longrightarrow> runes (c # s) = [c] # runes s"
  by (subst runes.simps) (simp add: rune_width_def)

lemma runes_plain: "list_all plain_char k \<Longrightarrow> runes (k @ s) = map (\<lambda>c. [c]) k @ runes s"
  by (induction k) (simp_all add: plain_char_def)

lemma fetch_plain:
  "plain_char c \<Longrightarrow> fetch_step [c] (pos, keys)
     = (0, if pos = 1 \<or> pos = 2 then keys @ [[c]] else butlast keys @ [last keys @ [c]])"
  by (auto simp: plain_char_def fetch_step_def Let_def)

lemma fetch_word:
  "list_all plain_char k \<Longrightarrow> k \<noteq> [] \<Longrightarrow> keys \<noteq> [] \<Longrightarrow>
     fold fetch_step (map (\<lambda>c. [c]) k) (pos, keys)
       = (0, if pos = 1 \<or> pos = 2 then keys @ [k] else butlast keys @ [last keys @ k])"
proof (induction k arbitrary: pos keys)
  case (Cons c k)
  show ?case
  proof (cases "k = []")
    case True
    with Cons.prems show ?thesis by (simp add: fetch_plain)
  next
    case False
    with Cons show ?thesis by (simp add: fetch_plain butlast_append)
  qed
qed simp

lemma fetch_group:
  assumes "list_all plain_char k" "keys \<noteq> []"
  shows "fold fetch_step (runes (''['' @ k @ '']'' @ s)) (pos, keys) = fold fetch_step (runes s) (2, keys @ [k])"
proof -
  have "runes (''['' @ k @ '']'' @ s) = ''['' # map (\<lambda>c. [c]) k @ '']'' # runes s"
    using runes_plain [OF assms(1), of "CHR '']'' # s"] by (simp add: in_range_def)
  moreover have "fetch_step ''['' (pos, keys) = (1, keys)" by (simp add: fetch_step_def)
  moreover have "fetch_step '']'' (p, ks) = (2, if p = 1 then ks @ [[]] else ks)" for p ks
    by (simp add: fetch_step_def)
  ultimately show ?thesis
    using fetch_word [OF assms(1) _ assms(2), of 1] by (cases "k = []") simp_all
qed

lemma fetch_groups:
  "\<forall>k \<in> set ks. list_all plain_char k \<Longrightarrow> keys \<noteq> [] \<Longrightarrow>
     snd (fold fetch_step (runes (concat (map (\<lambda>k. ''['' @ k @ '']'') ks))) (pos, keys)) = keys @ ks"
proof (induction ks arbitrary: pos keys)
  case (Cons k ks)
  with fetch_group [of k keys "concat (map (\<lambda>k. ''['' @ k @ '']'') ks)" pos] show ?case by simp
qed simp

text \<open>
  Printing a path as a field name and splitting the name gives the path back: \<open>a[b][]\<close> is the
  path \<open>a\<close>, \<open>b\<close> and the empty index, whatever the indexes, as long as they are ASCII without spaces
  and brackets.
\<close>
theorem FetchIndexes_field_name:
  assumes "ks \<noteq> []" "\<forall>k \<in> set ks. list_all plain_char k"
  shows "FetchIndexes (field_name ks) = ks"
proof -
  obtain k ks' where ks: "ks = k # ks'" using assms(1) by (cases ks) auto
  let ?s = "concat (map (\<lambda>k. ''['' @ k @ '']'') ks')"
  have "FetchIndexes (field_name ks) = snd (fold fetch_step (runes ?s) (fold fetch_step (map (\<lambda>c. [c]) k) (0, [[]])))"
    using assms(2) by (simp add: FetchIndexes_def field_name_def ks runes_plain)
  also have "fold fetch_step (map (\<lambda>c. [c]) k) (0, [[]]) = (0, [k])"
    using fetch_word [of k "[[]]" 0] assms(2) ks by (cases "k = []") simp_all
  finally show ?thesis using fetch_groups [of ks' "[k]" 0] assms(2) ks by simp
qed

theorem FetchIndexes_field_name_witness: "FetchIndexes ''user[address][]'' = [''user'', ''address'', []]"
  using FetchIndexes_field_name [of "[''user'', ''address'', []]"]
  by (simp add: field_name_def plain_char_def in_range_def)

section \<open>Facts about the tree\<close>

fun lookup :: "string list \<Rightarrow> 'v forest \<Rightarrow> 'v tree option" where
  "lookup [] d = Some (Node d)"
| "lookup (k # ks) d =
     (if ks = [] then d k
      else case d k of Some (Node m) \<Rightarrow> lookup ks m | _ \<Rightarrow> None)"

declare lookup.simps [simp del]

lemma lookup_simps [simp]:
  "lookup [k] d = d k"
  "ks \<noteq> [] \<Longrightarrow> lookup (k # ks) d = (case d k of Some (Node m) \<Rightarrow> lookup ks m | _ \<Rightarrow> None)"
  by (simp_all add: lookup.simps)

lemma lookup_empty: "ks \<noteq> [] \<Longrightarrow> lookup ks Map.empty = None"
  by (cases ks) (simp_all add: lookup.simps)

text \<open>Where a value goes, and what is stored there.\<close>

definition array_field :: "string list \<Rightarrow> bool" where
  "array_field ks \<longleftrightarrow> 2 \<le> length ks \<and> last ks = []"

definition field_path :: "string list \<Rightarrow> string list" where
  "field_path ks = (if array_field ks then butlast ks else ks)"

definition field_value :: "('v list \<Rightarrow> 'v) \<Rightarrow> string list \<Rightarrow> 'v list \<Rightarrow> 'v tree" where
  "field_value pick ks v = (if array_field ks then Seq v else Leaf (pick v))"

lemma field_path_simps:
  "field_path [k] = [k]" "field_path [k, []] = [k]"
  "ks \<noteq> [] \<Longrightarrow> ks \<noteq> [[]] \<Longrightarrow> field_path (k # ks) = k # field_path ks"
  "ks \<noteq> [] \<Longrightarrow> ks \<noteq> [[]] \<Longrightarrow> field_value pick (k # ks) v = field_value pick ks v"
  by (auto simp: field_path_def field_value_def array_field_def neq_Nil_conv Suc_le_eq split: if_splits)

lemma field_path_nonempty: "ks \<noteq> [] \<Longrightarrow> field_path ks \<noteq> []"
  by (cases ks) (auto simp: field_path_def array_field_def)

text \<open>Some proper prefix of the path already holds a value.\<close>

fun blocked :: "string list \<Rightarrow> 'v forest \<Rightarrow> bool" where
  "blocked [] d = False"
| "blocked (k # ks) d =
     (if ks = [] then False
      else case d k of None \<Rightarrow> False | Some (Node m) \<Rightarrow> blocked ks m | Some _ \<Rightarrow> True)"

declare blocked.simps [simp del]

lemma blocked_empty [simp]: "\<not> blocked ks Map.empty"
  by (cases ks) (simp_all add: blocked.simps)

lemma mount_cases:
  assumes "ks \<noteq> []" "ks \<noteq> [[]]"
  shows "mount pick (k # ks) v d =
    (if \<exists>x. d k = Some x \<and> (\<forall>m. x \<noteq> Node m) then Panic
     else map_res (\<lambda>m'. d(k \<mapsto> Node m')) (mount pick ks v (case d k of Some (Node m) \<Rightarrow> m | _ \<Rightarrow> Map.empty)))"
  using assms by (auto simp: mount.simps split: option.splits tree.splits)

lemma mount_panic_iff:
  "ks \<noteq> [] \<Longrightarrow> v \<noteq> [] \<Longrightarrow> (blocked (field_path ks) d \<longrightarrow> mount pick ks v d = Panic)
     \<and> (\<not> blocked (field_path ks) d \<longrightarrow> (\<exists>d'. mount pick ks v d = Ok d'))"
proof (induction ks arbitrary: d)
  case (Cons k ks)
  show ?case
  proof (cases "ks = [] \<or> ks = [[]]")
    case True
    with Cons.prems show ?thesis by (auto simp: mount.simps field_path_simps blocked.simps)
  next
    case False
    note b = blocked.simps(2) [of k "field_path ks" d]
    from False have p: "field_path (k # ks) = k # field_path ks" by (simp add: field_path_simps)
    have ne: "field_path ks \<noteq> []" using False field_path_nonempty by blast
    show ?thesis
    proof (cases "\<exists>x. d k = Some x \<and> (\<forall>m. x \<noteq> Node m)")
      case True
      then show ?thesis using False ne by (auto simp: mount_cases p b split: tree.splits)
    next
      case nb: False
      with Cons.IH [of "case d k of Some (Node m) \<Rightarrow> m | _ \<Rightarrow> Map.empty"] False Cons.prems(2) ne show ?thesis
        by (auto simp: mount_cases p b map_res_def split: option.splits tree.splits)
    qed
  qed
qed simp

lemma mount_lookup:
  "mount pick ks v d = Ok d' \<Longrightarrow> lookup (field_path ks) d' = Some (field_value pick ks v)"
proof (induction ks arbitrary: d d')
  case (Cons k ks)
  show ?case
  proof (cases "ks = [] \<or> ks = [[]]")
    case True
    with Cons.prems show ?thesis
      by (auto simp: mount.simps field_path_simps field_value_def array_field_def split: if_splits)
  next
    case False
    with Cons.prems obtain m m' where "mount pick ks v m = Ok m'" "d' = d(k \<mapsto> Node m')"
      by (auto simp: mount_cases map_res_Ok split: if_splits)
    with Cons.IH False field_path_nonempty show ?thesis by (simp add: field_path_simps)
  qed
qed (simp add: mount.simps)

lemma mount_frame:
  "mount pick ks v d = Ok d' \<Longrightarrow> q \<noteq> [] \<Longrightarrow> q \<parallel> field_path ks \<Longrightarrow> lookup q d' = lookup q d"
proof (induction ks arbitrary: d d' q)
  case (Cons k ks)
  obtain k' q' where q: "q = k' # q'" using Cons.prems(2) by (cases q) auto
  show ?case
  proof (cases "ks = [] \<or> ks = [[]]")
    case True
    with Cons.prems q have "k' \<noteq> k" by (auto simp: field_path_simps)
    with True Cons.prems q show ?thesis by (auto simp: mount.simps lookup.simps split: if_splits)
  next
    case False
    with Cons.prems obtain m' where m': "mount pick ks v (case d k of Some (Node m) \<Rightarrow> m | _ \<Rightarrow> Map.empty) = Ok m'"
        and d': "d' = d(k \<mapsto> Node m')" and nb: "\<not> (\<exists>x. d k = Some x \<and> (\<forall>m. x \<noteq> Node m))"
      by (auto simp: mount_cases map_res_Ok split: if_splits)
    show ?thesis
    proof (cases "k' = k")
      case True
      with Cons.prems(3) q False have "q' \<parallel> field_path ks" by (simp add: field_path_simps parallel_def)
      then have "q' \<noteq> []" by auto
      with Cons.IH [OF m' this \<open>q' \<parallel> field_path ks\<close>] nb True q d' show ?thesis
        by (auto simp: lookup_empty split: option.splits tree.splits)
    qed (use q d' in \<open>simp add: lookup.simps\<close>)
  qed
qed (simp add: mount.simps)

lemma mount_leaves:
  "mount pick ks v d = Ok d' \<Longrightarrow> q \<noteq> [] \<Longrightarrow> lookup q d' = Some x \<Longrightarrow> (\<forall>m. x \<noteq> Node m) \<Longrightarrow>
     q = field_path ks \<or> lookup q d = Some x"
proof (induction ks arbitrary: d d' q)
  case (Cons k ks)
  obtain k' q' where q: "q = k' # q'" using Cons.prems(2) by (cases q) auto
  show ?case
  proof (cases "ks = [] \<or> ks = [[]]")
    case True
    with Cons.prems q show ?thesis
      by (auto simp: mount.simps lookup.simps field_path_simps split: if_splits)
  next
    case False
    with Cons.prems obtain m' where m': "mount pick ks v (case d k of Some (Node m) \<Rightarrow> m | _ \<Rightarrow> Map.empty) = Ok m'"
        and d': "d' = d(k \<mapsto> Node m')"
      by (auto simp: mount_cases map_res_Ok split: if_splits)
    show ?thesis
    proof (cases "k' = k")
      case True
      with Cons.prems(3,4) q d' have q': "q' \<noteq> []" "lookup q' m' = Some x" by (auto simp: lookup.simps split: if_splits)
      from Cons.IH [OF m' q' Cons.prems(4)] False True q q'(1) show ?thesis
        by (auto simp: field_path_simps lookup_empty split: option.splits tree.splits)
    next
      case False
      then have "lookup q d' = lookup q d" using q d' by (simp add: lookup.simps)
      with Cons.prems(3) show ?thesis by simp
    qed
  qed
qed (simp add: mount.simps)

lemma blocked_lookup:
  "blocked p d \<Longrightarrow> \<exists>q x. q \<noteq> [] \<and> strict_prefix q p \<and> lookup q d = Some x \<and> (\<forall>m. x \<noteq> Node m)"
proof (induction p arbitrary: d)
  case (Cons k p)
  then have p: "p \<noteq> []" by (auto simp: blocked.simps)
  then obtain x where x: "d k = Some x" using Cons.prems by (auto simp: blocked.simps split: option.splits)
  show ?case
  proof (cases x)
    case (Node m)
    with Cons.prems p x have "blocked p m" by (simp add: blocked.simps)
    from Cons.IH [OF this] obtain q y where "q \<noteq> []" "strict_prefix q p" "lookup q m = Some y" "\<forall>m. y \<noteq> Node m"
      by blast
    then have "k # q \<noteq> [] \<and> strict_prefix (k # q) (k # p) \<and> lookup (k # q) d = Some y \<and> (\<forall>m. y \<noteq> Node m)"
      using x Node by simp
    then show ?thesis by blast
  next
    case (Leaf v)
    then have "[k] \<noteq> [] \<and> strict_prefix [k] (k # p) \<and> lookup [k] d = Some x \<and> (\<forall>m. x \<noteq> Node m)"
      using x p by (simp add: strict_prefix_def)
    then show ?thesis by blast
  next
    case (Seq v)
    then have "[k] \<noteq> [] \<and> strict_prefix [k] (k # p) \<and> lookup [k] d = Some x \<and> (\<forall>m. x \<noteq> Node m)"
      using x p by (simp add: strict_prefix_def)
    then show ?thesis by blast
  qed
qed (simp add: blocked.simps)

lemma fetch_nonempty: "keys \<noteq> [] \<Longrightarrow> snd (fold fetch_step rs (pos, keys)) \<noteq> []"
proof (induction rs arbitrary: pos keys)
  case (Cons r rs)
  obtain pos' keys' where s: "fetch_step r (pos, keys) = (pos', keys')" by fastforce
  then have "keys' \<noteq> []" using Cons.prems by (auto simp: fetch_step_def Let_def split: if_splits)
  with Cons.IH s show ?case by simp
qed simp

lemma FetchIndexes_nonempty [simp]: "FetchIndexes s \<noteq> []"
  by (simp add: FetchIndexes_def fetch_nonempty)

abbreviation name_path :: "string \<Rightarrow> string list" where
  "name_path n \<equiv> field_path (FetchIndexes n)"

text \<open>The fields of a form do not collide, are not nested too deep and have a value.\<close>

definition well_formed :: "(string \<rightharpoonup> 'v list) \<Rightarrow> bool" where
  "well_formed form \<longleftrightarrow>
     (\<forall>n v. form n = Some v \<longrightarrow> v \<noteq> [] \<and> length (FetchIndexes n) \<le> MaxLevel)
   \<and> (\<forall>n \<in> dom form. \<forall>n' \<in> dom form. n \<noteq> n' \<longrightarrow> name_path n \<parallel> name_path n')"

text \<open>What is in the tree after the fields \<open>done\<close>: their values, and no other value.\<close>

definition mounted :: "('v list \<Rightarrow> 'v) \<Rightarrow> (string \<rightharpoonup> 'v list) \<Rightarrow> string set \<Rightarrow> 'v forest \<Rightarrow> bool" where
  "mounted pick form done d \<longleftrightarrow>
     (\<forall>n v. n \<in> done \<longrightarrow> form n = Some v \<longrightarrow> lookup (name_path n) d = Some (field_value pick (FetchIndexes n) v))
   \<and> (\<forall>q x. q \<noteq> [] \<longrightarrow> lookup q d = Some x \<longrightarrow> (\<forall>m. x \<noteq> Node m) \<longrightarrow> (\<exists>n \<in> done. q = name_path n))"

lemma mounted_empty: "mounted pick form {} Map.empty"
  by (simp add: mounted_def lookup_empty)

lemma mounted_step:
  assumes "well_formed form" "mounted pick form done d" "done \<subseteq> dom form" "n \<notin> done" "form n = Some v"
  shows "\<exists>d'. form_push pick n v d = Ok d' \<and> mounted pick form (insert n done) d'"
proof -
  from assms(1,5) have v: "v \<noteq> []" "length (FetchIndexes n) \<le> MaxLevel" by (auto simp: well_formed_def)
  have par: "name_path n' \<parallel> name_path n" if "n' \<in> done" for n'
  proof -
    have "n' \<in> dom form" "n \<in> dom form" "n' \<noteq> n" using that assms(3-5) by auto
    with assms(1) show ?thesis unfolding well_formed_def by blast
  qed
  have "\<not> blocked (name_path n) d"
  proof
    assume "blocked (name_path n) d"
    then obtain q x where "q \<noteq> []" "strict_prefix q (name_path n)" "lookup q d = Some x" "\<forall>m. x \<noteq> Node m"
      using blocked_lookup by blast
    with assms(2) obtain n' where "n' \<in> done" "q = name_path n'" unfolding mounted_def by blast
    with par \<open>strict_prefix q (name_path n)\<close> show False by (auto simp: parallel_def strict_prefix_def)
  qed
  then obtain d' where d': "mount pick (FetchIndexes n) v d = Ok d'"
    using mount_panic_iff [of "FetchIndexes n" v d pick] v by auto
  have "lookup (name_path n') d' = lookup (name_path n') d" if "n' \<in> done" for n'
    using mount_frame [OF d' _ par [OF that]] field_path_nonempty by simp
  moreover have "\<exists>n' \<in> insert n done. q = name_path n'"
    if "q \<noteq> []" "lookup q d' = Some x" "\<forall>m. x \<noteq> Node m" for q x
    using mount_leaves [OF d' that] assms(2) that(1,3) unfolding mounted_def by blast
  ultimately have "mounted pick form (insert n done) d'"
    using mount_lookup [OF d'] assms(2,5) unfolding mounted_def by auto
  with d' v show ?thesis by (simp add: form_push_def)
qed

lemma push_all_mounted:
  assumes "well_formed form"
  shows "mounted pick form done d \<Longrightarrow> done \<subseteq> dom form \<Longrightarrow> distinct ks \<Longrightarrow> set ks \<subseteq> dom form - done \<Longrightarrow>
    \<exists>d'. push_all pick ks form d = Ok d' \<and> mounted pick form (done \<union> set ks) d'"
proof (induction ks arbitrary: d "done")
  case (Cons k ks)
  then obtain v where v: "form k = Some v" by auto
  with mounted_step [OF assms Cons.prems(1,2) _ v] Cons.prems obtain d1 where
    d1: "form_push pick k v d = Ok d1" "mounted pick form (insert k done) d1" by auto
  with Cons.IH [of "insert k done" d1] Cons.prems v show ?case by auto
qed simp

text \<open>
  C22: Every field of a form without collisions arrives.  In whatever order Go iterates over the form,
  parsing does not panic, each name is mounted at the path it spells, with its last value, or with
  all values for a name ending in \<open>[]\<close>, and the tree holds no other value.
\<close>
theorem parseData_fields:
  assumes "well_formed form" "range_order form ks"
  shows "\<exists>t. parseData ks form [] Map.empty = Ok t
    \<and> (\<forall>n v. form n = Some v \<longrightarrow> lookup (name_path n) t = Some (field_value last (FetchIndexes n) v))
    \<and> (\<forall>q x. q \<noteq> [] \<longrightarrow> lookup q t = Some x \<longrightarrow> (\<forall>m. x \<noteq> Node m) \<longrightarrow> (\<exists>n \<in> dom form. q = name_path n))"
proof -
  note r = range_orderD(1,2) [OF assms(2)]
  from push_all_mounted [OF assms(1) mounted_empty, of ks last] r obtain t where
    "push_all last ks form Map.empty = Ok t" "mounted last form (set ks) t" by auto
  with r(2) show ?thesis by (auto simp: parseData_def mounted_def)
qed

definition sample_form :: "string \<rightharpoonup> string list" where
  "sample_form = [''a[b]'' \<mapsto> [''1'', ''2''], ''c[]'' \<mapsto> [''x'', ''y'']]"

lemma sample_names: "FetchIndexes ''a[b]'' = [''a'', ''b'']" "FetchIndexes ''c[]'' = [''c'', []]" "FetchIndexes ''a'' = [''a'']"
  by (simp_all add: FetchIndexes_def in_range_def fetch_step_def)

theorem parseData_fields_witness:
  "\<exists>t. parseData [''c[]'', ''a[b]''] sample_form [] Map.empty = Ok t
     \<and> lookup [''a'', ''b''] t = Some (Leaf ''2'') \<and> lookup [''c''] t = Some (Seq [''x'', ''y''])"
proof -
  have "well_formed sample_form"
    by (auto simp: well_formed_def sample_form_def sample_names MaxLevel_def field_path_def array_field_def parallel_def
        split: if_splits)
  moreover have "range_order sample_form [''c[]'', ''a[b]'']" by (auto simp: range_order_def sample_form_def)
  ultimately obtain t where t: "parseData [''c[]'', ''a[b]''] sample_form [] Map.empty = Ok t"
    "\<And>n v. sample_form n = Some v \<Longrightarrow> lookup (name_path n) t = Some (field_value last (FetchIndexes n) v)"
    using parseData_fields by blast
  from t(2) [of "''a[b]''"] t(2) [of "''c[]''"] t(1) show ?thesis
    by (simp add: sample_form_def sample_names field_path_def field_value_def array_field_def)
qed

text \<open>
  A form in which one name is a prefix of another has no defined result.  If \<open>a\<close> and \<open>a[b]\<close> are
  both present, visiting \<open>a\<close> first ends in a panic, and visiting it second silently drops \<open>a[b]\<close>;
  which of the two happens is the order in which Go iterates over the map.
\<close>
theorem parseData_conflict:
  assumes "FetchIndexes n = [k]" "FetchIndexes n' = [k, k']" "k' \<noteq> []"
    and "form = [n \<mapsto> v, n' \<mapsto> v']" "n \<noteq> n'" "v \<noteq> []" "v' \<noteq> []"
  shows "parseData [n, n'] form [] Map.empty = Panic
    \<and> parseData [n', n] form [] Map.empty = Ok [k \<mapsto> Leaf (last v)]"
  using assms by (simp add: parseData_def form_push_def MaxLevel_def mount.simps map_res_def)

theorem parseData_conflict_witness:
  "parseData [''a'', ''a[b]''] [''a'' \<mapsto> [''1''], ''a[b]'' \<mapsto> [''2'']] [] Map.empty = Panic
   \<and> parseData [''a[b]'', ''a''] [''a'' \<mapsto> [''1''], ''a[b]'' \<mapsto> [''2'']] [] Map.empty = Ok [''a'' \<mapsto> Leaf ''1'']"
  using parseData_conflict [of "''a''" "''a''" "''a[b]''" "''b''" _ "[''1'']" "[''2'']"]
  by (simp add: sample_names)

end
