(* ===== verification/Go_Net.thy ===== *)
theory Go_Net
  imports Go_Lib
begin

text \<open>
  The functions of Go's \<open>net\<close> and \<open>net/textproto\<close> packages that the HTTP components call: header
  maps, \<open>SplitHostPort\<close>, \<open>ParseIP\<close>, \<open>ParseCIDR\<close> and \<open>IPNet.Contains\<close>.  An address is its 128-bit value
  as a number; IPv4 addresses are the ones below \<open>::ffff:0:0/96\<close>.
\<close>

section \<open>Headers\<close>

definition token_char :: "char \<Rightarrow> bool" where
  "token_char c \<longleftrightarrow> c \<in> set ''!#$%&*+-.^_`|~0123456789'' \<or> of_char c = (39 :: nat)
     \<or> 65 \<le> (of_char c :: nat) \<and> (of_char c :: nat) \<le> 90 \<or> 97 \<le> (of_char c :: nat) \<and> (of_char c :: nat) \<le> 122"

definition upper_char :: "char \<Rightarrow> char" where
  "upper_char c =
     (if 97 \<le> (of_char c :: nat) \<and> (of_char c :: nat) \<le> 122 then char_of ((of_char c :: nat) - 32) else c)"

fun capitalize :: "bool \<Rightarrow> string \<Rightarrow> string" where
  "capitalize up [] = []"
| "capitalize up (c # cs) = (if up then upper_char c else lower_char c) # capitalize (c = CHR ''-'') cs"

definition canonical_key :: "string \<Rightarrow> string" where
  "canonical_key k = (if list_all token_char k then capitalize True k else k)"

lemma dash_code: "c = CHR ''-'' \<longleftrightarrow> (of_char c :: nat) = 45"
  using of_char_eq_iff [where 'a = nat, of c "CHR ''-''"] by simp

lemma case_char_dash: "upper_char c = CHR ''-'' \<longleftrightarrow> c = CHR ''-''" "lower_char c = CHR ''-'' \<longleftrightarrow> c = CHR ''-''"
  by (auto simp: dash_code upper_char_def lower_char_def)

lemma case_char_idem: "upper_char (upper_char c) = upper_char c" "lower_char (lower_char c) = lower_char c"
  by (auto simp: upper_char_def lower_char_def)

lemma case_char_token: "token_char c \<Longrightarrow> token_char (upper_char c)" "token_char c \<Longrightarrow> token_char (lower_char c)"
  by (auto simp: upper_char_def lower_char_def token_char_def)

lemma capitalize_idem: "capitalize up (capitalize up k) = capitalize up k"
  by (induction k arbitrary: up) (auto simp: case_char_dash case_char_idem)

lemma capitalize_token: "list_all token_char k \<Longrightarrow> list_all token_char (capitalize up k)"
  by (induction k arbitrary: up) (auto simp: case_char_token)

lemma canonical_key_idem [simp]: "canonical_key (canonical_key k) = canonical_key k"
  by (simp add: canonical_key_def capitalize_idem capitalize_token)

type_synonym header = "string \<rightharpoonup> string list"

definition header_get :: "header \<Rightarrow> string \<Rightarrow> string" where
  "header_get h k = (case h (canonical_key k) of Some (v # vs) \<Rightarrow> v | _ \<Rightarrow> [])"

definition header_set :: "string \<Rightarrow> string \<Rightarrow> header \<Rightarrow> header" where
  "header_set k v h = h(canonical_key k \<mapsto> [v])"

definition header_add :: "string \<Rightarrow> string \<Rightarrow> header \<Rightarrow> header" where
  "header_add k v h = h(canonical_key k \<mapsto> (case h (canonical_key k) of None \<Rightarrow> [] | Some vs \<Rightarrow> vs) @ [v])"

definition header_del :: "string \<Rightarrow> header \<Rightarrow> header" where
  "header_del k h = h(canonical_key k := None)"

section \<open>Hosts\<close>

definition last_index :: "char \<Rightarrow> string \<Rightarrow> nat option" where
  "last_index c s = map_option (\<lambda>i. length s - Suc i) (index_byte (rev s) c)"

text \<open>\<open>net.SplitHostPort\<close>; every error returns empty strings.\<close>

definition split_host_port :: "string \<Rightarrow> (string \<times> string) option" where
  "split_host_port s =
     (case last_index CHR '':'' s of
        None \<Rightarrow> None
      | Some i \<Rightarrow>
          if hd s = CHR ''['' then
            (case index_byte s CHR '']'' of
               None \<Rightarrow> None
             | Some e \<Rightarrow>
                 if Suc e \<noteq> i then None
                 else if CHR ''['' \<in> set (drop 1 s) \<or> CHR '']'' \<in> set (drop (Suc e) s) then None
                 else Some (take (e - 1) (drop 1 s), drop (Suc i) s))
          else if CHR '':'' \<in> set (take i s) \<or> CHR ''['' \<in> set s \<or> CHR '']'' \<in> set s then None
          else Some (take i s, drop (Suc i) s))"

section \<open>Addresses\<close>

definition parse_octet :: "string \<Rightarrow> nat option" where
  "parse_octet s =
     (if s \<noteq> [] \<and> list_all is_digit s \<and> digits_val s \<le> 255 \<and> (1 < length s \<longrightarrow> hd s \<noteq> CHR ''0'')
      then Some (digits_val s) else None)"

definition v4_prefix :: nat where
  "v4_prefix = 0xffff * 2 ^ 32"

definition ip4 :: "nat \<Rightarrow> nat \<Rightarrow> nat \<Rightarrow> nat \<Rightarrow> nat" where
  "ip4 a b c d = v4_prefix + ((a * 256 + b) * 256 + c) * 256 + d"

definition parse_ipv4 :: "string \<Rightarrow> nat option" where
  "parse_ipv4 s =
     (case map parse_octet (split_byte CHR ''.'' s) of
        [Some a, Some b, Some c, Some d] \<Rightarrow> Some (ip4 a b c d)
      | _ \<Rightarrow> None)"

definition is_hex :: "char \<Rightarrow> bool" where
  "is_hex c \<longleftrightarrow> is_digit c \<or> 97 \<le> (of_char (lower_char c) :: nat) \<and> (of_char (lower_char c) :: nat) \<le> 102"

definition hex_val :: "char \<Rightarrow> nat" where
  "hex_val c = (if is_digit c then digit_val c else of_char (lower_char c) - 87)"

text \<open>
  The loop of \<open>parseIPv6\<close> over 16-bit groups: the groups read so far, the position of the ellipsis
  and the rest of the input; the result is the groups, the ellipsis and what was not read.
\<close>

function ipv6_loop :: "nat list \<Rightarrow> nat option \<Rightarrow> string \<Rightarrow> (nat list \<times> nat option \<times> string) option" where
  "ipv6_loop gs el s =
     (if 8 \<le> length gs then Some (gs, el, s)
      else
        let ds = takeWhile is_hex s; r = dropWhile is_hex s;
            n = foldl (\<lambda>a c. a * 16 + hex_val c) 0 ds
        in if ds = [] \<or> 0xffff < n then None
        else if r \<noteq> [] \<and> hd r = CHR ''.'' then
          (if el = None \<and> length gs \<noteq> 6 \<or> 6 < length gs then None
           else case parse_ipv4 s of
             None \<Rightarrow> None
           | Some v \<Rightarrow> Some (gs @ [v mod 2 ^ 32 div 2 ^ 16, v mod 2 ^ 16], el, []))
        else
          let gs1 = gs @ [n] in
          if r = [] then Some (gs1, el, [])
          else if hd r \<noteq> CHR '':'' \<or> length r = 1 then None
          else let s1 = tl r in
            if hd s1 = CHR '':'' then
              (if el \<noteq> None then None
               else let s2 = tl s1 in
                 if s2 = [] then Some (gs1, Some (length gs1), [])
                 else ipv6_loop gs1 (Some (length gs1)) s2)
            else ipv6_loop gs1 el s1)"
  by pat_completeness auto
termination
  by (relation "measure (\<lambda>(gs, el, s). 8 - length gs)") auto

declare ipv6_loop.simps [simp del]

definition groups_val :: "nat list \<Rightarrow> nat" where
  "groups_val gs = foldl (\<lambda>a g. a * 2 ^ 16 + g) 0 gs"

definition parse_ipv6 :: "string \<Rightarrow> nat option" where
  "parse_ipv6 s =
     (let (el, s1) = (if has_prefix s ''::'' then (Some 0, drop 2 s) else (None, s)) in
      if el \<noteq> None \<and> s1 = [] then Some 0
      else case ipv6_loop [] el s1 of
        None \<Rightarrow> None
      | Some (gs, e, rest) \<Rightarrow>
          if rest \<noteq> [] then None
          else if length gs < 8 then
            (case e of
               None \<Rightarrow> None
             | Some i \<Rightarrow> Some (groups_val (take i gs @ replicate (8 - length gs) 0 @ drop i gs)))
          else if e \<noteq> None then None
          else Some (groups_val gs))"

definition ParseIP :: "string \<Rightarrow> nat option" where
  "ParseIP s =
     (case find (\<lambda>c. c = CHR ''.'' \<or> c = CHR '':'') s of
        None \<Rightarrow> None
      | Some c \<Rightarrow> if c = CHR ''.'' then parse_ipv4 s else parse_ipv6 s)"

definition is_v4 :: "nat \<Rightarrow> bool" where
  "is_v4 ip \<longleftrightarrow> ip div 2 ^ 32 = 0xffff"

section \<open>Networks\<close>

text \<open>The address and the length of the prefix; \<open>Net4\<close> holds the 32-bit value.\<close>

datatype ipnet = Net4 nat nat | Net6 nat nat

definition ParseCIDR :: "string \<Rightarrow> ipnet option" where
  "ParseCIDR s =
     (case index_byte s CHR ''/'' of
        None \<Rightarrow> None
      | Some i \<Rightarrow>
          (let addr = take i s; mask = drop (Suc i) s; n = digits_val mask in
           if mask = [] \<or> \<not> list_all is_digit mask then None
           else case parse_ipv4 addr of
             Some ip \<Rightarrow> if n \<le> 32 then Some (Net4 (ip mod 2 ^ 32) n) else None
           | None \<Rightarrow>
               (case parse_ipv6 addr of
                  Some ip \<Rightarrow> if n \<le> 128 then Some (Net6 (ip div 2 ^ (128 - n) * 2 ^ (128 - n)) n) else None
                | None \<Rightarrow> None)))"

definition same_prefix :: "nat \<Rightarrow> nat \<Rightarrow> nat \<Rightarrow> nat \<Rightarrow> bool" where
  "same_prefix width n a b \<longleftrightarrow> a div 2 ^ (width - n) = b div 2 ^ (width - n)"

fun net_contains :: "ipnet \<Rightarrow> nat \<Rightarrow> bool" where
  "net_contains (Net4 a n) ip = (is_v4 ip \<and> same_prefix 32 n a (ip mod 2 ^ 32))"
| "net_contains (Net6 a n) ip =
     (if is_v4 a then is_v4 ip \<and> same_prefix 32 (n - 96) (a mod 2 ^ 32) (ip mod 2 ^ 32)
      else \<not> is_v4 ip \<and> same_prefix 128 n a ip)"

section \<open>Facts\<close>

lemma index_byte_None: "index_byte s c = None \<longleftrightarrow> c \<notin> set s"
  by (induction s) auto

lemma split_byte_single: "c \<notin> set s \<Longrightarrow> split_byte c s = [s]"
  by (induction s) auto

lemma split_byte_append: "c \<notin> set s \<Longrightarrow> split_byte c (s @ c # t) = s # split_byte c t"
  by (induction s) auto

lemma digits_no_sep: "list_all is_digit s \<Longrightarrow> \<not> is_digit c \<Longrightarrow> c \<notin> set s"
  by (auto simp: list_all_iff)

lemma show_nat_hd: "0 < n \<Longrightarrow> hd (show_nat n) \<noteq> CHR ''0''"
proof (induction n rule: show_nat.induct)
  case (1 n)
  show ?case
  proof (cases "n < 10")
    case True
    have "digit_val CHR ''0'' = 0" by (simp add: digit_val_def)
    then have "digit_char n \<noteq> CHR ''0''" using digit_val_char [OF True] 1 by auto
    with True show ?thesis by (subst show_nat.simps) simp
  next
    case False
    with 1 show_nat_digits [of "n div 10"] show ?thesis by (subst show_nat.simps) auto
  qed
qed

lemma show_nat_short: "n < 10 \<Longrightarrow> length (show_nat n) = 1"
  by (subst show_nat.simps) simp

lemma parse_octet_show: "n < 256 \<Longrightarrow> parse_octet (show_nat n) = Some n"
  using show_nat_digits [of n] show_nat_hd [of n] show_nat_short [of n]
  by (cases "n = 0") (auto simp: parse_octet_def digits_val_show_nat)

definition show_ip4 :: "nat \<Rightarrow> nat \<Rightarrow> nat \<Rightarrow> nat \<Rightarrow> string" where
  "show_ip4 a b c d = show_nat a @ ''.'' @ show_nat b @ ''.'' @ show_nat c @ ''.'' @ show_nat d"

lemma not_digit_dot [simp]: "\<not> is_digit CHR ''.''" "\<not> is_digit CHR '':''" "\<not> is_digit CHR ''/''"
  by (simp_all add: is_digit_def)

lemma show_nat_no_dot: "CHR ''.'' \<notin> set (show_nat n)" "CHR '':'' \<notin> set (show_nat n)"
  using show_nat_digits [of n] digits_no_sep by auto

lemma parse_ipv4_show:
  "a < 256 \<Longrightarrow> b < 256 \<Longrightarrow> c < 256 \<Longrightarrow> d < 256 \<Longrightarrow> parse_ipv4 (show_ip4 a b c d) = Some (ip4 a b c d)"
  by (simp add: parse_ipv4_def show_ip4_def split_byte_append split_byte_single show_nat_no_dot parse_octet_show)

lemma find_dot: "CHR ''.'' \<notin> set s \<Longrightarrow> CHR '':'' \<notin> set s \<Longrightarrow>
    find (\<lambda>c. c = CHR ''.'' \<or> c = CHR '':'') (s @ CHR ''.'' # t) = Some CHR ''.''"
  by (induction s) auto

text \<open>Printing and parsing a dotted address are inverse.\<close>

lemma ParseIP_show:
  "a < 256 \<Longrightarrow> b < 256 \<Longrightarrow> c < 256 \<Longrightarrow> d < 256 \<Longrightarrow> ParseIP (show_ip4 a b c d) = Some (ip4 a b c d)"
  using parse_ipv4_show [of a b c d]
  by (simp add: ParseIP_def show_ip4_def find_dot show_nat_no_dot)

lemma ip4_v4: "a < 256 \<Longrightarrow> b < 256 \<Longrightarrow> c < 256 \<Longrightarrow> d < 256 \<Longrightarrow> is_v4 (ip4 a b c d)"
  by (simp add: is_v4_def ip4_def v4_prefix_def)

lemma v4_mod: "x < 2 ^ 32 \<Longrightarrow> (v4_prefix + x) mod 2 ^ 32 = x"
  by (subst mod_add_left_eq [symmetric]) (simp add: v4_prefix_def)

lemma ip4_mod: "a < 256 \<Longrightarrow> b < 256 \<Longrightarrow> c < 256 \<Longrightarrow> d < 256 \<Longrightarrow>
    ip4 a b c d mod 2 ^ 32 = ((a * 256 + b) * 256 + c) * 256 + d"
  using v4_mod [of "((a * 256 + b) * 256 + c) * 256 + d"] by (simp add: ip4_def add.assoc)

end
