(* ===== verification/Http_Config.thy ===== *)
theory Http_Config
  imports Go_Net
begin

text \<open>
  Configuration of the HTTP plugin (\<open>http/config\<close>): defaults, validation, and the trusted subnets.
  The file system behind \<open>os.Stat\<close> and the directory of \<open>os.TempDir\<close> are arguments.
\<close>

section \<open>Uploads\<close>

record uploads_config =
  up_dir :: string
  up_forbid :: "string list"
  up_allow :: "string list"
  up_forbidden :: "string set"
  up_allowed :: "string set"

definition uploads_InitDefaults :: "string \<Rightarrow> uploads_config \<Rightarrow> uploads_config" where
  "uploads_InitDefaults tmp cfg =
     (let forbid = (if up_forbid cfg = [] then [''.php'', ''.exe'', ''.bat''] else up_forbid cfg) in
      cfg\<lparr>up_dir := (if up_dir cfg = [] then tmp else up_dir cfg),
          up_forbidden := set forbid,
          up_allowed := set (up_allow cfg) - set forbid,
          up_forbid := [], up_allow := []\<rparr>)"

section \<open>TLS\<close>

record acme_config =
  ac_cache_dir :: string
  ac_email :: string
  ac_challenge :: string
  ac_alt_http :: int
  ac_domains :: "string list"

definition acme_InitDefaults :: "acme_config \<Rightarrow> acme_config \<times> unit res" where
  "acme_InitDefaults ac =
     (let ac1 = (if ac_cache_dir ac = [] then ac\<lparr>ac_cache_dir := ''rr_cache_dir''\<rparr> else ac) in
      if ac_email ac1 = [] then (ac1, Err (Str ''email could not be empty''))
      else if ac_domains ac1 = [] then (ac1, Err (Str ''should be at least 1 domain''))
      else if ac_challenge ac1 = []
      then (ac1\<lparr>ac_challenge := ''http-01'', ac_alt_http := (if ac_alt_http ac1 = 0 then 80 else ac_alt_http ac1)\<rparr>, Ok ())
      else (ac1, Ok ()))"

record ssl_config =
  ssl_address :: string
  ssl_acme :: "acme_config option"
  ssl_redirect :: bool
  ssl_key :: string
  ssl_cert :: string
  ssl_root_ca :: string
  ssl_host :: string
  ssl_port :: int

definition ssl_InitDefaults :: "ssl_config \<Rightarrow> ssl_config \<times> unit res" where
  "ssl_InitDefaults s =
     (let (s1, r) = (case ssl_acme s of
                       None \<Rightarrow> (s, Ok ())
                     | Some ac \<Rightarrow> (let (ac1, r) = acme_InitDefaults ac in (s\<lparr>ssl_acme := Some ac1\<rparr>, r))) in
      if r \<noteq> Ok () then (s1, r)
      else (if ssl_address s1 = [] then s1\<lparr>ssl_address := ''127.0.0.1:443''\<rparr> else s1, Ok ()))"

datatype stat = Exists | NotExist | StatError error

text \<open>The three checks of a file; \<open>what\<close> is the message for a missing file.\<close>

definition check_file :: "(string \<Rightarrow> stat) \<Rightarrow> string \<Rightarrow> error \<Rightarrow> unit res" where
  "check_file os_stat f what =
     (case os_stat f of Exists \<Rightarrow> Ok () | NotExist \<Rightarrow> Err (EOp ''ssl_valid'' what) | StatError e \<Rightarrow> Err e)"

text \<open>The part of \<open>Valid\<close> after the address.\<close>

definition ssl_files :: "(string \<Rightarrow> stat) \<Rightarrow> ssl_config \<Rightarrow> unit res" where
  "ssl_files os_stat s =
     (let own = (if ssl_acme s = None
                 then (case check_file os_stat (ssl_key s) (Str (''key file '' @ CHR 0x27 # ssl_key s @ CHR 0x27 # '' does not exists'')) of
                         Ok _ \<Rightarrow> check_file os_stat (ssl_cert s) (Str (''cert file '' @ CHR 0x27 # ssl_cert s @ CHR 0x27 # '' does not exists''))
                       | r \<Rightarrow> r)
                 else Ok ()) in
      if own \<noteq> Ok () then own
      else if ssl_root_ca s \<noteq> []
      then check_file os_stat (ssl_root_ca s)
             (Str (''root ca path provided, but path '' @ CHR 0x27 # ssl_root_ca s @ CHR 0x27 # '' does not exists''))
      else Ok ())"

definition ssl_Valid :: "(string \<Rightarrow> stat) \<Rightarrow> ssl_config \<Rightarrow> ssl_config \<times> unit res" where
  "ssl_Valid os_stat s =
     (case split_byte CHR '':'' (ssl_address s) of
        [h, p] \<Rightarrow>
          (let s1 = s\<lparr>ssl_host := (if h = [] then ''127.0.0.1'' else h)\<rparr> in
           case parse_int p of
             None \<Rightarrow> (s1, Err (EOp ''ssl_valid'' (Str (''strconv.Atoi: parsing '' @ p))))
           | Some port \<Rightarrow> (let s2 = s1\<lparr>ssl_port := port\<rparr> in (s2, ssl_files os_stat s2)))
      | _ \<Rightarrow> (s, Err (EOp ''ssl_valid''
               (Str (''unknown format, accepted format is [:<port> or <host>:<port>], provided: '' @ ssl_address s)))))"

section \<open>The HTTP section\<close>

record pool_config =
  pc_debug :: bool
  pc_workers :: nat
  pc_max_jobs :: nat
  pc_allocate :: int
  pc_destroy :: int

record http2_config =
  h2_h2c :: bool
  h2_streams :: u32

definition http2_InitDefaults :: "http2_config \<Rightarrow> http2_config" where
  "http2_InitDefaults c = (if h2_streams c = 0 then c\<lparr>h2_streams := 128\<rparr> else c)"

record http_config =
  hc_address :: string
  hc_access_logs :: bool
  hc_pool :: "pool_config option"
  hc_internal_code :: u64
  hc_ssl :: "ssl_config option"
  hc_fcgi :: "string option"
  hc_http2 :: "http2_config option"
  hc_uploads :: "uploads_config option"
  hc_max_size :: u64
  hc_subnets :: "string list option"
  hc_cidrs :: "ipnet list"

definition EnableHTTP :: "http_config \<Rightarrow> bool" where
  "EnableHTTP c \<longleftrightarrow> hc_address c \<noteq> []"

definition EnableTLS :: "http_config \<Rightarrow> bool" where
  "EnableTLS c =
     (case hc_ssl c of
        None \<Rightarrow> False
      | Some s \<Rightarrow> if ssl_acme s \<noteq> None then True else ssl_key s \<noteq> [] \<or> ssl_cert s \<noteq> [])"

definition EnableH2C :: "http_config \<Rightarrow> bool" where
  "EnableH2C c = (case hc_http2 c of None \<Rightarrow> False | Some h \<Rightarrow> h2_h2c h)"

definition EnableFCGI :: "http_config \<Rightarrow> bool" where
  "EnableFCGI c = (case hc_fcgi c of None \<Rightarrow> False | Some a \<Rightarrow> a \<noteq> [])"

definition EnableACME :: "http_config \<Rightarrow> bool" where
  "EnableACME c = (case hc_ssl c of None \<Rightarrow> False | Some s \<Rightarrow> ssl_acme s \<noteq> None)"

fun ParseCIDRs :: "string list \<Rightarrow> ipnet list res" where
  "ParseCIDRs [] = Ok []"
| "ParseCIDRs (s # ss) =
     (case ParseCIDR s of
        None \<Rightarrow> Err (Str (''invalid CIDR address: '' @ s))
      | Some n \<Rightarrow> map_res (\<lambda>ns. n # ns) (ParseCIDRs ss))"

definition http_Valid :: "(string \<Rightarrow> stat) \<Rightarrow> http_config \<Rightarrow> http_config \<times> unit res" where
  "http_Valid os_stat c =
     (let op = ''validation'' in
      if hc_uploads c = None then (c, Err (EOp op (Str ''malformed uploads config'')))
      else if hc_pool c = None then (c, Err (EOp op (Str ''malformed pool config'')))
      else if \<not> EnableHTTP c \<and> \<not> EnableTLS c \<and> \<not> EnableFCGI c
      then (c, Err (EOp op (Str ''unable to run http service, no method has been specified (http, https, http/2 or FastCGI)'')))
      else if hc_address c \<noteq> [] \<and> \<not> contains (hc_address c) '':''
      then (c, Err (EOp op (Str ''malformed http server address'')))
      else if EnableTLS c
      then (case hc_ssl c of
              None \<Rightarrow> (c, Panic)
            | Some s \<Rightarrow> (let (s1, r) = ssl_Valid os_stat s in (c\<lparr>hc_ssl := Some s1\<rparr>, wrap op r)))
      else (c, Ok ()))"

definition default_subnets :: "string list" where
  "default_subnets = [''10.0.0.0/8'', ''127.0.0.0/8'', ''172.16.0.0/12'', ''192.168.0.0/16'',
     ''::1/128'', ''fc00::/7'', ''fe80::/10'']"

text \<open>The defaults that cannot fail: pool, error code, HTTP/2.\<close>

definition http_plain_defaults :: "nat \<Rightarrow> http_config \<Rightarrow> http_config" where
  "http_plain_defaults cpus c = c\<lparr>
     hc_pool := (if hc_pool c = None
       then Some \<lparr>pc_debug = False, pc_workers = cpus, pc_max_jobs = 0, pc_allocate = 60000000000, pc_destroy = 60000000000\<rparr>
       else hc_pool c),
     hc_internal_code := (if hc_internal_code c = 0 then 500 else hc_internal_code c),
     hc_http2 := map_option http2_InitDefaults (hc_http2 c)\<rparr>"

text \<open>The rest of \<open>InitDefaults\<close>, after the TLS section: uploads, subnets, validation.\<close>

definition http_rest_defaults :: "(string \<Rightarrow> stat) \<Rightarrow> string \<Rightarrow> http_config \<Rightarrow> http_config \<times> unit res" where
  "http_rest_defaults os_stat tmp c =
     (let empty = \<lparr>up_dir = [], up_forbid = [], up_allow = [], up_forbidden = {}, up_allowed = {}\<rparr>;
          c1 = c\<lparr>hc_uploads := Some (uploads_InitDefaults tmp (case hc_uploads c of None \<Rightarrow> empty | Some u \<Rightarrow> u))\<rparr>;
          c2 = (if hc_subnets c1 = None then c1\<lparr>hc_subnets := Some default_subnets\<rparr> else c1)
      in case ParseCIDRs (the (hc_subnets c2)) of
           Ok cidrs \<Rightarrow> http_Valid os_stat (c2\<lparr>hc_cidrs := cidrs\<rparr>)
         | Err e \<Rightarrow> (c2, Err e)
         | Panic \<Rightarrow> (c2, Panic)
         | Block \<Rightarrow> (c2, Block))"

definition http_InitDefaults :: "(string \<Rightarrow> stat) \<Rightarrow> string \<Rightarrow> nat \<Rightarrow> http_config \<Rightarrow> http_config \<times> unit res" where
  "http_InitDefaults os_stat tmp cpus c0 =
     (let c = http_plain_defaults cpus c0;
          (c1, r) = (case hc_ssl c of
                       None \<Rightarrow> (c, Ok ())
                     | Some s \<Rightarrow> (let (s1, r) = ssl_InitDefaults s in (c\<lparr>hc_ssl := Some s1\<rparr>, r)))
      in if r \<noteq> Ok () then (c1, r) else http_rest_defaults os_stat tmp c1)"

definition IsTrusted :: "ipnet list \<Rightarrow> string \<Rightarrow> bool" where
  "IsTrusted c ip =
     (if c = [] then False
      else case ParseIP ip of
        None \<Rightarrow> False
      | Some i \<Rightarrow> (\<exists>cird \<in> set c. net_contains cird i))"

section \<open>Properties\<close>

lemma http_Valid_ok:
  assumes "http_Valid os_stat c = (c', Ok ())"
  shows "hc_cidrs c' = hc_cidrs c \<and> hc_uploads c' = hc_uploads c \<and> (EnableHTTP c' \<or> hc_ssl c' \<noteq> None \<or> EnableFCGI c')"
  using assms
  by (auto simp: http_Valid_def Let_def EnableHTTP_def EnableTLS_def EnableFCGI_def
      split: if_splits option.splits prod.splits)

lemmas parse_net_simps = ParseCIDR_def parse_ipv4_def parse_ipv6_def parse_octet_def is_digit_def digits_val_def digit_val_def
  ip4_def v4_prefix_def has_prefix_def is_hex_def hex_val_def lower_char_def groups_val_def ipv6_loop.simps

lemma default_nets:
  "ParseCIDR ''10.0.0.0/8'' = Some (Net4 (10 * 2 ^ 24) 8)"
  "ParseCIDR ''127.0.0.0/8'' = Some (Net4 (127 * 2 ^ 24) 8)"
  "ParseCIDR ''172.16.0.0/12'' = Some (Net4 (172 * 2 ^ 24 + 16 * 2 ^ 16) 12)"
  "ParseCIDR ''192.168.0.0/16'' = Some (Net4 (192 * 2 ^ 24 + 168 * 2 ^ 16) 16)"
  by (simp_all add: parse_net_simps)

lemma foldl_zeros: "foldl (\<lambda>a. (+) (a * 65536)) x (replicate n 0) = x * 65536 ^ n" for x :: nat
  by (induction n arbitrary: x) simp_all

lemma default_nets6:
  "ParseCIDR ''::1/128'' = Some (Net6 1 128)"
  "ParseCIDR ''fc00::/7'' = Some (Net6 (0xfc00 * 2 ^ 112) 7)"
  "ParseCIDR ''fe80::/10'' = Some (Net6 (0xfe80 * 2 ^ 112) 10)"
  by (simp_all add: parse_net_simps foldl_zeros)

definition default_cidrs :: "ipnet list" where
  "default_cidrs = [Net4 (10 * 2 ^ 24) 8, Net4 (127 * 2 ^ 24) 8, Net4 (172 * 2 ^ 24 + 16 * 2 ^ 16) 12,
     Net4 (192 * 2 ^ 24 + 168 * 2 ^ 16) 16, Net6 1 128, Net6 (0xfc00 * 2 ^ 112) 7, Net6 (0xfe80 * 2 ^ 112) 10]"

lemma ParseCIDRs_default: "ParseCIDRs default_subnets = Ok default_cidrs"
  unfolding default_subnets_def default_cidrs_def ParseCIDRs.simps default_nets default_nets6 option.case map_res_def res.case ..

lemma http_InitDefaults_cidrs:
  assumes "http_InitDefaults os_stat tmp cpus c = (c', Ok ())" "hc_subnets c = None"
  shows "hc_cidrs c' = default_cidrs"
proof -
  obtain c1 where c1: "http_rest_defaults os_stat tmp c1 = (c', Ok ())" "hc_subnets c1 = None"
    using assms by (auto simp: http_InitDefaults_def http_plain_defaults_def Let_def split: option.splits prod.splits if_splits)
  obtain c2 where c2: "http_Valid os_stat (c2\<lparr>hc_cidrs := default_cidrs\<rparr>) = (c', Ok ())"
    using c1 by (auto simp: http_rest_defaults_def Let_def ParseCIDRs_default)
  from http_Valid_ok [OF c2] show ?thesis by simp
qed

lemma octet_prefixes:
  fixes a b c d :: nat
  assumes "a < 256" "b < 256" "c < 256" "d < 256"
  shows "(((a * 256 + b) * 256 + c) * 256 + d) div 2 ^ 24 = a"
    and "(((a * 256 + b) * 256 + c) * 256 + d) div 2 ^ 20 = a * 16 + b div 16"
    and "(((a * 256 + b) * 256 + c) * 256 + d) div 2 ^ 16 = a * 256 + b"
  using assms by simp_all

lemma default_contains:
  assumes "a < 256" "b < 256" "c < 256" "d < 256"
  shows "(\<exists>n \<in> set default_cidrs. net_contains n (ip4 a b c d))
    \<longleftrightarrow> a = 10 \<or> a = 127 \<or> a * 16 + b div 16 = 172 * 16 + 1 \<or> a * 256 + b = 192 * 256 + 168"
  using ip4_v4 [OF assms] ip4_mod [OF assms] octet_prefixes [OF assms]
  by (auto simp: default_cidrs_def same_prefix_def is_v4_def)

text \<open>
  Whom the default configuration trusts.  When no trusted subnets are configured, a client with
  the IPv4 address \<open>a.b.c.d\<close> may set its own address through proxy headers if and only if the
  address is private: \<open>10/8\<close>, \<open>127/8\<close>, \<open>172.16/12\<close> or \<open>192.168/16\<close>.
\<close>
theorem default_trusted:
  assumes "http_InitDefaults os_stat tmp cpus cfg = (cfg', Ok ())" "hc_subnets cfg = None"
    and "a < 256" "b < 256" "c < 256" "d < 256"
  shows "IsTrusted (hc_cidrs cfg') (show_ip4 a b c d)
    \<longleftrightarrow> a = 10 \<or> a = 127 \<or> a = 172 \<and> 16 \<le> b \<and> b \<le> 31 \<or> a = 192 \<and> b = 168"
proof -
  have "b div 16 < 16" "b div 16 = 1 \<longleftrightarrow> 16 \<le> b \<and> b \<le> 31" using assms(4) by auto
  then have "a * 16 + b div 16 = 172 * 16 + 1 \<longleftrightarrow> a = 172 \<and> 16 \<le> b \<and> b \<le> 31"
    by (cases a "172 :: nat" rule: linorder_cases) auto
  moreover have "a * 256 + b = 192 * 256 + 168 \<longleftrightarrow> a = 192 \<and> b = 168"
    using assms(4) by (cases a "192 :: nat" rule: linorder_cases) auto
  ultimately show ?thesis
    using default_contains [OF assms(3-6)]
    by (simp add: IsTrusted_def http_InitDefaults_cidrs [OF assms(1,2)] ParseIP_show [OF assms(3-6)] default_cidrs_def)
qed

definition sample_http :: http_config where
  "sample_http = \<lparr>hc_address = ''0.0.0.0:80'', hc_access_logs = False, hc_pool = None, hc_internal_code = 0, hc_ssl = None,
     hc_fcgi = None, hc_http2 = None, hc_uploads = None, hc_max_size = 1, hc_subnets = None, hc_cidrs = []\<rparr>"

lemma sample_http_ok: "\<exists>c'. http_InitDefaults os_stat tmp cpus sample_http = (c', Ok ())"
  by (simp add: http_InitDefaults_def http_plain_defaults_def http_rest_defaults_def sample_http_def Let_def
      ParseCIDRs_default http_Valid_def EnableHTTP_def EnableTLS_def has_prefix_def)

theorem default_trusted_witness:
  "\<exists>c'. http_InitDefaults (\<lambda>_. NotExist) ''/tmp'' 4 sample_http = (c', Ok ())
     \<and> IsTrusted (hc_cidrs c') (show_ip4 172 20 0 1) \<and> \<not> IsTrusted (hc_cidrs c') (show_ip4 172 32 0 1)"
proof -
  obtain c' where c': "http_InitDefaults (\<lambda>_. NotExist) ''/tmp'' 4 sample_http = (c', Ok ())"
    using sample_http_ok by blast
  have s: "hc_subnets sample_http = None" by (simp add: sample_http_def)
  from default_trusted [OF c' s, of 172 20 0 1] default_trusted [OF c' s, of 172 32 0 1] c' show ?thesis by simp
qed

end
