(* ===== verification/Http_Handler.thy ===== *)
theory Http_Handler
  imports Http_Form Http_Config
begin

text \<open>
  The HTTP handler (\<open>http/handler\<close>): an incoming request becomes a PSR-7 request with its uploads in
  temporary files, is sent to a worker, and the worker's answer is written to the client.

  What \<open>net/http\<close> makes of the connection (parsed forms, cookies, body) is the record
  \<open>http_request\<close>; the order in which Go iterates over its maps is part of it.  The operating system,
  the JSON package and the worker pool are the record \<open>http_env\<close>.  Uploaded files are shared between
  the list and the tree of \<open>Uploads\<close> by pointer, so the tree holds positions in the list.  Uploads
  are opened by one goroutine each; they touch different files, and the model opens them in turn.
\<close>

section \<open>Uploads\<close>

record file_header =
  fh_name :: string
  fh_type :: string
  fh_open :: "bytes res"

record file_upload =
  fu_name :: string
  fu_mime :: string
  fu_size :: int
  fu_error :: int
  fu_tmp :: string
  fu_header :: file_header

definition NewUpload :: "file_header \<Rightarrow> file_upload" where
  "NewUpload f = \<lparr>fu_name = fh_name f, fu_mime = fh_type f, fu_size = 0, fu_error = 0, fu_tmp = [], fu_header = f\<rparr>"

record uploads =
  up_tree :: "nat forest"
  up_list :: "file_upload list"

text \<open>The loop of \<open>parseUploads\<close> over the map of files, in the order \<open>ks\<close>.\<close>

fun uploads_loop :: "string list \<Rightarrow> (string \<rightharpoonup> file_header list) \<Rightarrow> uploads \<Rightarrow> uploads res" where
  "uploads_loop [] files u = Ok u"
| "uploads_loop (k # ks) files u =
     (case files k of
        None \<Rightarrow> uploads_loop ks files u
      | Some v \<Rightarrow>
          (let n = length (up_list u); u1 = u\<lparr>up_list := up_list u @ map NewUpload v\<rparr> in
           case form_push hd k [n..<n + length v] (up_tree u1) of
             Ok tr \<Rightarrow> uploads_loop ks files (u1\<lparr>up_tree := tr\<rparr>)
           | Err e \<Rightarrow> Err e
           | Panic \<Rightarrow> Panic
           | Block \<Rightarrow> Block))"

definition parseUploads :: "string list \<Rightarrow> (string \<rightharpoonup> file_header list) \<Rightarrow> uploads res" where
  "parseUploads ks files = uploads_loop ks files \<lparr>up_tree = Map.empty, up_list = []\<rparr>"

definition path_ext :: "string \<Rightarrow> string" where
  "path_ext s =
     (let base = rev (takeWhile (\<lambda>c. c \<noteq> CHR ''/'') (rev s)) in
      case last_index CHR ''.'' base of None \<Rightarrow> [] | Some i \<Rightarrow> drop i base)"

definition UploadErrorNoFile :: int where "UploadErrorNoFile = 4"

definition UploadErrorNoTmpDir :: int where "UploadErrorNoTmpDir = 6"

definition UploadErrorCantWrite :: int where "UploadErrorCantWrite = 7"

definition UploadErrorExtension :: int where "UploadErrorExtension = 8"

section \<open>The environment\<close>

datatype body = NoBody | Raw bytes | Data "string forest"

record psr_request =
  pr_remote :: string
  pr_proto :: string
  pr_method :: string
  pr_uri :: string
  pr_header :: header
  pr_cookies :: "string \<rightharpoonup> string"
  pr_query :: string
  pr_parsed :: bool
  pr_uploads :: "uploads option"
  pr_attributes :: "string \<rightharpoonup> string"
  pr_body :: body

record response =
  rs_status :: int
  rs_headers :: "string \<rightharpoonup> string list"

text \<open>
  \<open>env_temp dir fs\<close> creates a temporary file, \<open>env_copy\<close> writes it and returns the size,
  \<open>env_ctx\<close>, \<open>env_data\<close> and \<open>env_decode\<close> are the JSON functions, \<open>env_exec\<close> the worker pool, \<open>env_push\<close>
  the HTTP/2 pusher when the connection has one, \<open>env_write\<close> the error of writing to the client,
  \<open>env_show\<close> the text of an error.
\<close>

record http_env =
  env_temp :: "string \<Rightarrow> string set \<Rightarrow> string res"
  env_copy :: "string \<Rightarrow> bytes \<Rightarrow> int \<times> error option"
  env_remove :: "string \<Rightarrow> error option"
  env_ctx :: "psr_request \<Rightarrow> bytes res"
  env_data :: "body \<Rightarrow> bytes res"
  env_decode :: "bytes \<Rightarrow> response \<Rightarrow> response res"
  env_exec :: "payload \<Rightarrow> payload res"
  env_push :: "(string \<Rightarrow> error option) option"
  env_write :: "bytes \<Rightarrow> error option"
  env_show :: "error \<Rightarrow> string"

definition fu_Open ::
  "http_env \<Rightarrow> string \<Rightarrow> string set \<Rightarrow> string set \<Rightarrow> file_upload \<Rightarrow> string set \<Rightarrow> file_upload \<times> string set \<times> unit res"
where
  "fu_Open E dir forbid allow f fs =
     (let ext = to_lower (path_ext (fu_name f)) in
      if ext \<in> forbid then (f\<lparr>fu_error := UploadErrorExtension\<rparr>, fs, Ok ())
      else if allow \<noteq> {} \<and> ext \<notin> allow then (f\<lparr>fu_error := UploadErrorExtension\<rparr>, fs, Ok ())
      else case fh_open (fu_header f) of
        Ok content \<Rightarrow>
          (case env_temp E dir fs of
             Ok name \<Rightarrow>
               (let (size, err) = env_copy E name content; f1 = f\<lparr>fu_tmp := name, fu_size := size\<rparr> in
                (if err \<noteq> None then f1\<lparr>fu_error := UploadErrorCantWrite\<rparr> else f1, insert name fs, Ok ()))
           | Err e \<Rightarrow> (f\<lparr>fu_error := UploadErrorNoTmpDir\<rparr>, fs, Err e)
           | Panic \<Rightarrow> (f, fs, Panic)
           | Block \<Rightarrow> (f, fs, Block))
      | Err e \<Rightarrow> (f\<lparr>fu_error := UploadErrorNoFile\<rparr>, fs, Err e)
      | Panic \<Rightarrow> (f, fs, Panic)
      | Block \<Rightarrow> (f, fs, Block))"

text \<open>\<open>Uploads.Open\<close>; the errors are logged.\<close>

fun uploads_Open ::
  "http_env \<Rightarrow> string \<Rightarrow> string set \<Rightarrow> string set \<Rightarrow> file_upload list \<Rightarrow> string set \<Rightarrow> file_upload list \<times> string set"
where
  "uploads_Open E dir forbid allow [] fs = ([], fs)"
| "uploads_Open E dir forbid allow (f # l) fs =
     (let (f1, fs1, r) = fu_Open E dir forbid allow f fs; (l1, fs2) = uploads_Open E dir forbid allow l fs1
      in (f1 # l1, fs2))"

definition fu_clear :: "http_env \<Rightarrow> file_upload \<Rightarrow> string set \<Rightarrow> string set" where
  "fu_clear E f fs =
     (if fu_tmp f \<noteq> [] \<and> fu_tmp f \<in> fs then (if env_remove E (fu_tmp f) = None then fs - {fu_tmp f} else fs) else fs)"

definition uploads_Clear :: "http_env \<Rightarrow> file_upload list \<Rightarrow> string set \<Rightarrow> string set" where
  "uploads_Clear E l fs = fold (fu_clear E) l fs"

section \<open>The request\<close>

definition FetchIP :: "string \<Rightarrow> string" where
  "FetchIP pair =
     (if CHR '':'' \<notin> set pair then pair
      else case split_host_port pair of None \<Rightarrow> [] | Some (addr, port) \<Rightarrow> addr)"

datatype content = contentNone | contentStream | contentMultipart | contentFormData

definition contentType :: "psr_request \<Rightarrow> content" where
  "contentType r =
     (if pr_method r = ''HEAD'' \<or> pr_method r = ''OPTIONS'' then contentNone
      else let ct = header_get (pr_header r) ''content-type'' in
        if contains ct ''application/x-www-form-urlencoded'' then contentFormData
        else if contains ct ''multipart/form-data'' then contentMultipart
        else contentStream)"

text \<open>\<open>url.QueryUnescape\<close>\<close>

fun query_unescape :: "string \<Rightarrow> string option" where
  "query_unescape [] = Some []"
| "query_unescape (c # cs) =
     (if c = CHR ''%'' then
        (case cs of
           a # b # r \<Rightarrow>
             if is_hex a \<and> is_hex b
             then map_option ((#) (char_of (hex_val a * 16 + hex_val b))) (query_unescape r) else None
         | _ \<Rightarrow> None)
      else map_option ((#) (if c = CHR ''+'' then CHR '' '' else c)) (query_unescape cs))"

text \<open>
  What \<open>net/http\<close> provides: \<open>ht_form\<close> is \<open>ParseForm\<close> with the resulting \<open>PostForm\<close>, \<open>ht_multi\<close> is
  \<open>ParseMultipartForm\<close> with the values and files, \<open>ht_orders\<close> the iteration orders of the three maps.
\<close>

record http_request =
  ht_remote :: string
  ht_proto :: string
  ht_method :: string
  ht_host :: string
  ht_url :: string
  ht_url_host :: string
  ht_query :: string
  ht_tls :: bool
  ht_header :: header
  ht_cookies :: "(string \<times> string) list"
  ht_body :: "bytes res"
  ht_form :: "(string \<rightharpoonup> string list) res"
  ht_multi :: "((string \<rightharpoonup> string list) \<times> (string \<rightharpoonup> file_header list)) res"
  ht_orders :: "string list \<times> string list \<times> string list"
  ht_attributes :: "(string \<rightharpoonup> string) option"

definition URI :: "http_request \<Rightarrow> string" where
  "URI r =
     (let uri = strip_crlf (ht_url r) in
      if ht_url_host r \<noteq> [] then uri
      else if ht_tls r then ''https://'' @ ht_host r @ uri
      else ''http://'' @ ht_host r @ uri)"

definition add_cookie :: "string \<times> string \<Rightarrow> psr_request \<Rightarrow> psr_request" where
  "add_cookie c req =
     (case query_unescape (snd c) of
        None \<Rightarrow> req
      | Some v \<Rightarrow> req\<lparr>pr_cookies := (pr_cookies req)(fst c \<mapsto> v)\<rparr>)"

text \<open>The case \<open>contentFormData\<close>, into which the multipart case falls through.\<close>

definition form_body :: "http_request \<Rightarrow> (string \<rightharpoonup> string list) \<Rightarrow> psr_request \<Rightarrow> psr_request \<times> unit res" where
  "form_body r multi req =
     (case ht_form r of
        Ok post \<Rightarrow>
          (case parseData (fst (ht_orders r)) post (fst (snd (ht_orders r))) multi of
             Ok d \<Rightarrow> (req\<lparr>pr_body := Data d, pr_parsed := True\<rparr>, Ok ())
           | Err e \<Rightarrow> (req, Err e)
           | Panic \<Rightarrow> (req, Panic)
           | Block \<Rightarrow> (req, Block))
      | Err e \<Rightarrow> (req, Err e)
      | Panic \<Rightarrow> (req, Panic)
      | Block \<Rightarrow> (req, Block))"

definition request :: "http_request \<Rightarrow> psr_request \<Rightarrow> psr_request \<times> unit res" where
  "request r req0 =
     (let req = fold add_cookie (ht_cookies r) req0 in
      case contentType req of
        contentNone \<Rightarrow> (req, Ok ())
      | contentStream \<Rightarrow>
          (case ht_body r of
             Ok b \<Rightarrow> (req\<lparr>pr_body := Raw b\<rparr>, Ok ())
           | Err e \<Rightarrow> (req, Err e)
           | Panic \<Rightarrow> (req, Panic)
           | Block \<Rightarrow> (req, Block))
      | contentMultipart \<Rightarrow>
          (case ht_multi r of
             Ok (values, files) \<Rightarrow>
               (case parseUploads (snd (snd (ht_orders r))) files of
                  Ok u \<Rightarrow> form_body r values (req\<lparr>pr_uploads := Some u\<rparr>)
                | Err e \<Rightarrow> (req, Err e)
                | Panic \<Rightarrow> (req, Panic)
                | Block \<Rightarrow> (req, Block))
           | Err e \<Rightarrow> (req, Err e)
           | Panic \<Rightarrow> (req, Panic)
           | Block \<Rightarrow> (req, Block))
      | contentFormData \<Rightarrow> form_body r Map.empty req)"

definition req_Open ::
  "http_env \<Rightarrow> string \<Rightarrow> string set \<Rightarrow> string set \<Rightarrow> psr_request \<Rightarrow> string set \<Rightarrow> psr_request \<times> string set"
where
  "req_Open E dir forbid allow r fs =
     (case pr_uploads r of
        None \<Rightarrow> (r, fs)
      | Some u \<Rightarrow>
          (let (l, fs1) = uploads_Open E dir forbid allow (up_list u) fs
           in (r\<lparr>pr_uploads := Some (u\<lparr>up_list := l\<rparr>)\<rparr>, fs1)))"

definition req_Close :: "http_env \<Rightarrow> psr_request \<Rightarrow> string set \<Rightarrow> string set" where
  "req_Close E r fs = (case pr_uploads r of None \<Rightarrow> fs | Some u \<Rightarrow> uploads_Clear E (up_list u) fs)"

text \<open>
  \<open>Payload\<close>: the body is the parsed data as JSON, or the raw bytes.  A body that is parsed data
  without the flag fails the type assertion.
\<close>

definition req_Payload :: "http_env \<Rightarrow> psr_request \<Rightarrow> payload \<Rightarrow> payload \<times> unit res" where
  "req_Payload E r p =
     (case env_ctx E r of
        Ok ctx \<Rightarrow>
          (let p1 = p\<lparr>pld_context := ctx\<rparr> in
           if pr_parsed r
           then (case env_data E (pr_body r) of
                   Ok b \<Rightarrow> (p1\<lparr>pld_body := b\<rparr>, Ok ())
                 | Err e \<Rightarrow> (p1, Err (EOp ''marshal_payload'' (Kind Encode)))
                 | Panic \<Rightarrow> (p1, Panic)
                 | Block \<Rightarrow> (p1, Block))
           else case pr_body r of
             NoBody \<Rightarrow> (p1, Ok ())
           | Raw b \<Rightarrow> (p1\<lparr>pld_body := b\<rparr>, Ok ())
           | Data d \<Rightarrow> (p1, Panic))
      | Err e \<Rightarrow> (p, Err e)
      | Panic \<Rightarrow> (p, Panic)
      | Block \<Rightarrow> (p, Block))"

section \<open>The response\<close>

text \<open>
  The writer as \<open>net/http\<close> keeps it: the status is set by the first \<open>WriteHeader\<close>, a code outside
  100..999 panics, and a response that was never given a status is sent as 200.
\<close>

record writer =
  wr_header :: header
  wr_status :: "int option"
  wr_body :: bytes

definition new_writer :: writer where
  "new_writer = \<lparr>wr_header = Map.empty, wr_status = None, wr_body = []\<rparr>"

definition client_status :: "writer \<Rightarrow> int" where
  "client_status w = (case wr_status w of None \<Rightarrow> 200 | Some c \<Rightarrow> c)"

definition WriteHeader :: "int \<Rightarrow> writer \<Rightarrow> writer \<times> unit res" where
  "WriteHeader code w =
     (if wr_status w \<noteq> None then (w, Ok ())
      else if code < 100 \<or> 999 < code then (w, Panic)
      else (w\<lparr>wr_status := Some code\<rparr>, Ok ()))"

definition http_Error :: "string \<Rightarrow> int \<Rightarrow> writer \<Rightarrow> writer" where
  "http_Error msg code w =
     (let w1 = w\<lparr>wr_header := header_set ''X-Content-Type-Options'' ''nosniff''
                   (header_set ''Content-Type'' ''text/plain; charset=utf-8'' (wr_header w))\<rparr>
      in (fst (WriteHeader code w1))\<lparr>wr_body := wr_body w1 @ msg @ [CHR 0x0A]\<rparr>)"

fun trailer_names :: "string list \<Rightarrow> (string \<rightharpoonup> string list) \<Rightarrow> (string \<rightharpoonup> string list)" where
  "trailer_names [] h = h"
| "trailer_names (n0 # ns) h =
     (let n = trim_set [CHR 0x09, CHR '' ''] n0 in
      trailer_names ns (case h n of None \<Rightarrow> h | Some v \<Rightarrow> (h(''Trailer:'' @ n \<mapsto> v))(n := None)))"

definition handleTrailers :: "(string \<rightharpoonup> string list) \<Rightarrow> (string \<rightharpoonup> string list)" where
  "handleTrailers h =
     (let trs = (case h ''Trailer'' of None \<Rightarrow> [] | Some l \<Rightarrow> l) in
      (trailer_names (concat (map (split_byte CHR '','') trs)) h)(''Trailer'' := None))"

text \<open>The loop over the response headers in the order \<open>ks\<close>.\<close>

fun write_headers :: "string list \<Rightarrow> (string \<rightharpoonup> string list) \<Rightarrow> header \<Rightarrow> header" where
  "write_headers [] hs h = h"
| "write_headers (k # ks) hs h =
     write_headers ks hs (fold (header_add k) (case hs k of None \<Rightarrow> [] | Some vs \<Rightarrow> vs) h)"

fun push_all_headers :: "(string \<Rightarrow> error option) \<Rightarrow> string list \<Rightarrow> unit res" where
  "push_all_headers push [] = Ok ()"
| "push_all_headers push (t # ts) = (case push t of None \<Rightarrow> push_all_headers push ts | Some e \<Rightarrow> Err e)"

definition zero_response :: response where
  "zero_response = \<lparr>rs_status = - 1, rs_headers = Map.empty\<rparr>"

text \<open>\<open>putRsp\<close> resets both fields.\<close>

definition reset_response :: "response \<Rightarrow> response" where
  "reset_response rsp = rsp\<lparr>rs_headers := Map.empty, rs_status := - 1\<rparr>"

text \<open>The body of \<open>Write\<close> after the response was decoded.\<close>

definition write_decoded :: "http_env \<Rightarrow> string list \<Rightarrow> payload \<Rightarrow> response \<Rightarrow> writer \<Rightarrow> writer \<times> int res" where
  "write_decoded E ks pld rsp w =
     (let push = (case rs_headers rsp ''Http2-Push'' of None \<Rightarrow> [] | Some l \<Rightarrow> l) in
      case (case env_push E of None \<Rightarrow> Ok () | Some f \<Rightarrow> push_all_headers f push) of
        Ok _ \<Rightarrow>
          (let hs = (if (case rs_headers rsp ''Trailer'' of None \<Rightarrow> [] | Some l \<Rightarrow> l) \<noteq> []
                     then handleTrailers (rs_headers rsp) else rs_headers rsp);
               (w1, r) = WriteHeader (rs_status rsp) (w\<lparr>wr_header := write_headers ks hs (wr_header w)\<rparr>)
           in if r \<noteq> Ok () then (w1, Panic)
              else case env_write E (pld_body pld) of
                Some e \<Rightarrow> (w1, Err e)
              | None \<Rightarrow> (w1\<lparr>wr_body := wr_body w1 @ pld_body pld\<rparr>, Ok (rs_status rsp)))
      | Err e \<Rightarrow> (w, Err e)
      | Panic \<Rightarrow> (w, Panic)
      | Block \<Rightarrow> (w, Block))"

text \<open>\<open>Handler.Write\<close> with the pooled response object number \<open>i\<close>.\<close>

definition handler_Write ::
  "http_env \<Rightarrow> nat \<Rightarrow> string list \<Rightarrow> payload \<Rightarrow> response list \<Rightarrow> writer \<Rightarrow> response list \<times> writer \<times> int res"
where
  "handler_Write E i ks pld rsps w =
     (let (rsp, rsps1) = pool_get zero_response i rsps in
      case env_decode E (pld_context pld) rsp of
        Ok rsp1 \<Rightarrow> (let (w1, r) = write_decoded E ks pld rsp1 w in (pool_put (reset_response rsp1) rsps1, w1, r))
      | Err e \<Rightarrow> (pool_put (reset_response rsp) rsps1, w, Err e)
      | Panic \<Rightarrow> (pool_put (reset_response rsp) rsps1, w, Panic)
      | Block \<Rightarrow> (pool_put (reset_response rsp) rsps1, w, Block))"

section \<open>The handler\<close>

definition MB :: u64 where
  "MB = 1024 * 1024"

record handler =
  hd_max :: u64
  hd_dir :: string
  hd_allow :: "string set"
  hd_forbid :: "string set"
  hd_trusted :: "ipnet list"
  hd_code :: u64
  hd_reqs :: "psr_request list"
  hd_rsps :: "response list"
  hd_plds :: "payload list"

definition NewHandler ::
  "u64 \<Rightarrow> u64 \<Rightarrow> string \<Rightarrow> string set \<Rightarrow> string set \<Rightarrow> ipnet list \<Rightarrow> bool \<Rightarrow> handler res"
where
  "NewHandler maxReqSize code dir allow forbid trusted has_pool =
     (if \<not> has_pool then Err (Str ''pool should be initialized'')
      else Ok \<lparr>hd_max = maxReqSize * MB, hd_dir = dir, hd_allow = allow, hd_forbid = forbid, hd_trusted = trusted,
                hd_code = code, hd_reqs = [], hd_rsps = [], hd_plds = []\<rparr>)"

definition zero_request :: psr_request where
  "zero_request = \<lparr>pr_remote = [], pr_proto = [], pr_method = [], pr_uri = [], pr_header = Map.empty,
     pr_cookies = Map.empty, pr_query = [], pr_parsed = False, pr_uploads = None, pr_attributes = Map.empty, pr_body = NoBody\<rparr>"

text \<open>The assignments of \<open>putReq\<close>, a nil map being empty, and of \<open>getReq\<close>.\<close>

definition reset_request :: "psr_request \<Rightarrow> psr_request" where
  "reset_request req = req\<lparr>pr_query := [], pr_remote := [], pr_proto := [], pr_method := [], pr_uri := [],
     pr_header := Map.empty, pr_cookies := Map.empty, pr_attributes := Map.empty, pr_parsed := False, pr_body := NoBody\<rparr>"

definition fill_request :: "http_request \<Rightarrow> psr_request \<Rightarrow> psr_request" where
  "fill_request r req = req\<lparr>pr_query := strip_crlf (ht_query r), pr_remote := FetchIP (ht_remote r),
     pr_proto := ht_proto r, pr_method := ht_method r, pr_uri := URI r, pr_header := ht_header r,
     pr_cookies := Map.empty, pr_attributes := (case ht_attributes r of None \<Rightarrow> Map.empty | Some a \<Rightarrow> a),
     pr_parsed := False, pr_body := NoBody\<rparr>"

definition zero_payload :: payload where
  "zero_payload = \<lparr>pld_body = [], pld_context = [], pld_codec = CODEC_NONE\<rparr>"

definition reset_payload :: "payload \<Rightarrow> payload" where
  "reset_payload p = p\<lparr>pld_body := [], pld_context := []\<rparr>"

definition resolveIP :: "ipnet list \<Rightarrow> psr_request \<Rightarrow> psr_request" where
  "resolveIP trusted r =
     (if \<not> IsTrusted trusted (pr_remote r) then r
      else if header_get (pr_header r) ''X-Forwarded-For'' \<noteq> []
      then (let ips = map trim_space (split_byte CHR '','' (header_get (pr_header r) ''X-Forwarded-For'')) in
            case find (\<lambda>a. ParseIP a \<noteq> None) (rev ips) of
              Some addr \<Rightarrow> r\<lparr>pr_remote := addr\<rparr>
            | None \<Rightarrow> r)
      else if header_get (pr_header r) ''X-Real-Ip'' \<noteq> []
      then r\<lparr>pr_remote := FetchIP (header_get (pr_header r) ''X-Real-Ip'')\<rparr>
      else if header_get (pr_header r) ''True-Client-IP'' \<noteq> []
      then r\<lparr>pr_remote := FetchIP (header_get (pr_header r) ''True-Client-IP'')\<rparr>
      else if header_get (pr_header r) ''CF-Connecting-IP'' \<noteq> []
      then r\<lparr>pr_remote := FetchIP (header_get (pr_header r) ''CF-Connecting-IP'')\<rparr>
      else r)"

text \<open>\<open>int(h.internalHTTPCode)\<close> keeps the 64 bits and reads them with a sign.\<close>

definition handleError :: "u64 \<Rightarrow> error \<Rightarrow> writer \<Rightarrow> writer \<times> unit res" where
  "handleError code err w =
     (let (w1, r) = (if err_is NoFreeWorkers err
                     then WriteHeader (sint code) (w\<lparr>wr_header := header_set ''No-Workers'' ''true'' (wr_header w)\<rparr>)
                     else (w, Ok ()))
      in if r \<noteq> Ok () then (w1, r)
         else if err_is SoftJob err \<or> err_is WatcherStopped err \<or> err_is WorkerAllocate err \<or> err_is ExecTTL err
           \<or> err_is IdleTTL err \<or> err_is KTTL err \<or> err_is Encode err \<or> err_is Decode err \<or> err_is Network err
         then WriteHeader (sint code) w1
         else (w1, Ok ()))"

datatype size_check = SizeOk | SizeMalformed | SizeExceeded

definition check_size :: "u64 \<Rightarrow> string \<Rightarrow> size_check" where
  "check_size mx len =
     (if mx = 0 \<or> len = [] then SizeOk
      else case parse_int len of
        None \<Rightarrow> SizeMalformed
      | Some sz \<Rightarrow> if sint mx < sz then SizeExceeded else SizeOk)"

text \<open>
  \<open>ServeHTTP\<close>: the new handler and file system, what the client gets, and the payload the worker got.
  \<open>i\<close>, \<open>j\<close> and \<open>k\<close> are the choices of the three pools, \<open>ks\<close> the order of the response headers.
  After a panic the pooled objects are lost and nothing more is done.
\<close>

record served =
  sv_handler :: handler
  sv_fs :: "string set"
  sv_writer :: writer
  sv_sent :: "payload option"
  sv_result :: "unit res"

definition errEPIPE :: error where
  "errEPIPE = Str ''EPIPE(32) -> connection reset by peer''"

text \<open>The statements that end every path after the uploads were opened.\<close>

definition release :: "http_env \<Rightarrow> psr_request \<Rightarrow> payload \<Rightarrow> handler \<Rightarrow> string set \<Rightarrow> handler \<times> string set" where
  "release E req pld h fs =
     (h\<lparr>hd_reqs := pool_put (reset_request req) (hd_reqs h), hd_plds := pool_put (reset_payload pld) (hd_plds h)\<rparr>,
      req_Close E req fs)"

definition serve_error ::
  "http_env \<Rightarrow> psr_request \<Rightarrow> payload \<Rightarrow> payload option \<Rightarrow> error \<Rightarrow> handler \<Rightarrow> string set \<Rightarrow> writer \<Rightarrow> served"
where
  "serve_error E req pld sent e h fs w =
     (let (h1, fs1) = release E req pld h fs; (w1, r) = handleError (hd_code h) e w
      in \<lparr>sv_handler = h1, sv_fs = fs1, sv_writer = w1, sv_sent = sent, sv_result = r\<rparr>)"

text \<open>From \<open>h.pool.Exec\<close> to the end.\<close>

definition serve_exec ::
  "http_env \<Rightarrow> nat \<Rightarrow> string list \<Rightarrow> psr_request \<Rightarrow> payload \<Rightarrow> handler \<Rightarrow> string set \<Rightarrow> served"
where
  "serve_exec E k ks req pld h fs =
     (let w = new_writer; sent = Some pld;
          stop = (\<lambda>h w r. \<lparr>sv_handler = h, sv_fs = fs, sv_writer = w, sv_sent = sent, sv_result = r\<rparr>) in
      case env_exec E pld of
        Err e \<Rightarrow> serve_error E req pld sent e h fs w
      | Panic \<Rightarrow> stop h w Panic
      | Block \<Rightarrow> stop h w Block
      | Ok wResp \<Rightarrow>
          (let (rsps, w1, r) = handler_Write E k ks wResp (hd_rsps h) w; h1 = h\<lparr>hd_rsps := rsps\<rparr> in
           case r of
             Err e \<Rightarrow> serve_error E req pld sent e h1 fs w1
           | Panic \<Rightarrow> stop h1 w1 Panic
           | Block \<Rightarrow> stop h1 w1 Block
           | Ok status \<Rightarrow>
               (let (h2, fs1) = release E req pld h1 fs
                in \<lparr>sv_handler = h2, sv_fs = fs1, sv_writer = w1, sv_sent = sent, sv_result = Ok ()\<rparr>)))"

text \<open>From \<open>resolveIP\<close> on.\<close>

definition serve_request ::
  "http_env \<Rightarrow> nat \<Rightarrow> nat \<Rightarrow> string list \<Rightarrow> psr_request \<Rightarrow> handler \<Rightarrow> string set \<Rightarrow> served"
where
  "serve_request E j k ks req0 h0 fs0 =
     (let (req, fs) = req_Open E (hd_dir h0) (hd_forbid h0) (hd_allow h0) (resolveIP (hd_trusted h0) req0) fs0;
          (pld0, plds) = pool_get zero_payload j (hd_plds h0);
          h = h0\<lparr>hd_plds := plds\<rparr>;
          (pld, r) = req_Payload E req (pld0\<lparr>pld_codec := CODEC_JSON\<rparr>)
      in case r of
           Ok _ \<Rightarrow> serve_exec E k ks req pld h fs
         | Err e \<Rightarrow> serve_error E req pld None e h fs new_writer
         | Panic \<Rightarrow> \<lparr>sv_handler = h, sv_fs = fs, sv_writer = new_writer, sv_sent = None, sv_result = Panic\<rparr>
         | Block \<Rightarrow> \<lparr>sv_handler = h, sv_fs = fs, sv_writer = new_writer, sv_sent = None, sv_result = Block\<rparr>)"

definition ServeHTTP ::
  "http_env \<Rightarrow> nat \<times> nat \<times> nat \<Rightarrow> string list \<Rightarrow> http_request \<Rightarrow> handler \<Rightarrow> string set \<Rightarrow> served"
where
  "ServeHTTP E choice ks r h fs =
     (let (i, j, k) = choice;
          answer = (\<lambda>h w res. \<lparr>sv_handler = h, sv_fs = fs, sv_writer = w, sv_sent = None, sv_result = res\<rparr>) in
      case check_size (hd_max h) (header_get (ht_header r) ''Content-Length'') of
        SizeMalformed \<Rightarrow> answer h (http_Error [] 500 new_writer) (Ok ())
      | SizeExceeded \<Rightarrow>
          answer h (http_Error (env_show E (EOp ''http_handler_max_size'' (Str ''request body max size is exceeded''))) 400
            new_writer) (Ok ())
      | SizeOk \<Rightarrow>
          (let (req0, reqs) = pool_get zero_request i (hd_reqs h);
               (req, res) = request r (fill_request r req0);
               h1 = h\<lparr>hd_reqs := reqs\<rparr>;
               h2 = h\<lparr>hd_reqs := pool_put (reset_request req) reqs\<rparr>
           in case res of
                Ok _ \<Rightarrow> serve_request E j k ks req h1 fs
              | Err e \<Rightarrow>
                  if e = errEPIPE then answer h2 new_writer (Ok ())
                  else answer h2 (http_Error (env_show E (EOp ''serve_http'' e)) 500 new_writer) (Ok ())
              | Panic \<Rightarrow> answer h1 new_writer Panic
              | Block \<Rightarrow> answer h1 new_writer Block))"

section \<open>Properties\<close>

interpretation response_pool: clean_pool zero_response reset_response
  by unfold_locales (simp add: reset_response_def zero_response_def)

text \<open>No temporary file is left behind.\<close>

definition temp_laws :: "http_env \<Rightarrow> bool" where
  "temp_laws E \<longleftrightarrow> (\<forall>dir fs n. env_temp E dir fs = Ok n \<longrightarrow> n \<noteq> [] \<and> n \<notin> fs) \<and> (\<forall>f. env_remove E f = None)"

lemma fu_clear_subset: "fu_clear E f fs \<subseteq> fs"
  by (auto simp: fu_clear_def)

lemma uploads_Clear_eq:
  "temp_laws E \<Longrightarrow> uploads_Clear E l fs = fs - {fu_tmp f |f. f \<in> set l \<and> fu_tmp f \<noteq> []}"
proof (induction l arbitrary: fs)
  case (Cons f l)
  have "fu_clear E f fs = fs - (if fu_tmp f = [] then {} else {fu_tmp f})"
    using Cons.prems by (auto simp: fu_clear_def temp_laws_def)
  with Cons show ?case by (auto simp: uploads_Clear_def)
qed (simp add: uploads_Clear_def)

lemma fu_Open_files:
  assumes "temp_laws E" "fu_Open E dir forbid allow f fs = (f', fs', r)"
  shows "fs \<subseteq> fs' \<and> (\<forall>n \<in> fs' - fs. n \<noteq> [] \<and> n = fu_tmp f')"
  using assms by (auto simp: fu_Open_def Let_def temp_laws_def split: if_splits res.splits prod.splits)

lemma uploads_Open_files:
  assumes "temp_laws E"
  shows "uploads_Open E dir forbid allow l fs = (l', fs') \<Longrightarrow>
    fs \<subseteq> fs' \<and> fs' - fs \<subseteq> {fu_tmp f |f. f \<in> set l' \<and> fu_tmp f \<noteq> []}"
proof (induction l arbitrary: fs l' fs')
  case (Cons f l)
  obtain f1 fs1 r where 1: "fu_Open E dir forbid allow f fs = (f1, fs1, r)" by (metis prod_cases3)
  obtain l1 fs2 where 2: "uploads_Open E dir forbid allow l fs1 = (l1, fs2)" by fastforce
  from Cons.prems 1 2 have l': "l' = f1 # l1" "fs' = fs2" by auto
  note f = fu_Open_files [OF assms 1] and ih = Cons.IH [OF 2]
  have "x \<in> {fu_tmp f |f. f \<in> set l' \<and> fu_tmp f \<noteq> []}" if "x \<in> fs2 - fs" for x
  proof (cases "x \<in> fs1")
    case True
    with that f have "x = fu_tmp f1 \<and> x \<noteq> []" by blast
    then show ?thesis unfolding l' by auto
  next
    case False
    with that ih have "x \<in> {fu_tmp f |f. f \<in> set l1 \<and> fu_tmp f \<noteq> []}" by blast
    then show ?thesis unfolding l' by auto
  qed
  with f ih show ?case unfolding l' by blast
qed simp

lemma req_Open_Close:
  assumes "temp_laws E" "req_Open E dir forbid allow r fs = (r', fs')"
  shows "req_Close E r' fs' \<subseteq> fs"
proof (cases "pr_uploads r")
  case (Some u)
  obtain l fs1 where o: "uploads_Open E dir forbid allow (up_list u) fs = (l, fs1)" by fastforce
  with assms(2) Some have r': "r' = r\<lparr>pr_uploads := Some (u\<lparr>up_list := l\<rparr>)\<rparr>" "fs' = fs1"
    by (auto simp: req_Open_def)
  with uploads_Open_files [OF assms(1) o] show ?thesis
    by (auto simp: req_Close_def uploads_Clear_eq [OF assms(1)])
qed (use assms in \<open>simp add: req_Open_def req_Close_def\<close>)

lemma serve_error_fs: "sv_fs (serve_error E req pld sent e h fs w) = req_Close E req fs"
  by (simp add: serve_error_def release_def split: prod.split)

lemma serve_exec_fs:
  assumes "sv_result (serve_exec E k ks req pld h fs) \<notin> {Panic, Block}"
  shows "sv_fs (serve_exec E k ks req pld h fs) = req_Close E req fs"
proof (cases "env_exec E pld")
  case (Ok p)
  obtain rsps w1 r where w: "handler_Write E k ks p (hd_rsps h) new_writer = (rsps, w1, r)" by (metis prod_cases3)
  from assms Ok w show ?thesis
    by (cases r) (simp_all add: serve_exec_def Let_def serve_error_fs release_def)
qed (use assms in \<open>simp_all add: serve_exec_def Let_def serve_error_fs\<close>)

lemma serve_request_fs:
  assumes "temp_laws E" "sv_result (serve_request E j k ks req h fs) \<notin> {Panic, Block}"
  shows "sv_fs (serve_request E j k ks req h fs) \<subseteq> fs"
proof -
  obtain r1 fs1 where o: "req_Open E (hd_dir h) (hd_forbid h) (hd_allow h) (resolveIP (hd_trusted h) req) fs = (r1, fs1)"
    by fastforce
  obtain pld0 plds where g: "pool_get zero_payload j (hd_plds h) = (pld0, plds)" by fastforce
  obtain pld r where p: "req_Payload E r1 (pld0\<lparr>pld_codec := CODEC_JSON\<rparr>) = (pld, r)" by fastforce
  note c = req_Open_Close [OF assms(1) o]
  show ?thesis
  proof (cases r)
    case (Ok x)
    with o g p have e: "serve_request E j k ks req h fs = serve_exec E k ks r1 pld (h\<lparr>hd_plds := plds\<rparr>) fs1"
      by (simp add: serve_request_def Let_def)
    from c serve_exec_fs [of E k ks r1 pld "h\<lparr>hd_plds := plds\<rparr>" fs1] assms(2) show ?thesis unfolding e by auto
  qed (use o g p c assms(2) in \<open>simp_all add: serve_request_def Let_def serve_error_fs\<close>)
qed

text \<open>
  C20: No temporary file outlives its request.  Whatever the request, the worker and the pools do,
  unless the handler panics, every temporary file it created for uploads has been removed when
  \<open>ServeHTTP\<close> returns, on every success and error path.
\<close>
theorem ServeHTTP_cleans:
  assumes "temp_laws E" "sv_result (ServeHTTP E choice ks r h fs) \<notin> {Panic, Block}"
  shows "sv_fs (ServeHTTP E choice ks r h fs) \<subseteq> fs"
proof -
  obtain i j k where c: "choice = (i, j, k)" by (metis prod_cases3)
  obtain req0 reqs where g: "pool_get zero_request i (hd_reqs h) = (req0, reqs)" by fastforce
  obtain req res where q: "request r (fill_request r req0) = (req, res)" by fastforce
  show ?thesis
  proof (cases "check_size (hd_max h) (header_get (ht_header r) ''Content-Length'')")
    case SizeOk
    show ?thesis
    proof (cases res)
      case (Ok x)
      with SizeOk c g q have e: "ServeHTTP E choice ks r h fs = serve_request E j k ks req (h\<lparr>hd_reqs := reqs\<rparr>) fs"
        by (simp add: ServeHTTP_def Let_def)
      from serve_request_fs [OF assms(1)] assms(2) show ?thesis unfolding e by blast
    qed (use SizeOk c g q in \<open>simp_all add: ServeHTTP_def Let_def\<close>)
  qed (simp_all add: ServeHTTP_def c Let_def)
qed

end
