(* ===== verification/Http_System.thy ===== *)
theory Http_System
  imports Http_Handler
begin

text \<open>
  Properties of the HTTP handler across requests and components: what the request pool carries from
  one client to the next, what the client sees when the worker's answer cannot be used, the size
  limit, and the address a request is attributed to.
\<close>

section \<open>The request pool\<close>

definition upload_names :: "psr_request \<Rightarrow> string list option" where
  "upload_names q = map_option (\<lambda>u. map fu_name (up_list u)) (pr_uploads q)"

lemma add_cookie_keeps:
  "pr_uploads (add_cookie c q) = pr_uploads q" "pr_uri (add_cookie c q) = pr_uri q"
  "pr_header (add_cookie c q) = pr_header q" "pr_method (add_cookie c q) = pr_method q"
  by (simp_all add: add_cookie_def split: option.split)

lemma add_cookies_keep:
  "pr_uploads (fold add_cookie cs q) = pr_uploads q" "pr_uri (fold add_cookie cs q) = pr_uri q"
  "contentType (fold add_cookie cs q) = contentType q"
  by (induction cs arbitrary: q) (simp_all add: add_cookie_keeps contentType_def)

lemma form_body_keeps:
  "form_body r vs q = (q', res) \<Longrightarrow> pr_uploads q' = pr_uploads q \<and> pr_uri q' = pr_uri q"
  by (auto simp: form_body_def split: res.splits)

lemma request_keeps:
  assumes "request r q = (q', res)"
  shows "pr_uri q' = pr_uri q \<and> (contentType q \<noteq> contentMultipart \<longrightarrow> pr_uploads q' = pr_uploads q)"
proof (cases "contentType q")
  case contentStream
  with assms show ?thesis by (auto simp: request_def add_cookies_keep Let_def split: res.splits)
next
  case contentFormData
  with assms have "form_body r Map.empty (fold add_cookie (ht_cookies r) q) = (q', res)"
    by (simp add: request_def add_cookies_keep Let_def)
  from form_body_keeps [OF this] show ?thesis by (simp add: add_cookies_keep)
next
  case contentMultipart
  with assms show ?thesis
    by (auto simp: request_def add_cookies_keep Let_def dest: form_body_keeps split: res.splits prod.splits)
qed (use assms in \<open>auto simp: request_def add_cookies_keep Let_def\<close>)

lemma request_multipart:
  assumes "request r q = (q', Ok ())" "contentType q = contentMultipart" "ht_multi r = Ok (vs, files)"
    and "parseUploads (snd (snd (ht_orders r))) files = Ok u"
  shows "pr_uploads q' = Some u"
  using assms form_body_keeps [of r vs "(fold add_cookie (ht_cookies r) q)\<lparr>pr_uploads := Some u\<rparr>" q' "Ok ()"]
  by (simp add: request_def add_cookies_keep Let_def)

lemma fu_Open_name: "fu_Open E dir forbid allow f fs = (f', fs', r) \<Longrightarrow> fu_name f' = fu_name f"
  by (auto simp: fu_Open_def Let_def split: if_splits res.splits prod.splits)

lemma uploads_Open_names: "uploads_Open E dir forbid allow l fs = (l', fs') \<Longrightarrow> map fu_name l' = map fu_name l"
proof (induction l arbitrary: fs l' fs')
  case (Cons f l)
  obtain f1 fs1 r where 1: "fu_Open E dir forbid allow f fs = (f1, fs1, r)" by (metis prod_cases3)
  obtain l1 fs2 where 2: "uploads_Open E dir forbid allow l fs1 = (l1, fs2)" by fastforce
  from Cons.prems 1 2 Cons.IH [OF 2] fu_Open_name [OF 1] show ?case by auto
qed simp

lemma req_Open_keeps:
  assumes "req_Open E dir forbid allow q fs = (q', fs')"
  shows "upload_names q' = upload_names q \<and> pr_uri q' = pr_uri q"
  using assms uploads_Open_names
  by (auto simp: req_Open_def upload_names_def Let_def split: option.splits prod.splits)

lemma resolveIP_keeps: "upload_names (resolveIP t q) = upload_names q" "pr_uri (resolveIP t q) = pr_uri q"
  by (simp_all add: resolveIP_def upload_names_def Let_def split: option.split)

lemma req_Payload_context: "req_Payload E q p = (p', Ok ()) \<Longrightarrow> env_ctx E q = Ok (pld_context p')"
  by (auto simp: req_Payload_def Let_def split: res.splits if_splits body.splits)

lemma serve_exec_sent: "sv_sent (serve_exec E k ks q p h fs) = Some p"
  by (simp add: serve_exec_def serve_error_def release_def Let_def split: res.split prod.split)

lemma serve_exec_pool:
  assumes "sv_result (serve_exec E k ks q p h fs) \<notin> {Panic, Block}"
  shows "hd_reqs (sv_handler (serve_exec E k ks q p h fs)) = reset_request q # hd_reqs h"
proof (cases "env_exec E p")
  case (Ok w)
  obtain rsps w1 r where w: "handler_Write E k ks w (hd_rsps h) new_writer = (rsps, w1, r)" by (metis prod_cases3)
  from assms Ok w show ?thesis
    by (cases r) (simp_all add: serve_exec_def Let_def serve_error_def release_def pool_put_def split: prod.splits)
qed (use assms in \<open>simp_all add: serve_exec_def Let_def serve_error_def release_def pool_put_def split: prod.splits\<close>)

text \<open>What a served request sends, and what it leaves in the pool.\<close>

lemma serve_request_exec:
  assumes "sv_sent (serve_request E j k ks q h fs) = Some p"
  shows "\<exists>q1 fs1 plds. req_Open E (hd_dir h) (hd_forbid h) (hd_allow h) (resolveIP (hd_trusted h) q) fs = (q1, fs1)
    \<and> env_ctx E q1 = Ok (pld_context p) \<and> serve_request E j k ks q h fs = serve_exec E k ks q1 p (h\<lparr>hd_plds := plds\<rparr>) fs1"
proof -
  obtain q1 fs1 where o: "req_Open E (hd_dir h) (hd_forbid h) (hd_allow h) (resolveIP (hd_trusted h) q) fs = (q1, fs1)"
    by fastforce
  obtain pld0 plds where g: "pool_get zero_payload j (hd_plds h) = (pld0, plds)" by fastforce
  obtain pld r where p: "req_Payload E q1 (pld0\<lparr>pld_codec := CODEC_JSON\<rparr>) = (pld, r)" by fastforce
  from assms o g p have r: "r = Ok ()"
    by (cases r) (simp_all add: serve_request_def Let_def serve_error_def release_def split: prod.splits)
  with o g p have e: "serve_request E j k ks q h fs = serve_exec E k ks q1 pld (h\<lparr>hd_plds := plds\<rparr>) fs1"
    by (simp add: serve_request_def Let_def)
  from assms have "pld = p" unfolding e serve_exec_sent by simp
  with req_Payload_context [of E q1 _ p] p r o e show ?thesis by blast
qed

lemma serve_request_sent:
  assumes "sv_sent (serve_request E j k ks q h fs) = Some p"
  shows "\<exists>q'. env_ctx E q' = Ok (pld_context p) \<and> upload_names q' = upload_names q \<and> pr_uri q' = pr_uri q
    \<and> (sv_result (serve_request E j k ks q h fs) \<notin> {Panic, Block} \<longrightarrow>
           hd_reqs (sv_handler (serve_request E j k ks q h fs)) = reset_request q' # hd_reqs h)"
proof -
  obtain q1 fs1 plds where
    o: "req_Open E (hd_dir h) (hd_forbid h) (hd_allow h) (resolveIP (hd_trusted h) q) fs = (q1, fs1)"
      "env_ctx E q1 = Ok (pld_context p)" "serve_request E j k ks q h fs = serve_exec E k ks q1 p (h\<lparr>hd_plds := plds\<rparr>) fs1"
    using serve_request_exec [OF assms] by blast
  with req_Open_keeps [OF o(1)] resolveIP_keeps serve_exec_pool [of E k ks q1 p "h\<lparr>hd_plds := plds\<rparr>" fs1]
  show ?thesis unfolding o(3) by (intro exI [of _ q1]) auto
qed

lemma ServeHTTP_sent:
  assumes "sv_sent (ServeHTTP E (i, j, k) ks r h fs) = Some p" "pool_get zero_request i (hd_reqs h) = (q0, reqs)"
  obtains q where "request r (fill_request r q0) = (q, Ok ())"
    "ServeHTTP E (i, j, k) ks r h fs = serve_request E j k ks q (h\<lparr>hd_reqs := reqs\<rparr>) fs"
proof -
  obtain q res where q: "request r (fill_request r q0) = (q, res)" by fastforce
  from assms q have "check_size (hd_max h) (header_get (ht_header r) ''Content-Length'') = SizeOk"
    by (simp add: ServeHTTP_def Let_def split: size_check.splits)
  with assms q that show ?thesis
    by (cases res) (simp_all add: ServeHTTP_def Let_def split: if_splits)
qed

text \<open>
  C21: Uploads leak from one client's request into the next.  \<open>putReq\<close> and \<open>getReq\<close> leave the field
  \<open>Uploads\<close> alone: after a multipart request was served, a later request without a multipart body
  that gets the same pooled object is sent to the worker with the uploads of the first one.
\<close>
theorem http_uploads_leak:
  assumes "s1 = ServeHTTP E (i1, j1, k1) ks1 r1 h fs" "sv_sent s1 \<noteq> None" "sv_result s1 = Ok ()"
    and "contentType (fill_request r1 zero_request) = contentMultipart" "ht_multi r1 = Ok (vs, files)"
    and "parseUploads (snd (snd (ht_orders r1))) files = Ok u"
    and "s2 = ServeHTTP E (0, j2, k2) ks2 r2 (sv_handler s1) fs2" "sv_sent s2 = Some p"
    and "contentType (fill_request r2 zero_request) \<noteq> contentMultipart"
  shows "\<exists>q. env_ctx E q = Ok (pld_context p) \<and> pr_uri q = URI r2 \<and> upload_names q = Some (map fu_name (up_list u))"
proof -
  have ct: "contentType (fill_request r q) = contentType (fill_request r q')" for r q q'
    by (simp add: contentType_def fill_request_def)
  obtain p1 where p1: "sv_sent s1 = Some p1" using assms(2) by blast
  obtain q0 reqs where g: "pool_get zero_request i1 (hd_reqs h) = (q0, reqs)" by fastforce
  from ServeHTTP_sent [OF p1 [unfolded assms(1)] g] obtain q where
    q: "request r1 (fill_request r1 q0) = (q, Ok ())" "s1 = serve_request E j1 k1 ks1 q (h\<lparr>hd_reqs := reqs\<rparr>) fs"
    unfolding assms(1) by blast
  from request_multipart [OF q(1) _ assms(5,6)] assms(4) ct [of r1 q0 zero_request] have "upload_names q = Some (map fu_name (up_list u))"
    by (simp add: upload_names_def)
  with serve_request_sent [OF p1 [unfolded q(2)], folded q(2)] assms(3) obtain q' where
    q': "upload_names q' = Some (map fu_name (up_list u))" "hd_reqs (sv_handler s1) = reset_request q' # reqs"
    by auto
  from q'(2) have g2: "pool_get zero_request 0 (hd_reqs (sv_handler s1)) = (reset_request q', reqs)"
    by (simp add: pool_get_def)
  from ServeHTTP_sent [OF assms(8) [unfolded assms(7)] g2] obtain t where
    t: "request r2 (fill_request r2 (reset_request q')) = (t, Ok ())"
      "s2 = serve_request E j2 k2 ks2 t ((sv_handler s1)\<lparr>hd_reqs := reqs\<rparr>) fs2"
    unfolding assms(7) by blast
  from request_keeps [OF t(1)] assms(9) ct [of r2 "reset_request q'" zero_request] q'(1)
  have "upload_names t = Some (map fu_name (up_list u))" "pr_uri t = URI r2"
    by (simp_all add: upload_names_def fill_request_def reset_request_def)
  with serve_request_sent [OF assms(8) [unfolded t(2)]] show ?thesis by metis
qed

section \<open>A concrete handler\<close>

text \<open>A worker that answers every request with status 200 and the request's context as its body.\<close>

definition sample_env :: http_env where
  "sample_env = \<lparr>
     env_temp = (\<lambda>dir fs. if ''t'' \<in> fs then Err (Str ''exists'') else Ok ''t''),
     env_copy = (\<lambda>n b. (int (length b), None)), env_remove = (\<lambda>_. None),
     env_ctx = (\<lambda>q. Ok (concat (case upload_names q of None \<Rightarrow> [] | Some l \<Rightarrow> l))),
     env_data = (\<lambda>_. Ok []), env_decode = (\<lambda>_ rsp. Ok (rsp\<lparr>rs_status := 200\<rparr>)),
     env_exec = (\<lambda>p. Ok p), env_push = None, env_write = (\<lambda>_. None), env_show = (\<lambda>_. ''error'')\<rparr>"

lemma sample_env_laws: "temp_laws sample_env"
  by (simp add: temp_laws_def sample_env_def)

definition sample_handler :: handler where
  "sample_handler = \<lparr>hd_max = 0, hd_dir = ''/tmp'', hd_allow = {}, hd_forbid = {''.php''}, hd_trusted = [],
     hd_code = 500, hd_reqs = [], hd_rsps = [], hd_plds = []\<rparr>"

definition sample_request :: "string \<Rightarrow> http_request" where
  "sample_request ct = \<lparr>ht_remote = ''1.2.3.4:5'', ht_proto = ''HTTP/1.1'', ht_method = ''POST'', ht_host = ''h'',
     ht_url = ''/'', ht_url_host = [], ht_query = [], ht_tls = False, ht_header = [''Content-Type'' \<mapsto> [ct]],
     ht_cookies = [], ht_body = Ok ''b'', ht_form = Ok Map.empty,
     ht_multi = Ok (Map.empty, [''f'' \<mapsto> [\<lparr>fh_name = ''secret.txt'', fh_type = [], fh_open = Ok ''x''\<rparr>]]),
     ht_orders = ([], [], [''f'']), ht_attributes = None\<rparr>"

definition sample_multipart :: http_request where
  "sample_multipart = sample_request ''multipart/form-data''"

definition sample_plain :: http_request where
  "sample_plain = sample_request ''text/plain''"

lemma canonical_names: "canonical_key ''content-type'' = ''Content-Type''" "canonical_key ''Content-Length'' = ''Content-Length''"
  by (simp_all add: canonical_key_def token_char_def upper_char_def lower_char_def char_of_def bit_Suc_0_iff)

lemma sample_content:
  "contentType (fill_request sample_multipart q) = contentMultipart"
  "contentType (fill_request sample_plain q) = contentStream"
  by (simp_all add: contentType_def fill_request_def sample_multipart_def sample_plain_def sample_request_def header_get_def
      canonical_names has_prefix_def)

lemma sample_index: "FetchIndexes ''f'' = [''f'']"
  by (simp add: FetchIndexes_def in_range_def fetch_step_def)

definition sample_uploads :: uploads where
  "sample_uploads = \<lparr>up_tree = [''f'' \<mapsto> Leaf 0],
     up_list = [NewUpload \<lparr>fh_name = ''secret.txt'', fh_type = [], fh_open = Ok ''x''\<rparr>]\<rparr>"

lemma sample_parse: "ht_multi sample_multipart = Ok (vs, files) \<Longrightarrow>
    parseUploads (snd (snd (ht_orders sample_multipart))) files = Ok sample_uploads"
  by (auto simp: sample_multipart_def sample_request_def parseUploads_def sample_uploads_def form_push_def sample_index
      MaxLevel_def mount.simps Let_def)

lemma sample_size: "check_size (hd_max h) (header_get (ht_header (sample_request ct)) ''Content-Length'') = SizeOk"
  by (simp add: check_size_def header_get_def canonical_names sample_request_def)

lemma sample_form_body: "form_body sample_multipart Map.empty q = (q\<lparr>pr_body := Data Map.empty, pr_parsed := True\<rparr>, Ok ())"
  by (simp add: form_body_def sample_multipart_def sample_request_def parseData_def)

lemma sample_multipart_request:
  "request sample_multipart (fill_request sample_multipart q)
     = ((fill_request sample_multipart q)\<lparr>pr_uploads := Some sample_uploads, pr_body := Data Map.empty, pr_parsed := True\<rparr>, Ok ())"
proof -
  obtain vs files where m: "ht_multi sample_multipart = Ok (vs, files)" "vs = Map.empty"
    by (simp add: sample_multipart_def sample_request_def)
  have "ht_cookies sample_multipart = []" by (simp add: sample_multipart_def sample_request_def)
  with m sample_parse [OF m(1)] show ?thesis
    by (simp add: request_def sample_content sample_form_body Let_def)
qed

lemma sample_plain_request:
  "request sample_plain (fill_request sample_plain q) = ((fill_request sample_plain q)\<lparr>pr_body := Raw ''b''\<rparr>, Ok ())"
proof -
  have "ht_cookies sample_plain = []" "ht_body sample_plain = Ok ''b''" by (simp_all add: sample_plain_def sample_request_def)
  then show ?thesis by (simp add: request_def sample_content Let_def)
qed

text \<open>The worker behind \<open>sample_env\<close> gets every request and answers it.\<close>

lemma sample_exec:
  "sv_sent (serve_exec sample_env k ks q p h fs) = Some p"
  "\<forall>rsp \<in> set (hd_rsps h). rsp = zero_response \<Longrightarrow> sv_result (serve_exec sample_env k ks q p h fs) = Ok ()"
proof -
  show "sv_sent (serve_exec sample_env k ks q p h fs) = Some p" by (rule serve_exec_sent)
  obtain rsp rsps where g: "pool_get zero_response k (hd_rsps h) = (rsp, rsps)" by fastforce
  assume "\<forall>rsp \<in> set (hd_rsps h). rsp = zero_response"
  then have "clean zero_response (hd_rsps h)" by (simp add: clean_def)
  from pool_get_clean [OF this g] have "rs_headers rsp = Map.empty" by (simp add: zero_response_def)
  with g show "sv_result (serve_exec sample_env k ks q p h fs) = Ok ()"
    by (simp add: serve_exec_def sample_env_def handler_Write_def write_decoded_def WriteHeader_def new_writer_def
        release_def Let_def split: prod.split)
qed

lemma req_Open_body:
  "req_Open E dir forbid allow (resolveIP t q) fs = (q1, fs1) \<Longrightarrow> pr_body q1 = pr_body q \<and> pr_parsed q1 = pr_parsed q"
  by (auto simp: req_Open_def resolveIP_def Let_def split: option.splits prod.splits if_splits)

lemma sample_serve:
  assumes "clean zero_response (hd_rsps h)" "\<And>d. pr_body q = Data d \<Longrightarrow> pr_parsed q"
  shows "sv_sent (serve_request sample_env j k ks q h fs) \<noteq> None \<and> sv_result (serve_request sample_env j k ks q h fs) = Ok ()"
proof -
  obtain q1 fs1 where o: "req_Open sample_env (hd_dir h) (hd_forbid h) (hd_allow h) (resolveIP (hd_trusted h) q) fs = (q1, fs1)"
    by fastforce
  obtain pld0 plds where g: "pool_get zero_payload j (hd_plds h) = (pld0, plds)" by fastforce
  obtain pld r where p: "req_Payload sample_env q1 (pld0\<lparr>pld_codec := CODEC_JSON\<rparr>) = (pld, r)" by fastforce
  have "pr_body q1 = pr_body q" "pr_parsed q1 = pr_parsed q"
    using req_Open_body [OF o] by simp_all
  with assms(2) p have "r = Ok ()"
    by (cases "pr_body q") (auto simp: req_Payload_def sample_env_def Let_def split: if_splits)
  with o g p have e: "serve_request sample_env j k ks q h fs = serve_exec sample_env k ks q1 pld (h\<lparr>hd_plds := plds\<rparr>) fs1"
    by (simp add: serve_request_def Let_def)
  show ?thesis unfolding e using sample_exec assms(1) by (simp add: clean_def)
qed

lemma handler_Write_clean:
  assumes "clean zero_response rsps" "handler_Write E k ks p rsps w = (rsps', w', r)"
  shows "clean zero_response rsps'"
proof -
  obtain rsp rsps1 where g: "pool_get zero_response k rsps = (rsp, rsps1)" by fastforce
  from pool_get_clean [OF assms(1) g] have "clean zero_response rsps1" by simp
  with assms(2) g show ?thesis
    by (auto simp: handler_Write_def intro: response_pool.put_clean split: res.splits prod.splits)
qed

lemma serve_exec_clean:
  assumes "clean zero_response (hd_rsps h)"
  shows "clean zero_response (hd_rsps (sv_handler (serve_exec E k ks q p h fs)))"
proof (cases "env_exec E p")
  case (Ok x)
  obtain rsps w r where w: "handler_Write E k ks x (hd_rsps h) new_writer = (rsps, w, r)" by (metis prod_cases3)
  with handler_Write_clean [OF assms w] Ok show ?thesis
    by (cases r) (simp_all add: serve_exec_def serve_error_def release_def Let_def split: prod.splits)
qed (use assms in \<open>simp_all add: serve_exec_def serve_error_def release_def Let_def split: prod.splits\<close>)

lemma sample_ServeHTTP:
  assumes "\<And>q. \<exists>q'. request r (fill_request r q) = (q', Ok ()) \<and> (\<forall>d. pr_body q' = Data d \<longrightarrow> pr_parsed q')"
    and "r = sample_request ct" "clean zero_response (hd_rsps h)" "s = ServeHTTP sample_env (i, j, k) ks r h fs"
  shows "sv_sent s \<noteq> None \<and> sv_result s = Ok () \<and> clean zero_response (hd_rsps (sv_handler s))"
proof -
  obtain q0 reqs where g: "pool_get zero_request i (hd_reqs h) = (q0, reqs)" by fastforce
  from assms(1) [of q0] obtain q where q: "request r (fill_request r q0) = (q, Ok ())" "\<And>d. pr_body q = Data d \<Longrightarrow> pr_parsed q"
    by blast
  let ?h = "h\<lparr>hd_reqs := reqs\<rparr>"
  have e: "s = serve_request sample_env j k ks q ?h fs"
    using g q(1) sample_size [of h ct] by (simp add: assms(4) ServeHTTP_def assms(2) Let_def)
  have sv: "sv_sent s \<noteq> None \<and> sv_result s = Ok ()"
    unfolding e using sample_serve [of ?h q j k ks fs] assms(3) q(2) by simp
  moreover have "clean zero_response (hd_rsps (sv_handler s))"
    using sv assms(3) serve_exec_clean
    by (auto simp: e serve_request_def Let_def serve_error_def release_def split: prod.splits res.splits)
  ultimately show ?thesis by blast
qed

theorem http_uploads_leak_witness:
  "let s1 = ServeHTTP sample_env (0, 0, 0) [] sample_multipart sample_handler {};
       s2 = ServeHTTP sample_env (0, 0, 0) [] sample_plain (sv_handler s1) {}
   in \<exists>p. sv_sent s2 = Some p \<and> pld_context p = ''secret.txt''"
proof -
  define s1 where "s1 = ServeHTTP sample_env (0, 0, 0) [] sample_multipart sample_handler {}"
  define s2 where "s2 = ServeHTTP sample_env (0, 0, 0) [] sample_plain (sv_handler s1) {}"
  have 1: "sv_sent s1 \<noteq> None \<and> sv_result s1 = Ok () \<and> clean zero_response (hd_rsps (sv_handler s1))"
    by (rule sample_ServeHTTP [OF _ sample_multipart_def _ s1_def])
      (simp_all add: sample_multipart_request sample_handler_def)
  have "sv_sent s2 \<noteq> None"
    using 1 by (intro conjunct1 [OF sample_ServeHTTP [OF _ sample_plain_def _ s2_def]])
      (simp_all add: sample_plain_request)
  then obtain p where p: "sv_sent s2 = Some p" by blast
  obtain vs files where m: "ht_multi sample_multipart = Ok (vs, files)"
    by (simp add: sample_multipart_def sample_request_def)
  from http_uploads_leak [OF s1_def _ _ _ m sample_parse [OF m] s2_def p] 1 obtain q where
    "env_ctx sample_env q = Ok (pld_context p)" "upload_names q = Some (map fu_name (up_list sample_uploads))"
    by (auto simp: sample_content)
  then have "pld_context p = ''secret.txt''" by (simp add: sample_env_def sample_uploads_def NewUpload_def)
  with p show ?thesis by (simp add: s1_def s2_def Let_def)
qed

theorem ServeHTTP_cleans_witness:
  "sv_fs (ServeHTTP sample_env (0, 0, 0) [] sample_multipart sample_handler {}) = {}"
proof -
  have "sv_result (ServeHTTP sample_env (0, 0, 0) [] sample_multipart sample_handler {}) = Ok ()"
    using sample_ServeHTTP [OF _ sample_multipart_def _ refl, of sample_handler 0 0 0 "[]" "{}"]
    by (simp add: sample_multipart_request sample_handler_def)
  then have "sv_fs (ServeHTTP sample_env (0, 0, 0) [] sample_multipart sample_handler {}) \<subseteq> {}"
    by (intro ServeHTTP_cleans [OF sample_env_laws]) simp
  then show ?thesis by simp
qed

section \<open>Answers to the client\<close>

text \<open>
  A broken answer from the worker looks like success.  When the worker's context cannot be
  decoded, \<open>handleError\<close> writes nothing for the decoder's plain error, and \<open>net/http\<close> completes the
  untouched response: the client gets status 200 and an empty body.
\<close>
theorem http_decode_error_ok:
  assumes "sv_sent (ServeHTTP E choice ks r h fs) = Some p" "env_exec E p = Ok wResp"
    and "\<forall>rsp. env_decode E (pld_context wResp) rsp = Err (Str msg)"
  shows "sv_result (ServeHTTP E choice ks r h fs) = Ok ()
    \<and> client_status (sv_writer (ServeHTTP E choice ks r h fs)) = 200
    \<and> wr_body (sv_writer (ServeHTTP E choice ks r h fs)) = []"
proof -
  obtain i j k where c: "choice = (i, j, k)" by (metis prod_cases3)
  obtain q0 reqs where g: "pool_get zero_request i (hd_reqs h) = (q0, reqs)" by fastforce
  from ServeHTTP_sent [OF assms(1) [unfolded c] g] obtain q where
    e: "ServeHTTP E choice ks r h fs = serve_request E j k ks q (h\<lparr>hd_reqs := reqs\<rparr>) fs" unfolding c by blast
  from serve_request_exec [OF assms(1) [unfolded e]] obtain q1 h1 fs1 where
    e2: "serve_request E j k ks q (h\<lparr>hd_reqs := reqs\<rparr>) fs = serve_exec E k ks q1 p h1 fs1" by blast
  obtain rsp rsps where "pool_get zero_response k (hd_rsps h1) = (rsp, rsps)" by fastforce
  with assms(2,3) show ?thesis unfolding e e2
    by (simp add: serve_exec_def handler_Write_def serve_error_def release_def handleError_def new_writer_def
        client_status_def Let_def)
qed

lemma plain_sent:
  assumes "\<And>q. \<exists>c. env_ctx E q = Ok c"
  shows "\<exists>p. sv_sent (ServeHTTP E (i, j, k) ks sample_plain h fs) = Some p"
proof -
  obtain q0 reqs where g: "pool_get zero_request i (hd_reqs h) = (q0, reqs)" by fastforce
  let ?q = "(fill_request sample_plain q0)\<lparr>pr_body := Raw ''b''\<rparr>" and ?h = "h\<lparr>hd_reqs := reqs\<rparr>"
  have e: "ServeHTTP E (i, j, k) ks sample_plain h fs = serve_request E j k ks ?q ?h fs"
    using g sample_plain_request [of q0] sample_size [of h "''text/plain''", folded sample_plain_def]
    by (simp add: ServeHTTP_def Let_def)
  obtain q1 fs1 where o: "req_Open E (hd_dir ?h) (hd_forbid ?h) (hd_allow ?h) (resolveIP (hd_trusted ?h) ?q) fs = (q1, fs1)"
    by fastforce
  obtain pld0 plds where p: "pool_get zero_payload j (hd_plds ?h) = (pld0, plds)" by fastforce
  have "pr_body q1 = Raw ''b''" "\<not> pr_parsed q1" using req_Open_body [OF o] by (simp_all add: fill_request_def)
  with assms [of q1] o p show ?thesis unfolding e
    by (auto simp: serve_request_def Let_def req_Payload_def serve_exec_sent)
qed

theorem http_decode_error_ok_witness:
  "\<exists>E p. sv_sent (ServeHTTP E (0, 0, 0) [] sample_plain sample_handler {}) = Some p
     \<and> client_status (sv_writer (ServeHTTP E (0, 0, 0) [] sample_plain sample_handler {})) = 200"
proof -
  let ?E = "sample_env\<lparr>env_decode := \<lambda>_ _. Err (Str ''invalid character'')\<rparr>"
  have "\<exists>p. sv_sent (ServeHTTP ?E (0, 0, 0) [] sample_plain sample_handler {}) = Some p"
    by (rule plain_sent) (simp_all add: sample_env_def)
  then obtain p where p: "sv_sent (ServeHTTP ?E (0, 0, 0) [] sample_plain sample_handler {}) = Some p" by blast
  from http_decode_error_ok [OF p, of p "''invalid character''"] p show ?thesis
    by (intro exI [of _ ?E] exI [of _ p]) (simp add: sample_env_def)
qed

section \<open>The size limit\<close>

lemma max_size_sint:
  assumes "unat m < 2 ^ 43"
  shows "sint (m * MB) = int (unat m) * 2 ^ 20"
proof -
  have u: "unat (m * MB) = unat m * 2 ^ 20"
    using assms by (simp add: MB_def unat_word_ariths)
  have i: "uint (m * MB) = int (unat m) * 2 ^ 20" unfolding uint_nat u by simp
  have "signed_take_bit 63 (int n * 2 ^ 20) = int n * 2 ^ 20" if "n < 2 ^ 43" for n :: nat
    using that by (intro signed_take_bit_int_eq_self) simp_all
  from this [OF assms] show ?thesis by (simp add: sint_uint i)
qed

text \<open>
  C40: The size limit is exact below eight exabytes.  For a limit of \<open>m\<close> megabytes with \<open>m\<close> below
  \<open>2^43\<close>, a request that announces \<open>n\<close> bytes is refused, with status 400 and without reaching a
  worker, if and only if \<open>n\<close> exceeds \<open>m * 2^20\<close>.
\<close>
theorem http_max_size:
  assumes "NewHandler m code dir allow forbid trusted True = Ok h" "m \<noteq> 0" "unat m < 2 ^ 43"
    and "header_get (ht_header r) ''Content-Length'' = show_nat n" "n < 2 ^ 63"
  shows "check_size (hd_max h) (show_nat n) = (if unat m * 2 ^ 20 < n then SizeExceeded else SizeOk)
    \<and> (unat m * 2 ^ 20 < n \<longrightarrow> client_status (sv_writer (ServeHTTP E choice ks r h fs)) = 400
         \<and> sv_sent (ServeHTTP E choice ks r h fs) = None)"
proof -
  have h: "hd_max h = m * MB" using assms(1) by (auto simp: NewHandler_def)
  have s: "sint (hd_max h) = int (unat m) * 2 ^ 20" unfolding h by (rule max_size_sint [OF assms(3)])
  have "int k * 2 ^ 20 < int n \<longleftrightarrow> k * 2 ^ 20 < n" for k :: nat by auto
  then have lt: "sint (hd_max h) < int n \<longleftrightarrow> unat m * 2 ^ 20 < n" unfolding s .
  have "hd_max h \<noteq> 0"
  proof
    assume "hd_max h = 0"
    with s have "int (unat m) = 0" by simp
    then have "unat m = 0" by linarith
    with assms(2) show False by (simp add: unat_eq_zero)
  qed
  moreover have "parse_int (show_nat n) = Some (int n)" by (rule parse_int_show_nat [OF assms(5)])
  moreover have "show_nat n \<noteq> []" using show_nat_digits by blast
  ultimately have c: "check_size (hd_max h) (show_nat n) = (if unat m * 2 ^ 20 < n then SizeExceeded else SizeOk)"
    using lt by (simp add: check_size_def)
  obtain i j k where "choice = (i, j, k)" by (metis prod_cases3)
  with c assms(4) show ?thesis
    by (simp add: ServeHTTP_def Let_def http_Error_def WriteHeader_def client_status_def new_writer_def)
qed

theorem http_max_size_witness:
  "\<exists>h. NewHandler 1 500 ''/tmp'' {} {} [] True = Ok h \<and> check_size (hd_max h) (show_nat 1048577) = SizeExceeded"
proof -
  obtain h where h: "NewHandler 1 500 ''/tmp'' {} {} [] True = Ok h" by (simp add: NewHandler_def)
  let ?r = "(sample_request [])\<lparr>ht_header := [''Content-Length'' \<mapsto> [show_nat 1048577]]\<rparr>"
  have "header_get (ht_header ?r) ''Content-Length'' = show_nat 1048577" by (simp add: header_get_def canonical_names)
  from http_max_size [OF h _ _ this] h show ?thesis by auto
qed

text \<open>A limit of \<open>2^44\<close> megabytes wraps around to no limit.\<close>

lemma http_max_size_wraps: "NewHandler (2 ^ 44) code dir allow forbid trusted True = Ok h \<Longrightarrow> check_size (hd_max h) len = SizeOk"
  by (auto simp: NewHandler_def check_size_def MB_def)

section \<open>The remote address\<close>


definition sample_forwarded :: psr_request where
  "sample_forwarded = zero_request\<lparr>pr_remote := ''10.0.0.1'', pr_header := [''X-Forwarded-For'' \<mapsto> [''6.6.6.6,1.1.1.1,x'']]\<rparr>"

lemma forwarded_name: "canonical_key ''X-Forwarded-For'' = ''X-Forwarded-For''"
  by (simp add: canonical_key_def token_char_def upper_char_def lower_char_def)


text \<open>An unbracketed IPv6 address in \<open>X-Real-Ip\<close> is not a host and a port: the address becomes empty.\<close>

lemma FetchIP_ipv6: "FetchIP ''2001:db8::1'' = []"
  by (simp add: FetchIP_def split_host_port_def last_index_def)

end
