(* ===== verification/Pubsub.thy ===== *)
theory Pubsub
  imports Prelude
begin

text \<open>
  Publishing and subscribing: the interface of a pub/sub driver, the in-memory driver
  (\<open>memory/memorypubsub\<close>), and the broadcast plugin with its RPC (\<open>broadcast\<close>).

  The set of subscriptions of the memory driver is kept in \<open>bst.Storage\<close> of the RoadRunner SDK, which
  is not part of the repository: it is a record of its operations, with the documented laws in
  \<open>bst_laws\<close>, which the last section instantiates.  The locale \<open>subscriptions\<close> is what the websocket
  components rely on: a driver is a map from topics to the connections subscribed to them.
\<close>

record message =
  ms_topic :: string
  ms_payload :: bytes

text \<open>
  The methods of \<open>pubsub.PubSub\<close>.  \<open>ps_connections\<close> is the set of connections that \<open>Connections\<close> adds
  to its argument; the first argument of \<open>ps_next\<close> says that it returns because the context is done, and a nil message
  is \<open>Ok None\<close>.
\<close>

record 's pubsub_ops =
  ps_publish :: "message \<Rightarrow> 's \<Rightarrow> 's \<times> unit res"
  ps_subscribe :: "string \<Rightarrow> string list \<Rightarrow> 's \<Rightarrow> 's \<times> unit res"
  ps_unsubscribe :: "string \<Rightarrow> string list \<Rightarrow> 's \<Rightarrow> 's \<times> unit res"
  ps_connections :: "string \<Rightarrow> 's \<Rightarrow> string set"
  ps_next :: "bool \<Rightarrow> 's \<Rightarrow> 's \<times> message option res"
  ps_stop :: "'s \<Rightarrow> 's"

locale subscriptions =
  fixes ops :: "'s pubsub_ops"
    and inv :: "'s \<Rightarrow> bool"
    and subs :: "'s \<Rightarrow> string \<Rightarrow> string set"
  assumes subscribe_subs:
      "inv s \<Longrightarrow> ps_subscribe ops c ts s = (s', Ok ()) \<Longrightarrow>
         inv s' \<and> subs s' = (\<lambda>t. if t \<in> set ts then insert c (subs s t) else subs s t)"
    and subscribe_others:
      "inv s \<Longrightarrow> ps_subscribe ops c ts s = (s', r3) \<Longrightarrow>
         inv s' \<and> (\<forall>t c'. c' \<noteq> c \<longrightarrow> (c' \<in> subs s' t) = (c' \<in> subs s t))"
    and unsubscribe_subs:
      "inv s \<Longrightarrow> ps_unsubscribe ops c ts s = (s', Ok ()) \<Longrightarrow>
         inv s' \<and> subs s' = (\<lambda>t. if t \<in> set ts then subs s t - {c} else subs s t)"
    and unsubscribe_total: "inv s \<Longrightarrow> \<exists>s'. ps_unsubscribe ops c ts s = (s', Ok ())"
    and connections_subs: "inv s \<Longrightarrow> ps_connections ops t s = subs s t"
    and next_subs: "inv s \<Longrightarrow> ps_next ops d s = (s', r) \<Longrightarrow> inv s' \<and> subs s' = subs s"
    and publish_subs: "inv s \<Longrightarrow> ps_publish ops m s = (s', r2) \<Longrightarrow> inv s' \<and> subs s' = subs s"

section \<open>The memory driver\<close>

record 'b bst_api =
  bst_new :: 'b
  bst_insert :: "string \<Rightarrow> string \<Rightarrow> 'b \<Rightarrow> 'b"
  bst_remove :: "string \<Rightarrow> string \<Rightarrow> 'b \<Rightarrow> 'b"
  bst_get :: "string \<Rightarrow> 'b \<Rightarrow> string set"
  bst_contains :: "string \<Rightarrow> 'b \<Rightarrow> bool"

text \<open>
  \<open>Insert\<close> adds a connection to a topic, \<open>Remove\<close> removes it, and the topic with its last connection;
  \<open>Get\<close> returns the connections of a topic, \<open>Contains\<close> says whether the topic is there.
\<close>

definition bst_laws :: "'b bst_api \<Rightarrow> bool" where
  "bst_laws B \<longleftrightarrow>
     (\<forall>t. bst_get B t (bst_new B) = {})
   \<and> (\<forall>c t b t'. bst_get B t' (bst_insert B c t b) = (if t' = t then insert c (bst_get B t b) else bst_get B t' b))
   \<and> (\<forall>c t b t'. bst_get B t' (bst_remove B c t b) = (if t' = t then bst_get B t b - {c} else bst_get B t' b))
   \<and> (\<forall>t b. bst_contains B t b \<longleftrightarrow> bst_get B t b \<noteq> {})"

record 'b mem_pubsub =
  mp_queue :: "message list"
  mp_storage :: 'b

definition push_cap :: nat where
  "push_cap = 100"

definition NewPubSubDriver :: "'b bst_api \<Rightarrow> string \<Rightarrow> 'b mem_pubsub res" where
  "NewPubSubDriver B key = Ok \<lparr>mp_queue = [], mp_storage = bst_new B\<rparr>"

text \<open>A send on the full channel blocks.\<close>

definition mp_Publish :: "message \<Rightarrow> 'b mem_pubsub \<Rightarrow> 'b mem_pubsub \<times> unit res" where
  "mp_Publish m d =
     (if push_cap \<le> length (mp_queue d) then (d, Block) else (d\<lparr>mp_queue := mp_queue d @ [m]\<rparr>, Ok ()))"

definition mp_Subscribe :: "'b bst_api \<Rightarrow> string \<Rightarrow> string list \<Rightarrow> 'b mem_pubsub \<Rightarrow> 'b mem_pubsub \<times> unit res" where
  "mp_Subscribe B c ts d = (d\<lparr>mp_storage := fold (bst_insert B c) ts (mp_storage d)\<rparr>, Ok ())"

definition mp_Unsubscribe :: "'b bst_api \<Rightarrow> string \<Rightarrow> string list \<Rightarrow> 'b mem_pubsub \<Rightarrow> 'b mem_pubsub \<times> unit res" where
  "mp_Unsubscribe B c ts d = (d\<lparr>mp_storage := fold (bst_remove B c) ts (mp_storage d)\<rparr>, Ok ())"

definition mp_Connections :: "'b bst_api \<Rightarrow> string \<Rightarrow> 'b mem_pubsub \<Rightarrow> string set" where
  "mp_Connections B t d = bst_get B t (mp_storage d)"

text \<open>\<open>Next\<close> waits for a message or the end of the context; \<open>ctx_done\<close> is the choice of the \<open>select\<close>.\<close>

definition mp_Next :: "'b bst_api \<Rightarrow> bool \<Rightarrow> 'b mem_pubsub \<Rightarrow> 'b mem_pubsub \<times> message option res" where
  "mp_Next B ctx_done d =
     (if ctx_done then (d, Err (EOp ''pubsub_memory'' (Kind TimeOut)))
      else case mp_queue d of
          m # ms \<Rightarrow> (d\<lparr>mp_queue := ms\<rparr>, Ok (if bst_contains B (ms_topic m) (mp_storage d) then Some m else None))
        | [] \<Rightarrow> (d, Block))"

definition mp_ops :: "'b bst_api \<Rightarrow> 'b mem_pubsub pubsub_ops" where
  "mp_ops B = \<lparr>ps_publish = mp_Publish, ps_subscribe = mp_Subscribe B, ps_unsubscribe = mp_Unsubscribe B,
     ps_connections = mp_Connections B, ps_next = mp_Next B, ps_stop = id\<rparr>"

definition mp_subs :: "'b bst_api \<Rightarrow> 'b mem_pubsub \<Rightarrow> string \<Rightarrow> string set" where
  "mp_subs B d t = bst_get B t (mp_storage d)"

lemma fold_insert:
  "bst_laws B \<Longrightarrow> bst_get B t (fold (bst_insert B c) ts b) = (if t \<in> set ts then insert c (bst_get B t b) else bst_get B t b)"
  by (induction ts arbitrary: b) (auto simp: bst_laws_def)

lemma fold_remove:
  "bst_laws B \<Longrightarrow> bst_get B t (fold (bst_remove B c) ts b) = (if t \<in> set ts then bst_get B t b - {c} else bst_get B t b)"
  by (induction ts arbitrary: b) (auto simp: bst_laws_def)

interpretation mem_subs: subscriptions "mp_ops B" "\<lambda>_. bst_laws B" "mp_subs B"
  for B :: "'b bst_api"
proof unfold_locales
  fix s s' :: "'b mem_pubsub" and c ts
  assume "bst_laws B" "ps_subscribe (mp_ops B) c ts s = (s', Ok ())"
  then show "bst_laws B \<and> mp_subs B s' = (\<lambda>t. if t \<in> set ts then insert c (mp_subs B s t) else mp_subs B s t)"
    by (auto simp: mp_ops_def mp_Subscribe_def mp_subs_def fold_insert fun_eq_iff)
next
  fix s s' :: "'b mem_pubsub" and c ts r3
  assume "bst_laws B" "ps_subscribe (mp_ops B) c ts s = (s', r3)"
  then show "bst_laws B \<and> (\<forall>t c'. c' \<noteq> c \<longrightarrow> (c' \<in> mp_subs B s' t) = (c' \<in> mp_subs B s t))"
    by (auto simp: mp_ops_def mp_Subscribe_def mp_subs_def fold_insert split: if_splits)
next
  fix s s' :: "'b mem_pubsub" and c ts
  assume "bst_laws B" "ps_unsubscribe (mp_ops B) c ts s = (s', Ok ())"
  then show "bst_laws B \<and> mp_subs B s' = (\<lambda>t. if t \<in> set ts then mp_subs B s t - {c} else mp_subs B s t)"
    by (auto simp: mp_ops_def mp_Unsubscribe_def mp_subs_def fold_remove fun_eq_iff)
next
  fix s s' :: "'b mem_pubsub" and d r
  assume "bst_laws B" "ps_next (mp_ops B) d s = (s', r)"
  then show "bst_laws B \<and> mp_subs B s' = mp_subs B s"
    by (auto simp: mp_ops_def mp_Next_def mp_subs_def fun_eq_iff split: list.splits if_splits)
next
  fix s s' :: "'b mem_pubsub" and m r
  assume "bst_laws B" "ps_publish (mp_ops B) m s = (s', r)"
  then show "bst_laws B \<and> mp_subs B s' = mp_subs B s"
    by (auto simp: mp_ops_def mp_Publish_def mp_subs_def fun_eq_iff split: if_splits)
qed (simp_all add: mp_ops_def mp_Unsubscribe_def mp_Connections_def mp_subs_def)

section \<open>The broadcast plugin\<close>

datatype bc_driver = NoDriver | NameDriver string | WrongDriver
datatype bc_section = WrongSection | Section bc_driver

record 's broadcast =
  bc_publishers :: "string \<rightharpoonup> 's"
  bc_constructors :: "string \<rightharpoonup> (string \<Rightarrow> 's res)"
  bc_data :: "string \<rightharpoonup> bc_section"

definition bc_Init :: "(string \<rightharpoonup> bc_section) res option \<Rightarrow> 's broadcast res" where
  "bc_Init cfg =
     (let op = ''broadcast_plugin_init'' in
      case cfg of
        None \<Rightarrow> Err (EOp op (Kind Disabled))
      | Some r \<Rightarrow> map_res (\<lambda>d. \<lparr>bc_publishers = Map.empty, bc_constructors = Map.empty, bc_data = d\<rparr>) (wrap op r))"

definition CollectPublishers :: "string \<Rightarrow> (string \<Rightarrow> 's res) \<Rightarrow> 's broadcast \<Rightarrow> 's broadcast" where
  "CollectPublishers name con p = p\<lparr>bc_constructors := (bc_constructors p)(name \<mapsto> con)\<rparr>"

text \<open>The loop over the publishers, in the order \<open>ks\<close>.\<close>

fun publish_loop :: "'s pubsub_ops \<Rightarrow> message \<Rightarrow> string list \<Rightarrow> (string \<rightharpoonup> 's) \<Rightarrow> (string \<rightharpoonup> 's) \<times> unit res" where
  "publish_loop ops m [] ps = (ps, Ok ())"
| "publish_loop ops m (k # ks) ps =
     (case ps k of
        None \<Rightarrow> publish_loop ops m ks ps
      | Some s \<Rightarrow>
          (let (s', r) = ps_publish ops m s; ps' = ps(k \<mapsto> s') in
           if r = Ok () then publish_loop ops m ks ps' else (ps', wrap ''broadcast_plugin_publish'' r)))"

definition bc_Publish :: "'s pubsub_ops \<Rightarrow> string list \<Rightarrow> message \<Rightarrow> 's broadcast \<Rightarrow> 's broadcast \<times> unit res" where
  "bc_Publish ops ks m p =
     (let (ps, r) = publish_loop ops m ks (bc_publishers p) in (p\<lparr>bc_publishers := ps\<rparr>, r))"

text \<open>The goroutine of \<open>PublishAsync\<close>: errors do not stop it.\<close>

fun publish_async_loop :: "'s pubsub_ops \<Rightarrow> message \<Rightarrow> string list \<Rightarrow> (string \<rightharpoonup> 's) \<Rightarrow> (string \<rightharpoonup> 's)" where
  "publish_async_loop ops m [] ps = ps"
| "publish_async_loop ops m (k # ks) ps =
     (case ps k of
        None \<Rightarrow> publish_async_loop ops m ks ps
      | Some s \<Rightarrow>
          (let (s', r) = ps_publish ops m s; ps' = ps(k \<mapsto> s') in
           if r = Panic \<or> r = Block then ps' else publish_async_loop ops m ks ps'))"

definition bc_PublishAsync :: "'s pubsub_ops \<Rightarrow> string list \<Rightarrow> message \<Rightarrow> 's broadcast \<Rightarrow> 's broadcast" where
  "bc_PublishAsync ops ks m p = p\<lparr>bc_publishers := publish_async_loop ops m ks (bc_publishers p)\<rparr>"

text \<open>\<open>GetDriver\<close> returns the driver it stored; the key stands for the pointer.  The text of the error for an
  unknown constructor leaves out the printed map of publishers.\<close>

definition bc_construct :: "(string \<Rightarrow> 's res) \<Rightarrow> string \<Rightarrow> string \<Rightarrow> 's broadcast \<Rightarrow> 's broadcast \<times> string res" where
  "bc_construct con key configKey p =
     (case wrap ''broadcast_plugin_get_driver'' (con key) of
        Ok s \<Rightarrow> (p\<lparr>bc_publishers := (bc_publishers p)(configKey \<mapsto> s)\<rparr>, Ok configKey)
      | Err e \<Rightarrow> (p, Err e)
      | Panic \<Rightarrow> (p, Panic)
      | Block \<Rightarrow> (p, Block))"

definition GetDriver :: "(string \<Rightarrow> bool) \<Rightarrow> string \<Rightarrow> 's broadcast \<Rightarrow> 's broadcast \<times> string res" where
  "GetDriver has key p =
     (let op = ''broadcast_plugin_get_driver''; configKey = ''broadcast.'' @ key @ ''.config'';
          missing = (p, Err (EOp op (Str ''could not find driver by provided key''))) in
      case bc_data p key of
        None \<Rightarrow> missing
      | Some WrongSection \<Rightarrow>
          (p, Err (EOp op (Str ''wrong type detected in the configuration, please, check yaml indentation'')))
      | Some (Section NoDriver) \<Rightarrow> (p, Panic)
      | Some (Section WrongDriver) \<Rightarrow> missing
      | Some (Section (NameDriver dr)) \<Rightarrow>
          (case bc_constructors p dr of
             None \<Rightarrow> (p, Err (EOp op (Str (''no drivers with the requested name registered, requested: '' @ dr))))
           | Some con \<Rightarrow>
               if has configKey then bc_construct con configKey configKey p
               else if has key then bc_construct con key configKey p
               else missing))"

definition bc_Stop :: "'s pubsub_ops \<Rightarrow> 's broadcast \<Rightarrow> 's broadcast" where
  "bc_Stop ops p = p\<lparr>bc_publishers := (\<lambda>k. map_option (ps_stop ops) (bc_publishers p k))\<rparr>"

section \<open>The broadcast RPC\<close>

record rpc_message =
  rm_topics :: "string list"
  rm_payload :: bytes

text \<open>
  The two nested loops as one over the pairs of topic and payload; \<open>ord n\<close> is the iteration order of
  the publishers in the \<open>n\<close>-th call.
\<close>

definition rpc_items :: "rpc_message list \<Rightarrow> message list" where
  "rpc_items ms = concat (map (\<lambda>m. map (\<lambda>t. \<lparr>ms_topic = t, ms_payload = rm_payload m\<rparr>) (rm_topics m)) ms)"

fun rpc_publish_loop ::
  "'s pubsub_ops \<Rightarrow> (nat \<Rightarrow> string list) \<Rightarrow> nat \<Rightarrow> message list \<Rightarrow> 's broadcast \<Rightarrow> 's broadcast \<times> bool \<times> unit res"
where
  "rpc_publish_loop ops ord n [] p = (p, True, Ok ())"
| "rpc_publish_loop ops ord n (m # ms) p =
     (if ms_topic m = [] then rpc_publish_loop ops ord n ms p
      else let (p1, r) = bc_Publish ops (ord n) m p in
        if r = Ok () then rpc_publish_loop ops ord (Suc n) ms p1
        else (p1, False, wrap ''broadcast_publish'' r))"

definition rpc_Publish ::
  "'s pubsub_ops \<Rightarrow> (nat \<Rightarrow> string list) \<Rightarrow> rpc_message list option \<Rightarrow> 's broadcast \<Rightarrow> 's broadcast \<times> bool \<times> unit res"
where
  "rpc_Publish ops ord req p =
     (case req of None \<Rightarrow> (p, False, Ok ()) | Some ms \<Rightarrow> rpc_publish_loop ops ord 0 (rpc_items ms) p)"

fun rpc_async_loop :: "'s pubsub_ops \<Rightarrow> (nat \<Rightarrow> string list) \<Rightarrow> nat \<Rightarrow> message list \<Rightarrow> 's broadcast \<Rightarrow> 's broadcast" where
  "rpc_async_loop ops ord n [] p = p"
| "rpc_async_loop ops ord n (m # ms) p =
     (if ms_topic m = [] then rpc_async_loop ops ord n ms p
      else rpc_async_loop ops ord (Suc n) ms (bc_PublishAsync ops (ord n) m p))"

definition rpc_PublishAsync ::
  "'s pubsub_ops \<Rightarrow> (nat \<Rightarrow> string list) \<Rightarrow> rpc_message list option \<Rightarrow> 's broadcast \<Rightarrow> 's broadcast \<times> bool"
where
  "rpc_PublishAsync ops ord req p =
     (case req of None \<Rightarrow> (p, False) | Some ms \<Rightarrow> (rpc_async_loop ops ord 0 (rpc_items ms) p, True))"

section \<open>Publishing to the memory driver\<close>

lemma bc_Publish_one:
  assumes "bc_publishers p = [k \<mapsto> d]" "length (mp_queue d) < push_cap"
  shows "bc_Publish (mp_ops B) [k] m p = (p\<lparr>bc_publishers := [k \<mapsto> d\<lparr>mp_queue := mp_queue d @ [m]\<rparr>]\<rparr>, Ok ())"
  using assms by (simp add: bc_Publish_def mp_ops_def mp_Publish_def)

lemma rpc_publish_loop_queue:
  assumes "\<And>n. ord n = [k]"
  shows "bc_publishers p = [k \<mapsto> d] \<Longrightarrow> length (mp_queue d) + length ms \<le> push_cap \<Longrightarrow>
    \<exists>p'. rpc_publish_loop (mp_ops B) ord n ms p = (p', True, Ok ())
      \<and> bc_publishers p' = [k \<mapsto> d\<lparr>mp_queue := mp_queue d @ filter (\<lambda>m. ms_topic m \<noteq> []) ms\<rparr>]"
proof (induction ms arbitrary: n p d)
  case (Cons m ms)
  show ?case
  proof (cases "ms_topic m = []")
    case False
    let ?d = "d\<lparr>mp_queue := mp_queue d @ [m]\<rparr>"
    have "bc_Publish (mp_ops B) (ord n) m p = (p\<lparr>bc_publishers := [k \<mapsto> ?d]\<rparr>, Ok ())"
      unfolding assms using Cons.prems by (intro bc_Publish_one) auto
    with Cons.IH [of "p\<lparr>bc_publishers := [k \<mapsto> ?d]\<rparr>" ?d "Suc n"] Cons.prems(2) False show ?thesis by simp
  qed (use Cons in simp)
qed simp

section \<open>An instance of the storage\<close>

definition fun_bst :: "(string \<Rightarrow> string set) bst_api" where
  "fun_bst = \<lparr>bst_new = (\<lambda>_. {}), bst_insert = (\<lambda>c t b. b(t := insert c (b t))),
     bst_remove = (\<lambda>c t b. b(t := b t - {c})), bst_get = (\<lambda>t b. b t), bst_contains = (\<lambda>t b. b t \<noteq> {})\<rparr>"

lemma fun_bst_laws: "bst_laws fun_bst"
  by (simp add: bst_laws_def fun_bst_def)

end
