(* ===== verification/Websockets.thy ===== *)
theory Websockets
  imports Pubsub Http_Handler
begin

text \<open>
  The websockets middleware (\<open>http/middleware/websockets\<close>): origin check, access validation, the
  connection, the executor of a connection with its command loop, the delivery workers, and the plugin
  that composes them, with its lock.

  The websocket framing (\<open>gobwas/ws\<close>), JSON and the PHP workers are not part of the repository: a frame
  as it was read is a \<open>frame\<close>, the rest are the fields of \<open>ws_env\<close>.
\<close>

section \<open>Configuration and origins\<close>

record ws_config =
  wc_path :: string
  wc_origin :: string
  wc_broker :: string
  wc_worigins :: "(string \<times> string) list"
  wc_origins :: "string list"
  wc_all :: bool
  wc_pool :: "pool_config option"

definition ws_default_pool :: pool_config where
  "ws_default_pool = \<lparr>pc_debug = False, pc_workers = 2, pc_max_jobs = 0, pc_allocate = 60 * 10 ^ 9, pc_destroy = 60 * 10 ^ 9\<rparr>"

definition ws_InitDefault :: "ws_config \<Rightarrow> ws_config \<times> unit res" where
  "ws_InitDefault c0 =
     (let c1 = (if wc_path c0 = [] then c0\<lparr>wc_path := ''/ws''\<rparr> else c0) in
      if wc_broker c1 = [] then (c1, Err (Str ''broker key should be specified''))
      else
        let c2 = (if wc_pool c1 = None then c1\<lparr>wc_pool := Some ws_default_pool\<rparr> else c1);
            c3 = (if wc_origin c2 = [] then c2\<lparr>wc_origin := ''*''\<rparr> else c2);
            origin = to_lower (wc_origin c3) in
        if origin = ''*'' then (c3\<lparr>wc_all := True\<rparr>, Ok ())
        else case index_byte origin CHR ''*'' of
               Some i \<Rightarrow> (c3\<lparr>wc_worigins := wc_worigins c3 @ [(take i origin, drop (Suc i) origin)]\<rparr>, Ok ())
             | None \<Rightarrow> (c3\<lparr>wc_origins := wc_origins c3 @ [origin]\<rparr>, Ok ()))"

definition wildcard_match :: "string \<times> string \<Rightarrow> string \<Rightarrow> bool" where
  "wildcard_match w s \<longleftrightarrow>
     length (fst w) + length (snd w) \<le> length s \<and> has_prefix s (fst w) \<and> has_suffix s (snd w)"

definition isOriginAllowed :: "string \<Rightarrow> ws_config \<Rightarrow> bool" where
  "isOriginAllowed origin0 cfg \<longleftrightarrow>
     wc_all cfg \<or>
     (let origin = to_lower (to_lower origin0) in
      origin \<in> set (wc_origins cfg) \<or> list_ex (\<lambda>w. wildcard_match w origin) (wc_worigins cfg))"

section \<open>The connection\<close>

datatype opcode = OpContinuation | OpText | OpBinary | OpClose | OpPing | OpPong

text \<open>
  What the peer sends: the end of the stream or an error in place of a header, a frame whose payload
  ends early, or a whole frame with its mask.
\<close>

datatype frame =
    HeaderEof
  | HeaderErr error
  | ShortFrame opcode error
  | Frame opcode "bytes option" bytes

text \<open>\<open>cn_fail\<close> is the result of writing to the socket.\<close>

record connection =
  cn_sent :: "bytes list"
  cn_fail :: "unit res"

record wsmsg =
  wm_command :: string
  wm_topics :: "string list"

record access =
  av_header :: "string \<rightharpoonup> string list"
  av_status :: int
  av_body :: bytes

record ws_env =
  wv_cipher :: "bytes \<Rightarrow> bytes \<Rightarrow> bytes"
  wv_decode :: "bytes \<Rightarrow> wsmsg res"
  wv_response :: "string \<Rightarrow> string list \<Rightarrow> bytes res"
  wv_packet :: "string \<Rightarrow> bytes \<Rightarrow> bytes res"
  wv_request :: "psr_request \<Rightarrow> bytes res"
  wv_exec :: "payload \<Rightarrow> payload res"
  wv_access :: "bytes \<Rightarrow> access \<Rightarrow> access res"

text \<open>A panic of the socket is recovered: the function then returns nil.\<close>

definition conn_Write :: "bytes \<Rightarrow> connection \<Rightarrow> connection \<times> unit res" where
  "conn_Write d c =
     (case cn_fail c of
        Ok _ \<Rightarrow> (c\<lparr>cn_sent := cn_sent c @ [d]\<rparr>, Ok ())
      | Err e \<Rightarrow> (c, Err (EOp ''websocket_write'' e))
      | Panic \<Rightarrow> (c, Ok ())
      | Block \<Rightarrow> (c, Block))"

definition conn_Read :: "ws_env \<Rightarrow> frame \<Rightarrow> (bytes \<times> opcode) res" where
  "conn_Read E f =
     (case f of
        HeaderEof \<Rightarrow> Ok ([], OpClose)
      | HeaderErr e \<Rightarrow> Err (EOp ''websocket_read'' e)
      | ShortFrame oc e \<Rightarrow> if oc = OpClose then Ok ([], OpClose) else Err (EOp ''websocket_read'' e)
      | Frame oc mk d \<Rightarrow>
          if oc = OpClose then Ok ([], OpClose)
          else Ok (case mk of None \<Rightarrow> d | Some k \<Rightarrow> wv_cipher E d k, oc))"

definition conn_Close :: "unit res \<Rightarrow> unit res" where
  "conn_Close r = wrap ''websocket_close'' r"

section \<open>Access validation\<close>

definition show_int :: "int \<Rightarrow> string" where
  "show_int n = (if n < 0 then CHR ''-'' # show_nat (nat (- n)) else show_nat (nat n))"

text \<open>
  The validators put an attribute on the request while they encode it; the request is returned as it is
  left.  The boolean value of \<open>ws:joinServer\<close> is written \<open>true\<close>.
\<close>

definition attributes_Init :: "http_request \<Rightarrow> http_request" where
  "attributes_Init r = (if ht_attributes r = None then r\<lparr>ht_attributes := Some Map.empty\<rparr> else r)"

definition attributes_Set :: "string \<Rightarrow> string \<Rightarrow> http_request \<Rightarrow> http_request \<times> unit res" where
  "attributes_Set k v r =
     (case ht_attributes r of
        None \<Rightarrow> (r, Err (Str ''unable to find `psr:attributes` context key''))
      | Some a \<Rightarrow> (r\<lparr>ht_attributes := Some (a(k \<mapsto> v))\<rparr>, Ok ()))"

definition attributes_del :: "string \<Rightarrow> http_request \<Rightarrow> http_request" where
  "attributes_del k r = r\<lparr>ht_attributes := map_option (\<lambda>a. a(k := None)) (ht_attributes r)\<rparr>"

definition access_validator :: "string \<Rightarrow> ws_env \<Rightarrow> string \<Rightarrow> string \<Rightarrow> http_request \<Rightarrow> http_request \<times> bytes res" where
  "access_validator op E k v r0 =
     (case attributes_Set k v r0 of
        (r, Ok _) \<Rightarrow> (attributes_del k r, wrap op (wv_request E (fill_request r zero_request)))
      | (r, Err e) \<Rightarrow> (r, Err (EOp op e))
      | (r, Panic) \<Rightarrow> (r, Panic)
      | (r, Block) \<Rightarrow> (r, Block))"

definition ServerAccessValidator :: "ws_env \<Rightarrow> http_request \<Rightarrow> http_request \<times> bytes res" where
  "ServerAccessValidator E r = access_validator ''server_access_validator'' E ''ws:joinServer'' ''true'' r"

definition TopicsAccessValidator :: "ws_env \<Rightarrow> string list \<Rightarrow> http_request \<Rightarrow> http_request \<times> bytes res" where
  "TopicsAccessValidator E topics r =
     access_validator ''topic_access_validator'' E ''ws:joinTopics'' (join_byte CHR '','' topics) r"

definition ws_exec :: "ws_env \<Rightarrow> nat \<Rightarrow> bytes \<Rightarrow> payload list \<Rightarrow> payload list \<times> access res" where
  "ws_exec E i ctx plds =
     (let (pd0, rest) = pool_get zero_payload i plds;
          pd = pd0\<lparr>pld_context := ctx\<rparr> in
      (pool_put (reset_payload pd) rest,
       case wv_exec E pd of
         Ok rsp \<Rightarrow> wrap ''exec'' (wv_access E (pld_context rsp) \<lparr>av_header = Map.empty, av_status = 0, av_body = pld_body rsp\<rparr>)
       | Err e \<Rightarrow> Err (EOp ''exec'' e)
       | Panic \<Rightarrow> Panic
       | Block \<Rightarrow> Block))"

text \<open>
  A fresh attribute bag belongs to the copy of the request that \<open>Init\<close> returns, so the caller's request
  changes only when it already had one.  A result with an error carries no value here: the callers only
  log it.
\<close>

definition defaultAccessValidator ::
  "ws_env \<Rightarrow> nat \<Rightarrow> string list \<Rightarrow> http_request \<Rightarrow> payload list \<Rightarrow> http_request \<times> payload list \<times> access res"
where
  "defaultAccessValidator E i topics r plds =
     (let op = ''access_validator'';
          (r1, ctx) = (if topics = [] then ServerAccessValidator E (attributes_Init r)
                       else TopicsAccessValidator E topics (attributes_Init r));
          r' = (if ht_attributes r = None then r else r1) in
      case ctx of
        Ok c \<Rightarrow>
          (let (plds', val) = ws_exec E i c plds in
           (r', plds',
            case val of
              Ok v \<Rightarrow> if topics = [] \<or> av_status v = 200 then Ok v
                       else Err (EOp op (Str (''access forbidden, code: '' @ show_int (av_status v))))
            | Err e \<Rightarrow> if topics = [] then Err e else Err (EOp op (Str []))
            | Panic \<Rightarrow> Panic
            | Block \<Rightarrow> Block))
      | Err e \<Rightarrow> (r', plds, Err (EOp op e))
      | Panic \<Rightarrow> (r', plds, Panic)
      | Block \<Rightarrow> (r', plds, Block))"

section \<open>The executor of a connection\<close>

record executor =
  ex_id :: string
  ex_topics :: "string set"
  ex_req :: http_request

definition NewExecutor :: "string \<Rightarrow> http_request \<Rightarrow> executor" where
  "NewExecutor c r = \<lparr>ex_id = c, ex_topics = {}, ex_req = r\<rparr>"

text \<open>What the methods of one executor share: the driver, the connection, and the payload pool.\<close>

record 's session =
  ss_sub :: 's
  ss_exec :: executor
  ss_conn :: connection
  ss_plds :: "payload list"

definition exec_Set :: "'s pubsub_ops \<Rightarrow> string list \<Rightarrow> 's session \<Rightarrow> 's session \<times> unit res" where
  "exec_Set ops ts S =
     (let c = ex_id (ss_exec S) in
      case ps_subscribe ops c ts (ss_sub S) of
        (s1, Ok _) \<Rightarrow> (S\<lparr>ss_sub := s1, ss_exec := (ss_exec S)\<lparr>ex_topics := ex_topics (ss_exec S) \<union> set ts\<rparr>\<rparr>, Ok ())
      | (s1, Err e) \<Rightarrow> (S\<lparr>ss_sub := fst (ps_unsubscribe ops c ts s1)\<rparr>, Err e)
      | (s1, r) \<Rightarrow> (S\<lparr>ss_sub := s1\<rparr>, r))"

definition exec_Leave :: "'s pubsub_ops \<Rightarrow> string list \<Rightarrow> 's session \<Rightarrow> 's session \<times> unit res" where
  "exec_Leave ops ts S =
     (case ps_unsubscribe ops (ex_id (ss_exec S)) ts (ss_sub S) of
        (s1, Ok _) \<Rightarrow> (S\<lparr>ss_sub := s1, ss_exec := (ss_exec S)\<lparr>ex_topics := ex_topics (ss_exec S) - set ts\<rparr>\<rparr>, Ok ())
      | (s1, r) \<Rightarrow> (S\<lparr>ss_sub := s1\<rparr>, r))"

text \<open>\<open>ts\<close> is the order of the loop over the topics.\<close>

definition exec_CleanUp :: "'s pubsub_ops \<Rightarrow> string list \<Rightarrow> executor \<Rightarrow> 's \<Rightarrow> executor \<times> 's" where
  "exec_CleanUp ops ts e s = (e\<lparr>ex_topics := {}\<rparr>, fold (\<lambda>t s. fst (ps_unsubscribe ops (ex_id e) [t] s)) ts s)"

text \<open>
  An iteration of the command loop ends with \<open>None\<close>, to go on, or with the result of the loop.
  \<open>exec_reply\<close> encodes and writes a reply; \<open>fm\<close> and \<open>fw\<close> give the error to wrap when the encoding or
  the write fails (for a granted join the source wraps the nil error of the validator, not the one of
  the encoder).
\<close>

definition exec_reply :: "ws_env \<Rightarrow> string \<Rightarrow> string list \<Rightarrow> (error \<Rightarrow> error) \<Rightarrow> (error \<Rightarrow> error) \<Rightarrow> 's session \<Rightarrow> 's session \<times> unit res" where
  "exec_reply E topic ts fm fw S =
     (let op = ''executor_command_loop'' in
      case wv_response E topic ts of
        Ok packet \<Rightarrow>
          (let (c, r) = conn_Write packet (ss_conn S) in
           (S\<lparr>ss_conn := c\<rparr>, case r of Err e \<Rightarrow> Err (EOp op (fw e)) | r \<Rightarrow> r))
      | Err e \<Rightarrow> (S, Err (EOp op (fm e)))
      | Panic \<Rightarrow> (S, Panic)
      | Block \<Rightarrow> (S, Block))"

text \<open>The value after an operation of the loop: nil goes on, anything else ends the loop.\<close>

definition loop_on :: "'s session \<times> unit res \<Rightarrow> 's session \<times> unit res option" where
  "loop_on x = (fst x, if snd x = Ok () then None else Some (wrap ''executor_command_loop'' (snd x)))"

definition exec_join :: "ws_env \<Rightarrow> 's pubsub_ops \<Rightarrow> nat \<Rightarrow> string list \<Rightarrow> 's session \<Rightarrow> 's session \<times> unit res option" where
  "exec_join E ops i ts S0 =
     (let (r, plds, val) = defaultAccessValidator E i ts (ex_req (ss_exec S0)) (ss_plds S0);
          S = S0\<lparr>ss_plds := plds, ss_exec := (ss_exec S0)\<lparr>ex_req := r\<rparr>\<rparr> in
      case val of
        Ok v \<Rightarrow>
          (case exec_reply E ''@join'' ts (\<lambda>_. Str []) id S of
             (S1, Ok _) \<Rightarrow> loop_on (exec_Set ops ts S1)
           | (S1, x) \<Rightarrow> (S1, Some x))
      | Err e \<Rightarrow>
          (case exec_reply E ''#join'' ts (\<lambda>_. Str []) (\<lambda>_. Str []) S of
             (S1, Ok _) \<Rightarrow> (S1, None)
           | (S1, x) \<Rightarrow> (S1, Some x))
      | Panic \<Rightarrow> (S, Some Panic)
      | Block \<Rightarrow> (S, Some Block))"

definition exec_leave :: "ws_env \<Rightarrow> 's pubsub_ops \<Rightarrow> string list \<Rightarrow> 's session \<Rightarrow> 's session \<times> unit res option" where
  "exec_leave E ops ts S =
     (case exec_reply E ''@leave'' ts id id S of
        (S1, Ok _) \<Rightarrow> loop_on (exec_Leave ops ts S1)
      | (S1, x) \<Rightarrow> (S1, Some x))"

definition exec_command :: "ws_env \<Rightarrow> 's pubsub_ops \<Rightarrow> nat \<Rightarrow> frame \<Rightarrow> 's session \<Rightarrow> 's session \<times> unit res option" where
  "exec_command E ops i f S =
     (case conn_Read E f of
        Ok (data, oc) \<Rightarrow>
          if oc = OpClose then (S, Some (Ok ()))
          else (case wv_decode E data of
             Ok m \<Rightarrow>
               if wm_command m = ''join'' then exec_join E ops i (wm_topics m) S
               else if wm_command m = ''leave'' then exec_leave E ops (wm_topics m) S
               else (S, None)
           | Err e \<Rightarrow> (S, None)
           | Panic \<Rightarrow> (S, Some Panic)
           | Block \<Rightarrow> (S, Some Block))
      | Err e \<Rightarrow> (S, Some (Err (EOp ''executor_command_loop'' e)))
      | Panic \<Rightarrow> (S, Some Panic)
      | Block \<Rightarrow> (S, Some Block))"

text \<open>The loop on the frames the peer has sent; after the last of them it is waiting (\<open>None\<close>).\<close>

fun StartCommandLoop :: "ws_env \<Rightarrow> 's pubsub_ops \<Rightarrow> (nat \<times> frame) list \<Rightarrow> 's session \<Rightarrow> 's session \<times> unit res option" where
  "StartCommandLoop E ops [] S = (S, None)"
| "StartCommandLoop E ops ((i, f) # fs) S =
     (case exec_command E ops i f S of
        (S1, None) \<Rightarrow> StartCommandLoop E ops fs S1
      | (S1, Some r) \<Rightarrow> (S1, Some r))"

section \<open>The delivery workers\<close>

text \<open>
  One message of a worker.  The loop ranges over \<open>res\<close>, here in the order \<open>cs\<close>; \<open>put\<close> empties that map,
  and an entry removed before it is reached is not produced, so that the loop ends after a \<open>put\<close>.
\<close>

fun wp_send :: "ws_env \<Rightarrow> message \<Rightarrow> string list \<Rightarrow> (string \<rightharpoonup> connection) \<Rightarrow> (string \<rightharpoonup> connection)" where
  "wp_send E m [] conns = conns"
| "wp_send E m (c # cs) conns =
     (case conns c of
        None \<Rightarrow> conns
      | Some cn \<Rightarrow>
          (case wv_packet E (ms_topic m) (ms_payload m) of
             Ok d \<Rightarrow>
               (let (cn', r) = conn_Write d cn; conns' = conns(c \<mapsto> cn') in
                if r = Ok () then wp_send E m cs conns' else conns')
           | _ \<Rightarrow> conns))"

definition wp_do :: "ws_env \<Rightarrow> string list \<Rightarrow> message option \<Rightarrow> (string \<rightharpoonup> connection) \<Rightarrow> (string \<rightharpoonup> connection)" where
  "wp_do E cs msg conns =
     (case msg of
        None \<Rightarrow> conns
      | Some m \<Rightarrow> if ms_topic m = [] then conns else wp_send E m cs conns)"

section \<open>The plugin\<close>

text \<open>
  \<open>wst_sub\<close> is the driver that \<open>GetDriver\<close> returned, \<open>wst_execs\<close> the executors whose command loop is
  running, \<open>wst_stuck\<close> says that a read lock is held which no goroutine will give back (the locks of a
  request whose worker panics are not followed).
\<close>

record 's ws_state =
  wst_sub :: 's
  wst_conns :: "string \<rightharpoonup> connection"
  wst_execs :: "string \<rightharpoonup> executor"
  wst_plds :: "payload list"
  wst_stuck :: bool

definition ws_session :: "string \<Rightarrow> executor \<Rightarrow> connection \<Rightarrow> 's ws_state \<Rightarrow> 's session" where
  "ws_session c e cn S = \<lparr>ss_sub = wst_sub S, ss_exec = e, ss_conn = cn, ss_plds = wst_plds S\<rparr>"

definition ws_store :: "string \<Rightarrow> 's session \<Rightarrow> 's ws_state \<Rightarrow> 's ws_state" where
  "ws_store c ss S = S\<lparr>wst_sub := ss_sub ss, wst_plds := ss_plds ss,
     wst_conns := (wst_conns S)(c \<mapsto> ss_conn ss), wst_execs := (wst_execs S)(c \<mapsto> ss_exec ss)\<rparr>"

definition ws_connect :: "string \<Rightarrow> http_request \<Rightarrow> connection \<Rightarrow> 's ws_state \<Rightarrow> 's ws_state" where
  "ws_connect c r cn S =
     S\<lparr>wst_conns := (wst_conns S)(c \<mapsto> cn), wst_execs := (wst_execs S)(c \<mapsto> NewExecutor c r)\<rparr>"

text \<open>The end of a session: \<open>ts\<close> is the order of the loop of \<open>CleanUp\<close>.\<close>

definition ws_disconnect :: "'s pubsub_ops \<Rightarrow> string list \<Rightarrow> string \<Rightarrow> executor \<Rightarrow> 's ws_state \<Rightarrow> 's ws_state" where
  "ws_disconnect ops ts c e S =
     S\<lparr>wst_conns := (wst_conns S)(c := None), wst_execs := (wst_execs S)(c := None),
       wst_sub := snd (exec_CleanUp ops ts e (wst_sub S))\<rparr>"

definition ws_drop :: "string \<Rightarrow> 's ws_state \<Rightarrow> 's ws_state" where
  "ws_drop c S = S\<lparr>wst_execs := (wst_execs S)(c := None)\<rparr>"

datatype ws_out = Passed | Refused | Upgrade_failed | Session "unit res option"

text \<open>
  One request of the middleware: \<open>path\<close> is the path of its URL, \<open>ks\<close> the order of the loop over the
  headers of the validator's answer, \<open>up\<close> the upgraded connection, \<open>c\<close> its fresh identifier, \<open>fs\<close> the
  frames the peer sends, \<open>tord\<close> the order in which \<open>CleanUp\<close> visits a set of topics.  A command loop that
  still waits when the frames are exhausted leaves the session running.
\<close>

definition ws_finish ::
  "'s pubsub_ops \<Rightarrow> (string set \<Rightarrow> string list) \<Rightarrow> string \<Rightarrow> 's session \<Rightarrow> unit res option \<Rightarrow> 's ws_state \<Rightarrow> 's ws_state"
where
  "ws_finish ops tord c ss res S =
     (if res = None then S
      else if res = Some (Ok ()) then ws_disconnect ops (tord (ex_topics (ss_exec ss))) c (ss_exec ss) S
      else ws_drop c S)"

definition ws_run ::
  "ws_env \<Rightarrow> 's pubsub_ops \<Rightarrow> (string set \<Rightarrow> string list) \<Rightarrow> string \<Rightarrow> (nat \<times> frame) list \<Rightarrow> http_request \<Rightarrow>
   connection \<Rightarrow> 's ws_state \<Rightarrow> 's ws_state \<times> unit res option"
where
  "ws_run E ops tord c fs r cn S =
     (let S1 = ws_connect c r cn S;
          (ss, res) = StartCommandLoop E ops fs (ws_session c (NewExecutor c r) cn S1) in
      (ws_finish ops tord c ss res (ws_store c ss S1), res))"

definition ws_Middleware ::
  "ws_env \<Rightarrow> 's pubsub_ops \<Rightarrow> (string set \<Rightarrow> string list) \<Rightarrow> ws_config \<Rightarrow> string \<Rightarrow> nat \<Rightarrow> string list \<Rightarrow> string \<Rightarrow>
   (nat \<times> frame) list \<Rightarrow> connection res \<Rightarrow> http_request \<Rightarrow> writer \<Rightarrow> 's ws_state \<Rightarrow> 's ws_state \<times> writer \<times> ws_out"
where
  "ws_Middleware E ops tord cfg path i ks c fs up r w S =
     (if path \<noteq> wc_path cfg then (S, w, Passed)
      else if \<not> isOriginAllowed (header_get (ht_header r) ''Origin'') cfg
      then (S\<lparr>wst_stuck := True\<rparr>, fst (WriteHeader 405 w), Refused)
      else
        let (r1, plds, val) = defaultAccessValidator E i [] r (wst_plds S); S1 = S\<lparr>wst_plds := plds\<rparr> in
        case val of
          Ok v \<Rightarrow>
            if av_status v \<noteq> 200
            then
              let w1 = w\<lparr>wr_header := write_headers ks (av_header v) (wr_header w)\<rparr>;
                  w2 = fst (WriteHeader (av_status v) w1) in
              (S1, w2\<lparr>wr_body := wr_body w2 @ av_body v\<rparr>, Refused)
            else (case up of
                Ok cn \<Rightarrow> (let (S2, res) = ws_run E ops tord c fs r1 cn S1 in (S2, w, Session res))
              | _ \<Rightarrow> (S1, w, Upgrade_failed))
        | Err e \<Rightarrow> (S1, fst (WriteHeader 400 w), Refused)
        | Panic \<Rightarrow> (S1\<lparr>wst_stuck := True\<rparr>, w, Session (Some Panic))
        | Block \<Rightarrow> (S1, w, Session (Some Block)))"

text \<open>\<open>Reset\<close> takes the write lock; \<open>r\<close> is the result of resetting the worker pool.\<close>

definition ws_Reset :: "unit res \<Rightarrow> 's ws_state \<Rightarrow> unit res" where
  "ws_Reset r S = (if wst_stuck S then Block else wrap ''ws_plugin_reset'' r)"

text \<open>
  The reader goroutine of \<open>Serve\<close> with the worker that takes its message: \<open>cord t\<close> is the order of the
  loop over the connections of the topic \<open>t\<close>.
\<close>

definition ws_deliver :: "ws_env \<Rightarrow> 's pubsub_ops \<Rightarrow> (string \<Rightarrow> string list) \<Rightarrow> 's ws_state \<Rightarrow> 's ws_state" where
  "ws_deliver E ops cord S =
     (let (s', r) = ps_next ops False (wst_sub S); S1 = S\<lparr>wst_sub := s'\<rparr> in
      case r of
        Ok m \<Rightarrow> S1\<lparr>wst_conns := wp_do E (case m of None \<Rightarrow> [] | Some x \<Rightarrow> cord (ms_topic x)) m (wst_conns S1)\<rparr>
      | _ \<Rightarrow> S1)"

primrec ws_pump :: "ws_env \<Rightarrow> 's pubsub_ops \<Rightarrow> (nat \<Rightarrow> string \<Rightarrow> string list) \<Rightarrow> nat \<Rightarrow> 's ws_state \<Rightarrow> 's ws_state" where
  "ws_pump E ops cord 0 S = S"
| "ws_pump E ops cord (Suc n) S = ws_pump E ops (\<lambda>k. cord (Suc k)) n (ws_deliver E ops (cord 0) S)"

section \<open>Interleaved sessions\<close>

text \<open>
  The sessions run beside each other and beside the publishers: a step is a new connection, an
  iteration of one command loop, a publication, a delivery, or the part of a request before the upgrade.
\<close>

inductive ws_step :: "ws_env \<Rightarrow> 's pubsub_ops \<Rightarrow> 's ws_state \<Rightarrow> 's ws_state \<Rightarrow> bool"
  for E :: ws_env and ops :: "'s pubsub_ops"
where
  connect: "wst_conns S c = None \<Longrightarrow> ws_step E ops S (ws_connect c r cn S)"
| command: "wst_execs S c = Some e \<Longrightarrow> wst_conns S c = Some cn \<Longrightarrow>
    exec_command E ops i f (ws_session c e cn S) = (ss, None) \<Longrightarrow> ws_step E ops S (ws_store c ss S)"
| failed: "wst_execs S c = Some e \<Longrightarrow> wst_conns S c = Some cn \<Longrightarrow>
    exec_command E ops i f (ws_session c e cn S) = (ss, Some r) \<Longrightarrow> r \<noteq> Ok () \<Longrightarrow>
    ws_step E ops S (ws_drop c (ws_store c ss S))"
| closed: "wst_execs S c = Some e \<Longrightarrow> wst_conns S c = Some cn \<Longrightarrow>
    exec_command E ops i f (ws_session c e cn S) = (ss, Some (Ok ())) \<Longrightarrow> set ts = ex_topics (ss_exec ss) \<Longrightarrow>
    ws_step E ops S (ws_disconnect ops ts c (ss_exec ss) (ws_store c ss S))"
| publish: "ps_publish ops m (wst_sub S) = (s', r) \<Longrightarrow> ws_step E ops S (S\<lparr>wst_sub := s'\<rparr>)"
| deliver: "ws_step E ops S (ws_deliver E ops cord S)"
| validate: "ws_step E ops S (S\<lparr>wst_plds := plds\<rparr>)"
| refuse: "ws_step E ops S (S\<lparr>wst_stuck := True\<rparr>)"

section \<open>Subscriptions follow the sessions\<close>

text \<open>
  \<open>in_sync\<close>: the topics an executor remembers are the ones its connection is subscribed to.
  \<open>same_others\<close>: no other connection is affected.
\<close>

definition in_sync :: "('s \<Rightarrow> string \<Rightarrow> string set) \<Rightarrow> executor \<Rightarrow> 's \<Rightarrow> bool" where
  "in_sync subs e s \<longleftrightarrow> (\<forall>t. ex_id e \<in> subs s t \<longleftrightarrow> t \<in> ex_topics e)"

definition same_others :: "('s \<Rightarrow> string \<Rightarrow> string set) \<Rightarrow> string \<Rightarrow> 's \<Rightarrow> 's \<Rightarrow> bool" where
  "same_others subs c s s' \<longleftrightarrow> (\<forall>t c'. c' \<noteq> c \<longrightarrow> (c' \<in> subs s' t) = (c' \<in> subs s t))"

definition session_keeps ::
  "('s \<Rightarrow> bool) \<Rightarrow> ('s \<Rightarrow> string \<Rightarrow> string set) \<Rightarrow> 's session \<Rightarrow> 's session \<Rightarrow> bool \<Rightarrow> bool"
where
  "session_keeps ok subs S S' good \<longleftrightarrow>
     ok (ss_sub S') \<and> ex_id (ss_exec S') = ex_id (ss_exec S)
     \<and> same_others subs (ex_id (ss_exec S)) (ss_sub S) (ss_sub S')
     \<and> (in_sync subs (ss_exec S) (ss_sub S) \<longrightarrow> good \<longrightarrow> in_sync subs (ss_exec S') (ss_sub S'))"

lemma same_others_refl [simp]: "same_others subs c s s"
  by (simp add: same_others_def)

lemma same_others_trans: "same_others subs c s s' \<Longrightarrow> same_others subs c s' s'' \<Longrightarrow> same_others subs c s s''"
  by (simp add: same_others_def)

lemma exec_reply_keeps:
  "exec_reply E topic ts fm fw S = (S', r) \<Longrightarrow> ss_sub S' = ss_sub S \<and> ss_exec S' = ss_exec S"
  by (auto simp: exec_reply_def Let_def split: res.splits prod.splits)

lemma loop_on_not_ok: "loop_on x \<noteq> (S', Some (Ok ()))"
  by (cases "snd x") (auto simp: loop_on_def)

lemma join_not_ok: "exec_join E ops n ts S \<noteq> (S', Some (Ok ()))"
  by (auto simp: exec_join_def Let_def loop_on_not_ok split: res.splits prod.splits)

lemma leave_not_ok: "exec_leave E ops ts S \<noteq> (S', Some (Ok ()))"
  by (auto simp: exec_leave_def Let_def loop_on_not_ok split: res.splits prod.splits)

context subscriptions
begin

lemma unsubscribe_others:
  "inv s \<Longrightarrow> inv (fst (ps_unsubscribe ops c ts s)) \<and> same_others subs c s (fst (ps_unsubscribe ops c ts s))"
proof -
  assume i: "inv s"
  obtain s1 where u: "ps_unsubscribe ops c ts s = (s1, Ok ())" using unsubscribe_total [OF i] by blast
  from unsubscribe_subs [OF i u] u show ?thesis by (auto simp: same_others_def split: if_splits)
qed

lemma Set_others:
  assumes "inv (ss_sub S)" "exec_Set ops ts S = (S', r)"
  shows "inv (ss_sub S') \<and> ex_id (ss_exec S') = ex_id (ss_exec S) \<and> same_others subs (ex_id (ss_exec S)) (ss_sub S) (ss_sub S')"
proof -
  obtain s1 r1 where e: "ps_subscribe ops (ex_id (ss_exec S)) ts (ss_sub S) = (s1, r1)" by fastforce
  note o = subscribe_others [OF assms(1) e]
  have "same_others subs (ex_id (ss_exec S)) (ss_sub S) s1" using o by (simp add: same_others_def)
  with o unsubscribe_others [of s1 "ex_id (ss_exec S)" ts] assms(2) e same_others_trans show ?thesis
    by (cases r1) (auto simp: exec_Set_def Let_def)
qed

lemma Set_sync:
  assumes "inv (ss_sub S)" "in_sync subs (ss_exec S) (ss_sub S)" "exec_Set ops ts S = (S', Ok ())"
  shows "in_sync subs (ss_exec S') (ss_sub S')"
proof -
  obtain s1 r1 where e: "ps_subscribe ops (ex_id (ss_exec S)) ts (ss_sub S) = (s1, r1)" by fastforce
  with assms(3) have r: "r1 = Ok ()" and S': "S' = S\<lparr>ss_sub := s1, ss_exec := (ss_exec S)\<lparr>ex_topics := ex_topics (ss_exec S) \<union> set ts\<rparr>\<rparr>"
    by (cases r1; simp add: exec_Set_def Let_def)+
  from subscribe_subs [OF assms(1) e [unfolded r]] assms(2) show ?thesis
    by (auto simp: S' in_sync_def)
qed

lemma Leave_keeps:
  assumes "inv (ss_sub S)" "exec_Leave ops ts S = (S', r)"
  shows "r = Ok () \<and> inv (ss_sub S') \<and> ex_id (ss_exec S') = ex_id (ss_exec S)
    \<and> same_others subs (ex_id (ss_exec S)) (ss_sub S) (ss_sub S')
    \<and> (in_sync subs (ss_exec S) (ss_sub S) \<longrightarrow> in_sync subs (ss_exec S') (ss_sub S'))"
proof -
  obtain s1 where e: "ps_unsubscribe ops (ex_id (ss_exec S)) ts (ss_sub S) = (s1, Ok ())"
    using unsubscribe_total [OF assms(1)] by blast
  from unsubscribe_subs [OF assms(1) e] assms(2) e show ?thesis
    by (auto simp: exec_Leave_def same_others_def in_sync_def split: if_splits)
qed

lemma join_keeps:
  assumes i: "inv (ss_sub S)" and j: "exec_join E ops n ts S = (S', out)"
  shows "session_keeps inv subs S S' (out = None)"
proof -
  obtain r plds val where v: "defaultAccessValidator E n ts (ex_req (ss_exec S)) (ss_plds S) = (r, plds, val)"
    by (metis prod_cases3)
  let ?S = "S\<lparr>ss_plds := plds, ss_exec := (ss_exec S)\<lparr>ex_req := r\<rparr>\<rparr>"
  have same: "session_keeps inv subs S S1 g" if "ss_sub S1 = ss_sub S" "ss_exec S1 = (ss_exec S)\<lparr>ex_req := r\<rparr>" for S1 g
    using i that by (simp add: session_keeps_def in_sync_def)
  show ?thesis
  proof (cases val)
    case (Ok a)
    obtain S1 x where e: "exec_reply E ''@join'' ts (\<lambda>_. Str []) id ?S = (S1, x)" by fastforce
    obtain S2 y where s: "exec_Set ops ts S1 = (S2, y)" by fastforce
    from exec_reply_keeps [OF e] have k: "ss_sub S1 = ss_sub S" "ss_exec S1 = (ss_exec S)\<lparr>ex_req := r\<rparr>" by auto
    show ?thesis
    proof (cases "x = Ok ()")
      case True
      with j v Ok e s have "S' = S2" "out = None \<longleftrightarrow> y = Ok ()" by (auto simp: exec_join_def loop_on_def split: if_splits)
      with Set_others [OF _ s] Set_sync [of S1 ts S2] s i show ?thesis
        by (auto simp: session_keeps_def k in_sync_def)
    next
      case False
      with j v Ok e have "S' = S1" by (cases x) (auto simp: exec_join_def)
      with same [of S1] k show ?thesis by simp
    qed
  next
    case (Err a)
    obtain S1 x where e: "exec_reply E ''#join'' ts (\<lambda>_. Str []) (\<lambda>_. Str []) ?S = (S1, x)" by fastforce
    have "S' = S1" using j v Err e by (cases x) (auto simp: exec_join_def)
    with exec_reply_keeps [OF e] same [of S1] show ?thesis by simp
  qed (use j v same in \<open>auto simp: exec_join_def\<close>)
qed

lemma leave_keeps:
  assumes i: "inv (ss_sub S)" and j: "exec_leave E ops ts S = (S', out)"
  shows "session_keeps inv subs S S' (out = None)"
proof -
  obtain S1 x where e: "exec_reply E ''@leave'' ts id id S = (S1, x)" by fastforce
  obtain S2 y where s: "exec_Leave ops ts S1 = (S2, y)" by fastforce
  note k = exec_reply_keeps [OF e]
  show ?thesis
  proof (cases "x = Ok ()")
    case True
    with j e s have "S' = S2" by (simp add: exec_leave_def loop_on_def)
    with Leave_keeps [OF _ s] k i show ?thesis by (simp add: session_keeps_def)
  next
    case False
    with j e have "S' = S1" by (cases x) (auto simp: exec_leave_def)
    with k i show ?thesis by (simp add: session_keeps_def)
  qed
qed

lemma command_keeps:
  assumes i: "inv (ss_sub S)" and c: "exec_command E ops n f S = (S', out)"
  shows "session_keeps inv subs S S' (out = None \<or> out = Some (Ok ()))"
proof -
  have "exec_join E ops n ts S = (S', out) \<Longrightarrow> ?thesis" for ts
    using join_keeps [OF i, of E n ts S' out] join_not_ok [of E ops n ts S] by (simp add: session_keeps_def)
  moreover have "exec_leave E ops ts S = (S', out) \<Longrightarrow> ?thesis" for ts
    using leave_keeps [OF i, of E ts S' out] leave_not_ok [of E ops ts S] by (simp add: session_keeps_def)
  moreover have "S' = S \<Longrightarrow> ?thesis"
    using i by (simp add: session_keeps_def)
  ultimately show ?thesis
    using c by (auto simp: exec_command_def split: res.splits prod.splits if_splits)
qed

end

text \<open>
  The invariant of the plugin: a running executor remembers exactly the topics of its connection, and
  an identifier without a connection is subscribed to nothing.
\<close>

definition ws_inv :: "('s \<Rightarrow> bool) \<Rightarrow> ('s \<Rightarrow> string \<Rightarrow> string set) \<Rightarrow> 's ws_state \<Rightarrow> bool" where
  "ws_inv ok subs S \<longleftrightarrow>
     ok (wst_sub S) \<and> dom (wst_execs S) \<subseteq> dom (wst_conns S)
     \<and> (\<forall>c e. wst_execs S c = Some e \<longrightarrow> ex_id e = c \<and> in_sync subs e (wst_sub S))
     \<and> (\<forall>c. wst_conns S c = None \<longrightarrow> (\<forall>t. c \<notin> subs (wst_sub S) t))"

lemma in_sync_other:
  "same_others subs c s s' \<Longrightarrow> ex_id e \<noteq> c \<Longrightarrow> in_sync subs e s \<Longrightarrow> in_sync subs e s'"
  by (simp add: same_others_def in_sync_def)

lemma wp_send_dom: "dom (wp_send E m cs conns) = dom conns"
proof (induction cs arbitrary: conns)
  case (Cons c cs)
  show ?case by (auto simp: Cons Let_def insert_absorb domI simp del: fun_upd_apply split: option.split res.split prod.split)
qed simp

lemma wp_do_dom: "dom (wp_do E cs m conns) = dom conns"
  by (simp add: wp_do_def wp_send_dom split: option.splits)

context subscriptions
begin

lemma inv_same_subs:
  assumes "ws_inv inv subs S" "inv (wst_sub S')" "subs (wst_sub S') = subs (wst_sub S)"
    "wst_execs S' = wst_execs S" "dom (wst_conns S') = dom (wst_conns S)"
  shows "ws_inv inv subs S'"
proof -
  have "wst_conns S' c = None \<longleftrightarrow> wst_conns S c = None" for c
    using assms(5) by (metis domIff)
  moreover have "in_sync subs e (wst_sub S') = in_sync subs e (wst_sub S)" for e
    using assms(3) by (simp add: in_sync_def)
  ultimately show ?thesis using assms(1,2) unfolding ws_inv_def assms(3-5) by blast
qed

lemma store_inv:
  assumes S: "ws_inv inv subs S" "wst_execs S c = Some e" "wst_conns S c = Some cn"
    and k: "session_keeps inv subs (ws_session c e cn S) ss g"
  shows "ws_inv inv subs (ws_drop c (ws_store c ss S))"
    and "g \<Longrightarrow> ws_inv inv subs (ws_store c ss S) \<and> ex_id (ss_exec ss) = c"
proof -
  have e: "ex_id e = c" "in_sync subs e (wst_sub S)" using S by (auto simp: ws_inv_def)
  with k have k': "inv (ss_sub ss)" "ex_id (ss_exec ss) = c" "same_others subs c (wst_sub S) (ss_sub ss)"
    "g \<Longrightarrow> in_sync subs (ss_exec ss) (ss_sub ss)"
    by (simp_all add: session_keeps_def ws_session_def)
  have others: "in_sync subs e' (ss_sub ss)" if "wst_execs S c' = Some e'" "c' \<noteq> c" for c' e'
    using that S(1) in_sync_other [OF k'(3)] by (auto simp: ws_inv_def)
  have none: "c' \<notin> subs (ss_sub ss) t" if "wst_conns S c' = None" for c' t
    using that S k'(3) by (cases "c' = c") (auto simp: ws_inv_def same_others_def)
  show "ws_inv inv subs (ws_drop c (ws_store c ss S))"
    using S k'(1) others none by (auto simp: ws_inv_def ws_drop_def ws_store_def split: if_splits)
  show "g \<Longrightarrow> ws_inv inv subs (ws_store c ss S) \<and> ex_id (ss_exec ss) = c"
    using S k' others none by (auto simp: ws_inv_def ws_store_def split: if_splits)
qed

lemma CleanUp_subs:
  "inv s \<Longrightarrow> inv (snd (exec_CleanUp ops ts e s))
     \<and> subs (snd (exec_CleanUp ops ts e s)) = (\<lambda>t. if t \<in> set ts then subs s t - {ex_id e} else subs s t)"
proof (induction ts arbitrary: s)
  case (Cons t ts)
  obtain s1 where u: "ps_unsubscribe ops (ex_id e) [t] s = (s1, Ok ())"
    using unsubscribe_total [OF Cons.prems] by blast
  note s1 = unsubscribe_subs [OF Cons.prems u]
  from Cons.IH [of s1] s1 u show ?case by (auto simp: exec_CleanUp_def fun_eq_iff)
qed (simp add: exec_CleanUp_def)

lemma disconnect_inv:
  assumes S: "ws_inv inv subs S" "wst_execs S c = Some e" and ts: "set ts = ex_topics e"
  shows "ws_inv inv subs (ws_disconnect ops ts c e S)"
    and "c \<notin> subs (wst_sub (ws_disconnect ops ts c e S)) t"
proof -
  have e: "ex_id e = c" "in_sync subs e (wst_sub S)" using S by (auto simp: ws_inv_def)
  have u: "inv (wst_sub S)" using S(1) by (simp add: ws_inv_def)
  note cl = CleanUp_subs [OF u, of ts e]
  have gone: "c \<notin> subs (snd (exec_CleanUp ops ts e (wst_sub S))) t" for t
    using cl e ts by (auto simp: in_sync_def)
  then show "c \<notin> subs (wst_sub (ws_disconnect ops ts c e S)) t" by (simp add: ws_disconnect_def)
  have o: "same_others subs c (wst_sub S) (snd (exec_CleanUp ops ts e (wst_sub S)))"
    using cl e by (auto simp: same_others_def split: if_splits)
  have others: "in_sync subs e' (snd (exec_CleanUp ops ts e (wst_sub S)))" if "wst_execs S c' = Some e'" "c' \<noteq> c" for c' e'
    using that S(1) in_sync_other [OF o] by (auto simp: ws_inv_def)
  have none: "c' \<notin> subs (snd (exec_CleanUp ops ts e (wst_sub S))) t" if "wst_conns S c' = None" for c' t
    using that S o gone by (cases "c' = c") (auto simp: ws_inv_def same_others_def)
  show "ws_inv inv subs (ws_disconnect ops ts c e S)"
    using S(1) cl gone others none by (auto simp: ws_inv_def ws_disconnect_def split: if_splits)
qed

lemma deliver_inv:
  assumes "ws_inv inv subs S"
  shows "ws_inv inv subs (ws_deliver E ops cord S)"
proof -
  obtain s' r where n: "ps_next ops False (wst_sub S) = (s', r)" by fastforce
  from assms next_subs [OF _ n] have "inv s'" "subs s' = subs (wst_sub S)" by (simp_all add: ws_inv_def)
  then show ?thesis
    using assms by (elim inv_same_subs) (simp_all add: ws_deliver_def n Let_def wp_do_dom split: res.split)
qed

lemma step_inv: "ws_step E ops S S' \<Longrightarrow> ws_inv inv subs S \<Longrightarrow> ws_inv inv subs S'"
proof (induction rule: ws_step.induct)
  case (connect S c r cn)
  then show ?case by (auto simp: ws_inv_def ws_connect_def NewExecutor_def in_sync_def split: if_splits)
next
  case (command S c e cn i f ss)
  then show ?case
    using store_inv(2) [OF _ command.hyps(1,2) command_keeps [OF _ command.hyps(3)]]
    by (simp add: ws_inv_def ws_session_def)
next
  case (failed S c e cn i f ss r)
  then show ?case
    using store_inv(1) [OF _ failed.hyps(1,2) command_keeps [OF _ failed.hyps(3)]]
    by (simp add: ws_inv_def ws_session_def)
next
  case (closed S c e cn i f ss ts)
  then have "ws_inv inv subs (ws_store c ss S)"
    using store_inv(2) [OF _ closed.hyps(1,2) command_keeps [OF _ closed.hyps(3)]]
    by (simp add: ws_inv_def ws_session_def)
  then show ?case by (rule disconnect_inv(1)) (simp_all add: ws_store_def closed.hyps(4))
next
  case (publish m S s' r)
  then have "inv s' \<and> subs s' = subs (wst_sub S)" using publish_subs [OF _ publish.hyps] by (simp add: ws_inv_def)
  then show ?case using publish.prems by (elim inv_same_subs) auto
next
  case (deliver S cord)
  then show ?case by (rule deliver_inv)
qed (auto elim: inv_same_subs simp: ws_inv_def)

lemma steps_inv: "(ws_step E ops)\<^sup>*\<^sup>* S S' \<Longrightarrow> ws_inv inv subs S \<Longrightarrow> ws_inv inv subs S'"
  by (induction rule: rtranclp_induct) (auto intro: step_inv)

end

section \<open>A request is a sequence of steps\<close>

lemma finite_topics:
  assumes "exec_command E ops n f S = (S', out)" "finite (ex_topics (ss_exec S))"
  shows "finite (ex_topics (ss_exec S'))"
proof -
  have Set: "finite (ex_topics (ss_exec (fst (exec_Set ops ts S1))))" if "finite (ex_topics (ss_exec S1))" for ts S1
    using that by (auto simp: exec_Set_def Let_def split: prod.split res.split)
  have Leave: "finite (ex_topics (ss_exec (fst (exec_Leave ops ts S1))))" if "finite (ex_topics (ss_exec S1))" for ts S1
    using that by (auto simp: exec_Leave_def Let_def split: prod.split res.split)
  have reply: "finite (ex_topics (ss_exec S1))" if "exec_reply E t ts fm fw S2 = (S1, x)" "finite (ex_topics (ss_exec S2))" for t ts fm fw S1 S2 x
    using that exec_reply_keeps [OF that(1)] by simp
  have join: "finite (ex_topics (ss_exec (fst (exec_join E ops n ts S))))" for ts
    using assms(2) by (auto simp: exec_join_def loop_on_def Let_def split: prod.split res.split intro!: Set dest!: reply)
  have leave: "finite (ex_topics (ss_exec (fst (exec_leave E ops ts S))))" for ts
    using assms(2) by (auto simp: exec_leave_def loop_on_def split: prod.split res.split intro!: Leave dest!: reply)
  have "S' = fst (exec_command E ops n f S)" using assms(1) by simp
  with join leave assms(2) show ?thesis
    by (auto simp: exec_command_def split: res.split prod.split)
qed

definition topic_orders :: "(string set \<Rightarrow> string list) \<Rightarrow> bool" where
  "topic_orders tord \<longleftrightarrow> (\<forall>T. finite T \<longrightarrow> set (tord T) = T)"

lemma ws_store_simps [simp]:
  "ws_session c (ss_exec ss) (ss_conn ss) (ws_store c ss S) = ss"
  "ws_store c ss' (ws_store c ss S) = ws_store c ss' S"
  "wst_execs (ws_store c ss S) c = Some (ss_exec ss)"
  "wst_conns (ws_store c ss S) c = Some (ss_conn ss)"
  by (simp_all add: ws_session_def ws_store_def)

lemma ws_store_same:
  "wst_execs S c = Some e \<Longrightarrow> wst_conns S c = Some cn \<Longrightarrow> ws_store c (ws_session c e cn S) S = S"
  by (simp add: ws_session_def ws_store_def fun_upd_idem)

lemma loop_steps:
  assumes "topic_orders tord"
  shows "StartCommandLoop E ops fs (ws_session c e cn S) = (ss, res) \<Longrightarrow> wst_execs S c = Some e \<Longrightarrow>
    wst_conns S c = Some cn \<Longrightarrow> finite (ex_topics e) \<Longrightarrow>
    (ws_step E ops)\<^sup>*\<^sup>* S (ws_finish ops tord c ss res (ws_store c ss S))"
proof (induction fs arbitrary: e cn S)
  case Nil
  then show ?case by (auto simp: ws_finish_def ws_store_same)
next
  case (Cons x fs)
  obtain i f where x: "x = (i, f)" by fastforce
  obtain S1 out where c: "exec_command E ops i f (ws_session c e cn S) = (S1, out)" by fastforce
  have fin: "finite (ex_topics (ss_exec S1))"
    using finite_topics [OF c] Cons.prems(4) by (simp add: ws_session_def)
  show ?case
  proof (cases out)
    case None
    have s: "ws_step E ops S (ws_store c S1 S)"
      using Cons.prems c None by (auto intro: ws_step.command)
    show ?thesis
      using Cons.IH [of "ss_exec S1" "ss_conn S1" "ws_store c S1 S"] Cons.prems(1) c None x fin s
      by (auto intro: converse_rtranclp_into_rtranclp)
  next
    case (Some r)
    with Cons.prems(1) c x have r: "ss = S1" "res = Some r" by auto
    show ?thesis
    proof (cases "r = Ok ()")
      case True
      have "ws_step E ops S (ws_disconnect ops (tord (ex_topics (ss_exec ss))) c (ss_exec ss) (ws_store c ss S))"
        using Cons.prems(2,3) c Some True r fin assms by (auto intro!: ws_step.closed simp: topic_orders_def)
      then show ?thesis using True r by (auto simp: ws_finish_def)
    next
      case False
      have "ws_step E ops S (ws_drop c (ws_store c ss S))"
        using ws_step.failed [OF Cons.prems(2,3), of E ops i f ss r] c Some False r by simp
      then show ?thesis using False r by (auto simp: ws_finish_def)
    qed
  qed
qed

lemma ws_run_steps:
  assumes "topic_orders tord" "wst_conns S c = None"
  shows "(ws_step E ops)\<^sup>*\<^sup>* S (fst (ws_run E ops tord c fs r cn S))"
proof -
  let ?S = "ws_connect c r cn S"
  obtain ss res where l: "StartCommandLoop E ops fs (ws_session c (NewExecutor c r) cn ?S) = (ss, res)" by fastforce
  have "(ws_step E ops)\<^sup>*\<^sup>* ?S (ws_finish ops tord c ss res (ws_store c ss ?S))"
    by (rule loop_steps [OF assms(1) l]) (simp_all add: ws_connect_def NewExecutor_def)
  with ws_step.connect [OF assms(2), of E ops r cn] show ?thesis
    by (simp add: ws_run_def l converse_rtranclp_into_rtranclp)
qed

end
