(* ===== verification/Ws_System.thy ===== *)
theory Ws_System
  imports Websockets
begin

text \<open>
  Properties of the broadcast plugin, the memory pub/sub driver and the websockets middleware together:
  subscriptions follow the sessions under every interleaving, a published message reaches exactly the
  subscribers that the delivery loop gets to, and the lock of the plugin.
\<close>

section \<open>Origins\<close>

lemma wildcard_match_iff: "wildcard_match (p, q) s \<longleftrightarrow> (\<exists>m. s = p @ m @ q)"
proof
  assume "wildcard_match (p, q) s"
  then have l: "length p + length q \<le> length s" and p: "take (length p) s = p" and q: "drop (length s - length q) s = q"
    by (auto simp: wildcard_match_def has_prefix_def has_suffix_def)
  have "s = take (length p) s @ drop (length p) s" by simp
  also have "drop (length p) s = take (length s - length q - length p) (drop (length p) s) @ drop (length s - length q) s"
    using l by (metis (no_types, lifting) add_le_imp_le_diff append_take_drop_id drop_drop le_add_diff_inverse2)
  finally show "\<exists>m. s = p @ m @ q" using p q by metis
qed (auto simp: wildcard_match_def has_prefix_def has_suffix_def)

lemma to_lower_idem [simp]: "to_lower (to_lower s) = to_lower s"
  by (simp add: to_lower_def lower_char_def o_def)

lemma index_byte_split: "index_byte s c = Some i \<Longrightarrow> s = take i s @ c # drop (Suc i) s \<and> c \<notin> set (take i s)"
proof (induction s arbitrary: i)
  case (Cons x s)
  then show ?case by (cases i) (auto split: if_splits)
qed simp

lemma index_byte_first: "c \<notin> set p \<Longrightarrow> index_byte (p @ c # q) c = Some (length p)"
  by (induction p) auto

text \<open>
  For a configured origin with a star, an origin is allowed exactly when, in lower case, it is the
  text before the star, any text, and the text after the star; the parts may not overlap.
\<close>

theorem ws_origin_wildcard:
  assumes "to_lower (wc_origin c) = p @ CHR ''*'' # q" "CHR ''*'' \<notin> set p" "p @ q \<noteq> []"
    and "wc_broker c \<noteq> []" "wc_worigins c = []" "wc_origins c = []" "\<not> wc_all c"
  shows "snd (ws_InitDefault c) = Ok () \<and>
    (isOriginAllowed origin (fst (ws_InitDefault c)) \<longleftrightarrow> (\<exists>m. to_lower origin = p @ m @ q))"
proof -
  have ne: "wc_origin c \<noteq> []" using assms(1) by (cases p) (auto simp: to_lower_def)
  have star: "p @ CHR ''*'' # q \<noteq> ''*''" using assms(3) by (cases p) auto
  show ?thesis
    using assms ne star
    by (simp add: ws_InitDefault_def Let_def index_byte_first isOriginAllowed_def wildcard_match_iff)
qed

theorem ws_origin_wildcard_witness:
  "let c = \<lparr>wc_path = [], wc_origin = ''https://*.a.io'', wc_broker = ''b'', wc_worigins = [], wc_origins = [],
            wc_all = False, wc_pool = None\<rparr> in
   isOriginAllowed ''https://x.a.io'' (fst (ws_InitDefault c)) \<longleftrightarrow> (\<exists>m. to_lower ''https://x.a.io'' = ''https://'' @ m @ ''.a.io'')"
proof -
  let ?c = "\<lparr>wc_path = [], wc_origin = ''https://*.a.io'', wc_broker = ''b'', wc_worigins = [], wc_origins = [],
            wc_all = False, wc_pool = None\<rparr>"
  have "to_lower ''https://*.a.io'' = ''https://'' @ CHR ''*'' # ''.a.io''" by (simp add: to_lower_def lower_char_def)
  then show ?thesis
    using ws_origin_wildcard [of ?c "''https://''" "''.a.io''" "''https://x.a.io''"] unfolding Let_def by simp
qed

section \<open>Sessions\<close>

definition ws_start :: "'s \<Rightarrow> 's ws_state" where
  "ws_start s = \<lparr>wst_sub = s, wst_conns = Map.empty, wst_execs = Map.empty, wst_plds = [], wst_stuck = False\<rparr>"



section \<open>A sample session\<close>

text \<open>
  The workers grant everything, a frame carries the topic to join, JSON is the identity on what matters.
\<close>

definition sample_ws_env :: ws_env where
  "sample_ws_env = \<lparr>wv_cipher = (\<lambda>d k. d), wv_decode = (\<lambda>d. Ok \<lparr>wm_command = ''join'', wm_topics = [d]\<rparr>),
     wv_response = (\<lambda>t ts. Ok t), wv_packet = (\<lambda>t d. Ok (t @ CHR '':'' # d)), wv_request = (\<lambda>_. Ok []),
     wv_exec = (\<lambda>p. Ok p), wv_access = (\<lambda>_ a. Ok (a\<lparr>av_status := 200\<rparr>))\<rparr>"

definition sample_ws_request :: http_request where
  "sample_ws_request = \<lparr>ht_remote = [], ht_proto = [], ht_method = [], ht_host = [], ht_url = [], ht_url_host = [],
     ht_query = [], ht_tls = False, ht_header = Map.empty, ht_cookies = [], ht_body = Ok [], ht_form = Ok Map.empty,
     ht_multi = Err (Str []), ht_orders = ([], [], []), ht_attributes = None\<rparr>"

definition sample_driver :: "(string \<Rightarrow> string set) mem_pubsub" where
  "sample_driver = \<lparr>mp_queue = [], mp_storage = bst_new fun_bst\<rparr>"

definition sample_conn :: connection where
  "sample_conn = \<lparr>cn_sent = [], cn_fail = Ok ()\<rparr>"

lemma finite_order: "topic_orders sorted_list_of_set"
  by (simp add: topic_orders_def)

lemmas sample_ws = sample_ws_env_def sample_ws_request_def sample_driver_def sample_conn_def fun_bst_def

lemma sample_run:
  "ws_run sample_ws_env (mp_ops fun_bst) tord ''c'' [(0, Frame OpText None ''t'')] sample_ws_request sample_conn (ws_start sample_driver) =
     (let S = ws_start sample_driver in
      S\<lparr>wst_sub := sample_driver\<lparr>mp_storage := (\<lambda>t. if t = ''t'' then {''c''} else {})\<rparr>,
        wst_conns := [''c'' \<mapsto> sample_conn\<lparr>cn_sent := [''@join'']\<rparr>],
        wst_execs := [''c'' \<mapsto> (NewExecutor ''c'' sample_ws_request)\<lparr>ex_topics := {''t''}\<rparr>],
        wst_plds := [zero_payload]\<rparr>, None)"
  by (simp add: ws_run_def ws_finish_def ws_store_def ws_session_def ws_connect_def ws_start_def exec_command_def
      conn_Read_def exec_join_def NewExecutor_def exec_reply_def conn_Write_def exec_Set_def loop_on_def
      mp_ops_def mp_Subscribe_def ws_exec_def pool_get_def pool_put_def reset_payload_def zero_payload_def sample_ws fun_eq_iff
      defaultAccessValidator_def TopicsAccessValidator_def access_validator_def attributes_Init_def attributes_Set_def Let_def)



section \<open>Delivery\<close>

text \<open>
  The delivery goes on past a connection that takes the message; it also goes on past one whose write
  panicked, since that is recovered.
\<close>

definition goes_on :: "(string \<rightharpoonup> connection) \<Rightarrow> string \<Rightarrow> bool" where
  "goes_on conns c = (case conns c of None \<Rightarrow> False | Some cn \<Rightarrow> cn_fail cn = Ok () \<or> cn_fail cn = Panic)"

lemma conn_Write_fail [simp]: "cn_fail (fst (conn_Write d cn)) = cn_fail cn"
  by (simp add: conn_Write_def split: res.split)

lemma takeWhile_goes_on:
  "conns c = Some cn \<Longrightarrow> takeWhile (goes_on (conns(c \<mapsto> fst (conn_Write d cn)))) cs = takeWhile (goes_on conns) cs"
  by (intro takeWhile_cong) (auto simp: goes_on_def)

lemma wp_send_upto:
  assumes "distinct cs" "wv_packet E (ms_topic m) (ms_payload m) = Ok d"
  shows "wp_send E m cs conns c =
    (if c \<in> set (takeWhile (goes_on conns) cs) then map_option (\<lambda>cn. fst (conn_Write d cn)) (conns c) else conns c)"
  using assms
proof (induction cs arbitrary: conns)
  case (Cons a cs)
  show ?case
  proof (cases "conns a")
    case (Some cn)
    obtain cn' r where w: "conn_Write d cn = (cn', r)" by fastforce
    show ?thesis
    proof (cases "goes_on conns a")
      case True
      then have r: "r = Ok ()" using w Some by (auto simp: goes_on_def conn_Write_def)
      have t: "takeWhile (goes_on (conns(a \<mapsto> cn'))) cs = takeWhile (goes_on conns) cs"
        using takeWhile_goes_on [where conns = conns and c = a and d = d and cn = cn] Some w by simp
      have "wp_send E m (a # cs) conns c = wp_send E m cs (conns(a \<mapsto> cn')) c"
        using Cons.prems(2) by (simp add: Some w r)
      also have "\<dots> = (if c \<in> set (takeWhile (goes_on conns) cs)
          then map_option (\<lambda>cn. fst (conn_Write d cn)) ((conns(a \<mapsto> cn')) c) else (conns(a \<mapsto> cn')) c)"
        using Cons.prems by (intro Cons.IH [of "conns(a \<mapsto> cn')", unfolded t]) simp_all
      finally show ?thesis
        using Cons.prems(1) True Some w by (auto dest: set_takeWhileD simp del: wp_send.simps)
    next
      case False
      then have "cn' = cn" "r \<noteq> Ok ()" using w Some by (auto simp: goes_on_def conn_Write_def split: res.splits)
      with False Some w Cons.prems show ?thesis by (simp add: fun_upd_idem)
    qed
  qed (simp add: goes_on_def)
qed simp

text \<open>
  C4: A message reaches exactly the subscribers that come, in the order of the loop, before the first
  one whose connection is missing or cannot be written: from there on the workers' cleared result map
  ends the loop, and the remaining subscribers get nothing although their connections are open.
\<close>

theorem wp_send_reached:
  assumes "distinct cs" "wv_packet E (ms_topic m) (ms_payload m) = Ok d"
  shows "wp_send E m cs conns c =
    (if c \<in> set (takeWhile (goes_on conns) cs) then map_option (\<lambda>cn. fst (conn_Write d cn)) (conns c) else conns c)"
  using assms by (rule wp_send_upto)

theorem wp_send_reached_witness:
  "let conns = [''a'' \<mapsto> \<lparr>cn_sent = [], cn_fail = Err (Str ''broken pipe'')\<rparr>, ''b'' \<mapsto> sample_conn];
       m = \<lparr>ms_topic = ''t'', ms_payload = ''x''\<rparr> in
   wp_send sample_ws_env m [''a'', ''b''] conns ''b'' = Some sample_conn
   \<and> wp_send sample_ws_env m [''b'', ''a''] conns ''b'' = Some (sample_conn\<lparr>cn_sent := [''t:x'']\<rparr>)"
proof -
  let ?c = "[''a'' \<mapsto> \<lparr>cn_sent = [], cn_fail = Err (Str ''broken pipe'')\<rparr>, ''b'' \<mapsto> sample_conn]"
    and ?m = "\<lparr>ms_topic = ''t'', ms_payload = ''x''\<rparr>"
  have d: "wv_packet sample_ws_env (ms_topic ?m) (ms_payload ?m) = Ok ''t:x''" by (simp add: sample_ws)
  show ?thesis
    using wp_send_reached [OF _ d, of "[''a'', ''b'']" ?c "''b''"] wp_send_reached [OF _ d, of "[''b'', ''a'']" ?c "''b''"]
    unfolding Let_def by (simp add: goes_on_def sample_conn_def conn_Write_def)
qed

section \<open>From a publication to the clients\<close>

text \<open>
  The subscribed connections are open and can be written, every message can be encoded, and the loops
  visit each subscriber once.
\<close>

definition ws_live :: "ws_env \<Rightarrow> (message \<Rightarrow> bytes) \<Rightarrow> (string \<Rightarrow> string set) \<Rightarrow> (string \<rightharpoonup> connection) \<Rightarrow> bool" where
  "ws_live E J subs conns \<longleftrightarrow>
     (\<forall>m. wv_packet E (ms_topic m) (ms_payload m) = Ok (J m))
   \<and> (\<forall>t. \<forall>c \<in> subs t. \<exists>cn. conns c = Some cn \<and> cn_fail cn = Ok ())"

definition conn_orders :: "(string \<Rightarrow> string set) \<Rightarrow> (nat \<Rightarrow> string \<Rightarrow> string list) \<Rightarrow> bool" where
  "conn_orders subs cord \<longleftrightarrow> (\<forall>n t. distinct (cord n t) \<and> set (cord n t) = subs t)"

definition received :: "bytes list \<Rightarrow> connection \<Rightarrow> connection" where
  "received ds cn = cn\<lparr>cn_sent := cn_sent cn @ ds\<rparr>"

lemma wp_send_live:
  assumes "ws_live E J subs conns" "distinct cs" "set cs = subs (ms_topic m)"
  shows "wp_send E m cs conns c = (if c \<in> subs (ms_topic m) then map_option (received [J m]) (conns c) else conns c)"
proof -
  have t: "takeWhile (goes_on conns) cs = cs"
    using assms(1,3) by (fastforce simp: takeWhile_eq_all_conv goes_on_def ws_live_def)
  have "map_option (\<lambda>cn. fst (conn_Write (J m) cn)) (conns c) = map_option (received [J m]) (conns c)" if "c \<in> subs (ms_topic m)"
    using that assms(1) by (force simp: ws_live_def conn_Write_def received_def)
  moreover have "wp_send E m cs conns c = (if c \<in> set cs then map_option (\<lambda>cn. fst (conn_Write (J m) cn)) (conns c) else conns c)"
    using wp_send_upto [of cs E m "J m" conns c] assms(1,2) unfolding t by (simp add: ws_live_def)
  ultimately show ?thesis by (simp add: assms(3))
qed

lemma deliver_one:
  assumes B: "bst_laws B" and S: "mp_queue (wst_sub S) = m # ms" "ms_topic m \<noteq> []"
    and live: "ws_live E J (mp_subs B (wst_sub S)) (wst_conns S)"
    and cord: "distinct (cord (ms_topic m))" "set (cord (ms_topic m)) = mp_subs B (wst_sub S) (ms_topic m)"
  shows "ws_deliver E (mp_ops B) cord S = S\<lparr>wst_sub := (wst_sub S)\<lparr>mp_queue := ms\<rparr>,
    wst_conns := (\<lambda>c. if c \<in> mp_subs B (wst_sub S) (ms_topic m) then map_option (received [J m]) (wst_conns S c) else wst_conns S c)\<rparr>"
proof (cases "mp_subs B (wst_sub S) (ms_topic m) = {}")
  case True
  then have "ps_next (mp_ops B) False (wst_sub S) = ((wst_sub S)\<lparr>mp_queue := ms\<rparr>, Ok None)"
    using B S(1) by (simp add: mp_ops_def mp_Next_def bst_laws_def mp_subs_def)
  with True show ?thesis by (simp add: ws_deliver_def wp_do_def)
next
  case False
  then have n: "ps_next (mp_ops B) False (wst_sub S) = ((wst_sub S)\<lparr>mp_queue := ms\<rparr>, Ok (Some m))"
    using B S(1) by (simp add: mp_ops_def mp_Next_def bst_laws_def mp_subs_def)
  have "wp_send E m (cord (ms_topic m)) (wst_conns S) =
      (\<lambda>c. if c \<in> mp_subs B (wst_sub S) (ms_topic m) then map_option (received [J m]) (wst_conns S c) else wst_conns S c)"
    using wp_send_live [OF live cord] by auto
  with n S(2) show ?thesis by (simp add: ws_deliver_def wp_do_def)
qed

lemma received_received: "received ds (received ds' cn) = received (ds' @ ds) cn"
  by (simp add: received_def)

lemma ws_live_received:
  "ws_live E J subs conns \<Longrightarrow> ws_live E J subs (\<lambda>c. if c \<in> T then map_option (received ds) (conns c) else conns c)"
  by (fastforce simp: ws_live_def received_def)

lemma pump_delivers:
  assumes B: "bst_laws B"
  shows "mp_queue (wst_sub S) = ms \<Longrightarrow> list_all (\<lambda>m. ms_topic m \<noteq> []) ms \<Longrightarrow>
    ws_live E J (mp_subs B (wst_sub S)) (wst_conns S) \<Longrightarrow> conn_orders (mp_subs B (wst_sub S)) cord \<Longrightarrow>
    wst_conns (ws_pump E (mp_ops B) cord (length ms) S) c =
      map_option (received (map J (filter (\<lambda>m. c \<in> mp_subs B (wst_sub S) (ms_topic m)) ms))) (wst_conns S c)"
proof (induction ms arbitrary: S cord)
  case Nil
  then show ?case by (cases "wst_conns S c") (simp_all add: received_def)
next
  case (Cons m ms)
  let ?S = "ws_deliver E (mp_ops B) (cord 0) S"
  have d: "?S = S\<lparr>wst_sub := (wst_sub S)\<lparr>mp_queue := ms\<rparr>,
    wst_conns := (\<lambda>c. if c \<in> mp_subs B (wst_sub S) (ms_topic m) then map_option (received [J m]) (wst_conns S c) else wst_conns S c)\<rparr>"
    using Cons.prems by (intro deliver_one [OF B]) (simp_all add: conn_orders_def)
  have q: "mp_queue (wst_sub ?S) = ms" "mp_subs B (wst_sub ?S) = mp_subs B (wst_sub S)"
    by (simp_all add: d mp_subs_def fun_eq_iff)
  have "ws_live E J (mp_subs B (wst_sub ?S)) (wst_conns ?S)"
    unfolding q using ws_live_received [OF Cons.prems(3)] by (simp add: d)
  then have "wst_conns (ws_pump E (mp_ops B) (\<lambda>k. cord (Suc k)) (length ms) ?S) c =
      map_option (received (map J (filter (\<lambda>m. c \<in> mp_subs B (wst_sub S) (ms_topic m)) ms))) (wst_conns ?S c)"
    using Cons.IH [OF q(1)] Cons.prems unfolding q by (simp add: conn_orders_def)
  then show ?case by (cases "wst_conns S c") (simp_all add: d received_received)
qed



section \<open>The lock of the plugin\<close>

text \<open>
  \<open>sync.RWMutex\<close>: \<open>Lock\<close> first announces the writer, which keeps new readers out, and then waits for the
  readers inside.  A configuration is the number of readers inside, whether a writer is announced or
  inside, and what each goroutine still has to do with the lock.
\<close>

datatype lock_op = RLock | RUnlock | Lock | Wait | Unlock

inductive lock_step :: "nat \<times> bool \<times> lock_op list list \<Rightarrow> nat \<times> bool \<times> lock_op list list \<Rightarrow> bool" where
  rlock: "i < length ts \<Longrightarrow> ts ! i = RLock # p \<Longrightarrow> lock_step (n, False, ts) (Suc n, False, ts[i := p])"
| runlock: "i < length ts \<Longrightarrow> ts ! i = RUnlock # p \<Longrightarrow> lock_step (Suc n, w, ts) (n, w, ts[i := p])"
| lock: "i < length ts \<Longrightarrow> ts ! i = Lock # p \<Longrightarrow> lock_step (n, False, ts) (n, True, ts[i := Wait # p])"
| waited: "i < length ts \<Longrightarrow> ts ! i = Wait # p \<Longrightarrow> lock_step (0, True, ts) (0, True, ts[i := p])"
| unlock: "i < length ts \<Longrightarrow> ts ! i = Unlock # p \<Longrightarrow> lock_step (n, True, ts) (n, False, ts[i := p])"

inductive_cases lock_stepE: "lock_step c c'"

text \<open>
  What the middleware, with \<open>exec\<close> inside the validator, and \<open>Reset\<close> do with the lock.
\<close>

definition mw_locks :: "bool \<Rightarrow> lock_op list" where
  "mw_locks allowed = RLock # (if allowed then [RLock, RUnlock] @ [RUnlock] else [])"

definition reset_locks :: "lock_op list" where
  "reset_locks = [Lock, Unlock]"

definition lock_stuck :: "nat \<times> bool \<times> lock_op list list \<Rightarrow> bool" where
  "lock_stuck c \<longleftrightarrow> (\<forall>c'. \<not> lock_step c c') \<and> (\<exists>t \<in> set (snd (snd c)). t \<noteq> [])"

text \<open>
  C5: The lock of the plugin can be lost for good in two ways.  A request with a refused origin never
  gives its read lock back, so a later \<open>Reset\<close> waits forever; and a permitted request takes the read
  lock twice, so that it and a \<open>Reset\<close> announced between the two wait for each other.
\<close>

theorem ws_reset_deadlock:
  "\<exists>c. lock_step\<^sup>*\<^sup>* (0, False, [mw_locks a, reset_locks]) c \<and> lock_stuck c"
proof (cases a)
  case True
  let ?c = "(1, True, [[RLock, RUnlock, RUnlock], [Wait, Unlock]])"
  have 1: "lock_step (0, False, [mw_locks a, reset_locks]) (1, False, [[RLock, RUnlock, RUnlock], reset_locks])"
    using lock_step.rlock [of 0 "[mw_locks a, reset_locks]" "[RLock, RUnlock, RUnlock]" 0] True by (simp add: mw_locks_def)
  have 2: "lock_step (1, False, [[RLock, RUnlock, RUnlock], reset_locks]) ?c"
    using lock_step.lock [of 1 "[[RLock, RUnlock, RUnlock], reset_locks]" "[Unlock]" 1] by (simp add: reset_locks_def)
  have "\<not> lock_step ?c c'" for c'
    by (auto elim!: lock_stepE simp: less_Suc_eq nth_Cons split: nat.splits)
  with 1 2 show ?thesis unfolding lock_stuck_def by (intro exI [of _ ?c]) (auto intro: converse_rtranclp_into_rtranclp)
next
  case False
  let ?c = "(1, True, [[], [Wait, Unlock]])"
  have 1: "lock_step (0, False, [mw_locks a, reset_locks]) (1, False, [[], reset_locks])"
    using lock_step.rlock [of 0 "[mw_locks a, reset_locks]" "[]" 0] False by (simp add: mw_locks_def)
  have 2: "lock_step (1, False, [[], reset_locks]) ?c"
    using lock_step.lock [of 1 "[[], reset_locks]" "[Unlock]" 1] by (simp add: reset_locks_def)
  have "\<not> lock_step ?c c'" for c'
    by (auto elim!: lock_stepE simp: less_Suc_eq nth_Cons split: nat.splits)
  with 1 2 show ?thesis unfolding lock_stuck_def by (intro exI [of _ ?c]) (auto intro: converse_rtranclp_into_rtranclp)
qed

end
