(* ===== verification/Http_Mw.thy ===== *)
theory Http_Mw
  imports Http_Handler
begin

text \<open>
  The HTTP middlewares that serve files, set headers and report to New Relic and Prometheus
  (\<open>http/middleware/send\<close>, \<open>static\<close>, \<open>headers\<close>, \<open>new_relic\<close>, \<open>prometheus\<close>).

  The next handler is the list of what it does to the response writer, so that the same handler can be
  run on the writer of \<open>net/http\<close> and on the writers the middlewares put in its place.
\<close>

section \<open>Handlers and writers\<close>

datatype w_act = Act_add string string | Act_set string string | Act_status int | Act_body bytes

type_synonym next_handler = "http_request \<Rightarrow> w_act list"

text \<open>The first write sends the status 200 when none was set.\<close>

definition w_Write :: "bytes \<Rightarrow> writer \<Rightarrow> writer" where
  "w_Write d w = (let w1 = fst (WriteHeader 200 w) in w1\<lparr>wr_body := wr_body w1 @ d\<rparr>)"

fun run_writer :: "w_act list \<Rightarrow> writer \<Rightarrow> writer \<times> unit res" where
  "run_writer [] w = (w, Ok ())"
| "run_writer (Act_add k v # as) w = run_writer as (w\<lparr>wr_header := header_add k v (wr_header w)\<rparr>)"
| "run_writer (Act_set k v # as) w = run_writer as (w\<lparr>wr_header := header_set k v (wr_header w)\<rparr>)"
| "run_writer (Act_status c # as) w =
     (case WriteHeader c w of (w1, Ok _) \<Rightarrow> run_writer as w1 | (w1, r) \<Rightarrow> (w1, r))"
| "run_writer (Act_body d # as) w = run_writer as (w_Write d w)"

section \<open>X-Sendfile\<close>

text \<open>
  The environment of a request: the size a file has, its content when it can be opened, the error of
  reading at an offset, the error of writing to the client at an offset.
\<close>

record send_env =
  se_stat :: "string \<Rightarrow> nat option"
  se_open :: "string \<Rightarrow> bytes res"
  se_read_err :: "nat \<Rightarrow> error option"
  se_write_err :: "nat \<Rightarrow> error option"
  se_text :: "error \<Rightarrow> string"

definition bufSize :: nat where
  "bufSize = 10 * 1024 * 1024"

datatype read_result = ReadOk | ReadEOF | ReadErr error

text \<open>
  \<open>os.File.ReadAt\<close>: the buffer is filled, or an error is returned, which is \<open>io.EOF\<close> at the end of the
  file; reading nothing is no error.
\<close>

definition ReadAt :: "send_env \<Rightarrow> bytes \<Rightarrow> nat \<Rightarrow> nat \<Rightarrow> bytes \<times> read_result" where
  "ReadAt E content len off =
     (if len = 0 then ([], ReadOk)
      else case se_read_err E off of
          Some e \<Rightarrow> ([], ReadErr e)
        | None \<Rightarrow>
            let d = take len (drop off content) in (d, if length d < len then ReadEOF else ReadOk))"

text \<open>The loop with the length of the buffer and the offset; \<open>False\<close> is a return inside the loop.\<close>

partial_function (option) send_loop ::
  "send_env \<Rightarrow> bytes \<Rightarrow> nat \<Rightarrow> nat \<Rightarrow> writer \<Rightarrow> (writer \<times> bool) option"
where
  "send_loop E content len off w =
     (case ReadAt E content len off of
        (d, ReadEOF) \<Rightarrow> Some (w, True)
      | (d, ReadErr e) \<Rightarrow> Some (http_Error (se_text E e) 500 w, False)
      | (d, ReadOk) \<Rightarrow>
          (case se_write_err E off of
             Some e \<Rightarrow> Some (w, False)
           | None \<Rightarrow> send_loop E content (length d) (off + length d) (w_Write d w)))"

text \<open>
  The result is \<open>None\<close> when the loop does not end, otherwise the writer and the request as it is left;
  the header is taken from the request.
\<close>

definition send_Middleware ::
  "send_env \<Rightarrow> next_handler \<Rightarrow> http_request \<Rightarrow> writer \<Rightarrow> ((writer \<times> unit res) \<times> http_request) option"
where
  "send_Middleware E nxt r w =
     (let path = header_get (ht_header r) ''X-Sendfile'' in
      if path = [] then Some (run_writer (nxt r) w, r)
      else if contains path ''..'' then Some (WriteHeader 403 w, r)
      else case se_stat E path of
          None \<Rightarrow> Some ((http_Error ''not found'' 404 w, Ok ()), r)
        | Some fsize \<Rightarrow>
            (case se_open E path of
               Ok content \<Rightarrow>
                 map_option (\<lambda>(w1, done). ((w1, Ok ()),
                     if done
                     then r\<lparr>ht_header := header_del ''X-Sendfile'' (header_set ''Content-Type'' ''application/octet-stream'' (ht_header r))\<rparr>
                     else r))
                   (send_loop E content (if fsize < bufSize then fsize else bufSize) 0 w)
             | Err e \<Rightarrow> Some ((http_Error (se_text E e) 500 w, Ok ()), r)
             | Panic \<Rightarrow> Some ((w, Panic), r)
             | Block \<Rightarrow> Some ((w, Block), r)))"

definition no_errors :: "send_env \<Rightarrow> bool" where
  "no_errors E \<longleftrightarrow> (\<forall>n. se_read_err E n = None) \<and> (\<forall>n. se_write_err E n = None)"

lemma w_Write_status: "wr_status (w_Write d w) \<noteq> None"
  by (simp add: w_Write_def WriteHeader_def Let_def)

lemma w_Write_Write: "w_Write d2 (w_Write d1 w) = w_Write (d1 @ d2) w"
  by (simp add: w_Write_def WriteHeader_def Let_def)

text \<open>From an offset the loop sends whole buffers as long as they fit into the file.\<close>

lemma send_loop_blocks:
  assumes E: "no_errors E" and len: "0 < len"
  shows "off + n * len \<le> length content \<Longrightarrow> length content < off + Suc n * len \<Longrightarrow>
    send_loop E content len off w =
      Some (if n = 0 then w else w_Write (take (n * len) (drop off content)) w, True)"
proof (induction n arbitrary: off w)
  case 0
  then have "length content - off < len" by simp
  then show ?case using E len by (subst send_loop.simps) (simp add: ReadAt_def no_errors_def Let_def)
next
  case (Suc n)
  let ?d = "take len (drop off content)"
  have d: "length ?d = len" using Suc.prems(1) by simp
  then have s: "send_loop E content len off w = send_loop E content len (off + len) (w_Write ?d w)"
    using E len by (subst send_loop.simps) (simp add: ReadAt_def no_errors_def Let_def)
  have IH: "send_loop E content len (off + len) (w_Write ?d w) =
      Some (if n = 0 then w_Write ?d w else w_Write (take (n * len) (drop (off + len) content)) (w_Write ?d w), True)"
    using Suc.prems by (intro Suc.IH) (simp_all add: algebra_simps)
  have "?d @ take (n * len) (drop (off + len) content) = take (Suc n * len) (drop off content)"
    using take_add [of len "n * len" "drop off content"] by (simp add: add.commute)
  then show ?case unfolding s IH by (auto simp: w_Write_Write)
qed

lemma send_loop_empty:
  assumes "no_errors E"
  shows "send_loop E content 0 off w = None"
proof (rule ccontr)
  assume "send_loop E content 0 off w \<noteq> None"
  then obtain r where r: "send_loop E content 0 off w = Some r" by auto
  have "\<not> (no_errors E \<and> (0 :: nat) = 0)"
  proof (rule send_loop.raw_induct [where P = "\<lambda>E content len off w r. \<not> (no_errors E \<and> len = 0)", OF _ r])
    fix F E content len off w r
    assume IH: "\<And>E content len off w r. F E content len off w = Some r \<Longrightarrow> \<not> (no_errors E \<and> len = 0)"
      and eq: "(case ReadAt E content len off of (d, ReadEOF) \<Rightarrow> Some (w, True)
        | (d, ReadErr e) \<Rightarrow> Some (http_Error (se_text E e) 500 w, False)
        | (d, ReadOk) \<Rightarrow> (case se_write_err E off of Some e \<Rightarrow> Some (w, False)
           | None \<Rightarrow> F E content (length d) (off + length d) (w_Write d w))) = Some r"
    show "\<not> (no_errors E \<and> len = 0)"
    proof
      assume a: "no_errors E \<and> len = 0"
      with eq have "F E content 0 off (w_Write [] w) = Some r" by (simp add: ReadAt_def no_errors_def)
      from IH [OF this] a show False by simp
    qed
  qed
  with assms show False by simp
qed

text \<open>
  C7: Sending a file ends exactly when the file is not empty: an empty one is read and written forever.
  A file shorter than the buffer of ten megabytes is sent whole; of a longer one only the whole buffers
  are sent, and the rest after the last of them is lost.
\<close>

theorem send_file_exact:
  assumes "header_get (ht_header r) ''X-Sendfile'' = path" "path \<noteq> []" "\<not> contains path ''..''"
    and "se_open E path = Ok content" "se_stat E path = Some (length content)" "no_errors E"
  shows "(send_Middleware E nxt r w = None \<longleftrightarrow> content = [])
    \<and> (content \<noteq> [] \<longrightarrow> fst (the (send_Middleware E nxt r w)) =
         (w_Write (if length content < bufSize then content else take (length content div bufSize * bufSize) content) w, Ok ()))"
proof (cases "content = []")
  case True
  with assms show ?thesis
    by (simp add: send_Middleware_def Let_def bufSize_def send_loop_empty)
next
  case False
  let ?n = "length content"
  let ?len = "if ?n < bufSize then ?n else bufSize"
  let ?k = "if ?n < bufSize then 1 else ?n div bufSize"
  have b: "0 < bufSize" by (simp add: bufSize_def)
  have k: "0 < ?k" "?k * ?len \<le> ?n" "?n < Suc ?k * ?len"
    using False b dividend_less_times_div [OF b, of ?n] by (auto simp: div_greater_zero_iff not_less mult.commute)
  have "send_loop E content ?len 0 w = Some (w_Write (take (?k * ?len) content) w, True)"
    using send_loop_blocks [OF assms(6), of ?len 0 ?k content w] k False b by simp
  with assms False show ?thesis by (auto simp: send_Middleware_def Let_def)
qed

theorem send_file_exact_witness:
  "let E = \<lparr>se_stat = (\<lambda>_. Some 0), se_open = (\<lambda>_. Ok []), se_read_err = (\<lambda>_. None), se_write_err = (\<lambda>_. None), se_text = (\<lambda>_. [])\<rparr>;
       r = \<lparr>ht_remote = [], ht_proto = [], ht_method = ''GET'', ht_host = [], ht_url = [], ht_url_host = [], ht_query = [], ht_tls = False,
            ht_header = [canonical_key ''X-Sendfile'' \<mapsto> [''/srv/empty'']], ht_cookies = [], ht_body = Ok [], ht_form = Ok Map.empty,
            ht_multi = Err (Str []), ht_orders = ([], [], []), ht_attributes = None\<rparr>
   in send_Middleware E (\<lambda>_. []) r new_writer = None"
proof -
  let ?E = "\<lparr>se_stat = (\<lambda>_. Some 0), se_open = (\<lambda>_. Ok []), se_read_err = (\<lambda>_. None), se_write_err = (\<lambda>_. None), se_text = (\<lambda>_. [])\<rparr>"
  let ?r = "\<lparr>ht_remote = [], ht_proto = [], ht_method = ''GET'', ht_host = [], ht_url = [], ht_url_host = [], ht_query = [], ht_tls = False,
            ht_header = [canonical_key ''X-Sendfile'' \<mapsto> [''/srv/empty'']], ht_cookies = [], ht_body = Ok [], ht_form = Ok Map.empty,
            ht_multi = Err (Str []), ht_orders = ([], [], []), ht_attributes = None\<rparr>"
  have "header_get (ht_header ?r) ''X-Sendfile'' = ''/srv/empty''" by (simp add: header_get_def)
  from send_file_exact [OF this, of ?E "[]" "\<lambda>_. []" new_writer] show ?thesis
    unfolding Let_def by (simp add: no_errors_def has_prefix_def)
qed

section \<open>Static files\<close>

record static_config =
  sc_dir :: string
  sc_etag :: bool
  sc_weak :: bool
  sc_forbid :: "string list"
  sc_allow :: "string list"
  sc_request :: "(string \<times> string) list"
  sc_response :: "(string \<times> string) list"

datatype dir_stat = StatDir | StatFile | StatMissing | StatError error

definition static_Valid :: "(string \<Rightarrow> dir_stat) \<Rightarrow> static_config \<Rightarrow> unit res" where
  "static_Valid stat c =
     (let op = ''static_plugin_valid''; q = [CHR 0x27] in
      case stat (sc_dir c) of
        StatMissing \<Rightarrow> Err (EOp op (Str (''root directory '' @ q @ sc_dir c @ q @ '' does not exists'')))
      | StatError e \<Rightarrow> Err e
      | StatFile \<Rightarrow> Err (EOp op (Str (''invalid root directory '' @ q @ sc_dir c @ q)))
      | StatDir \<Rightarrow> Ok ())"

record static_plugin =
  st_cfg :: static_config
  st_allowed :: "string set"
  st_forbidden :: "string set"

text \<open>\<open>has_http\<close> and \<open>cfg\<close> are the sections \<open>http\<close> and \<open>http.static\<close> of the configuration.\<close>

definition static_Init :: "(string \<Rightarrow> dir_stat) \<Rightarrow> bool \<Rightarrow> static_config res option \<Rightarrow> static_plugin res" where
  "static_Init stat has_http cfg =
     (let op = ''static_plugin_init'' in
      if \<not> has_http then Err (EOp op (Kind Disabled))
      else case cfg of
          None \<Rightarrow> Err (EOp op (Kind Disabled))
        | Some (Ok c) \<Rightarrow>
            map_res (\<lambda>_. let forbidden = set (filter (\<lambda>x. x \<noteq> []) (sc_forbid c)) in
                \<lparr>st_cfg = c, st_allowed = set (filter (\<lambda>x. x \<noteq> []) (sc_allow c)) - forbidden, st_forbidden = forbidden\<rparr>)
              (wrap op (static_Valid stat c))
        | Some (Err e) \<Rightarrow> Err (EOp op (Kind Disabled))
        | Some Panic \<Rightarrow> Panic
        | Some Block \<Rightarrow> Block)"

text \<open>The loop of \<open>appendUint\<close> fills the buffer from its end; \<open>acc\<close> is its filled part.\<close>

function append_digits :: "u32 \<Rightarrow> string \<Rightarrow> string" where
  "append_digits n acc =
     (if 10 \<le> n then append_digits (n div 10) (char_of (48 + unat (n - n div 10 * 10)) # acc)
      else char_of (48 + unat n) # acc)"
  by pat_completeness auto
termination
  by (relation "measure (\<lambda>(n, acc). unat n)") (auto simp: word_le_nat_alt unat_div)

declare append_digits.simps [simp del]

definition appendUint :: "string \<Rightarrow> u32 \<Rightarrow> string" where
  "appendUint dst n = dst @ append_digits n []"

text \<open>\<open>crc\<close> is the checksum of \<open>hash/crc32\<close> with the table of the plugin, \<open>rd\<close> the result of reading the file.\<close>

definition SetEtag :: "(bytes \<Rightarrow> u32) \<Rightarrow> bool \<Rightarrow> bytes res \<Rightarrow> string \<Rightarrow> writer \<Rightarrow> writer" where
  "SetEtag crc weak rd name w =
     (let q = [CHR 0x22]; set_etag = (\<lambda>v. w\<lparr>wr_header := header_set ''Etag'' v (wr_header w)\<rparr>) in
      if weak then set_etag (appendUint (''W/'' @ q) (crc name) @ q)
      else case rd of
          Ok body \<Rightarrow>
            if body = [] then w
            else set_etag (appendUint (appendUint q (of_nat (length body)) @ ''-'') (crc body) @ q)
        | _ \<Rightarrow> w)"

text \<open>
  A file of the root: its name, whether it is a directory, its content; \<open>Inl\<close> when \<open>Stat\<close> of the opened
  file fails.  \<open>sv_content\<close> is what \<open>http.ServeContent\<close> does to the writer.
\<close>

record static_env =
  sv_open :: "string \<Rightarrow> (unit + string \<times> bool \<times> bytes res) res"
  sv_crc :: "bytes \<Rightarrow> u32"
  sv_content :: "http_request \<Rightarrow> string \<Rightarrow> bytes res \<Rightarrow> w_act list"

datatype static_decision = Refuse | Pass | Serve string "bytes res"

definition static_decide :: "static_env \<Rightarrow> static_plugin \<Rightarrow> string \<Rightarrow> static_decision" where
  "static_decide E s path =
     (if contains path ''..'' then Refuse
      else
        let fp = strip_crlf path; ext = to_lower (path_ext fp) in
        if ext = [] then Pass
        else if ext \<in> st_forbidden s then Pass
        else if st_allowed s \<noteq> {} \<and> ext \<notin> st_allowed s then Pass
        else case sv_open E fp of
            Ok (Inr (name, is_dir, content)) \<Rightarrow> if is_dir then Pass else Serve name content
          | _ \<Rightarrow> Pass)"

text \<open>\<open>path\<close> is the path of the URL.  The loops over the configured headers follow the given order.\<close>

definition add_headers :: "(string \<times> string) list \<Rightarrow> header \<Rightarrow> header" where
  "add_headers kvs h = fold (\<lambda>(k, v). header_add k v) kvs h"

definition set_headers :: "(string \<times> string) list \<Rightarrow> header \<Rightarrow> header" where
  "set_headers kvs h = fold (\<lambda>(k, v). header_set k v) kvs h"

definition static_Middleware ::
  "static_env \<Rightarrow> static_plugin \<Rightarrow> next_handler \<Rightarrow> string \<Rightarrow> http_request \<Rightarrow> writer \<Rightarrow> writer \<times> unit res"
where
  "static_Middleware E s nxt path r w =
     (case static_decide E s path of
        Refuse \<Rightarrow> WriteHeader 403 w
      | Pass \<Rightarrow> run_writer (nxt r) w
      | Serve name content \<Rightarrow>
          (let c = st_cfg s;
               w1 = (if sc_etag c then SetEtag (sv_crc E) (sc_weak c) content name w else w);
               r1 = r\<lparr>ht_header := add_headers (sc_request c) (ht_header r)\<rparr>;
               w2 = w1\<lparr>wr_header := set_headers (sc_response c) (wr_header w1)\<rparr> in
           run_writer (sv_content E r1 name content) w2))"

lemma digit_word: "unat (n - n div 10 * 10 :: u32) = unat n mod 10"
proof -
  have "n - n div 10 * 10 = n mod 10" by (simp add: minus_div_mult_eq_mod)
  then show ?thesis by (simp add: unat_mod)
qed

lemma append_digits_show: "append_digits n acc = show_nat (unat n) @ acc"
proof (induction n acc rule: append_digits.induct)
  case (1 n acc)
  show ?case
  proof (cases "10 \<le> n")
    case True
    then have "\<not> unat n < 10" by (simp add: word_le_nat_alt)
    with True 1 show ?thesis
      by (subst append_digits.simps, subst show_nat.simps) (simp add: digit_word digit_char_def unat_div)
  next
    case False
    then have "unat n < 10" by (simp add: word_le_nat_alt)
    with False show ?thesis
      by (subst append_digits.simps, subst show_nat.simps) (simp add: digit_char_def)
  qed
qed

text \<open>
  The numbers of an entity tag are the decimal numbers; at most ten digits are written into the buffer
  of twenty bytes.
\<close>

lemma appendUint_decimal: "appendUint dst n = dst @ show_nat (unat n)"
  by (simp add: appendUint_def append_digits_show)



section \<open>Headers\<close>

record cors_config =
  co_origin :: string
  co_headers :: string
  co_methods :: string
  co_credentials :: "bool option"
  co_exposed :: string
  co_max_age :: int

record headers_config =
  he_cors :: "cors_config option"
  he_request :: "(string \<times> string) list"
  he_response :: "(string \<times> string) list"

definition set_unless_empty :: "string \<Rightarrow> string \<Rightarrow> header \<Rightarrow> header" where
  "set_unless_empty k v h = (if v = [] then h else header_set k v h)"

definition show_bool :: "bool \<Rightarrow> string" where
  "show_bool b = (if b then ''true'' else ''false'')"

definition set_credentials :: "bool option \<Rightarrow> header \<Rightarrow> header" where
  "set_credentials c h =
     (case c of None \<Rightarrow> h | Some b \<Rightarrow> header_set ''Access-Control-Allow-Credentials'' (show_bool b) h)"

definition preflightRequest :: "cors_config \<Rightarrow> writer \<Rightarrow> writer \<times> unit res" where
  "preflightRequest c w =
     (let h1 = header_add ''Vary'' ''Access-Control-Request-Headers'' (header_add ''Vary'' ''Access-Control-Request-Method''
                 (header_add ''Vary'' ''Origin'' (wr_header w)));
          h2 = set_unless_empty ''Access-Control-Allow-Origin'' (co_origin c) h1;
          h3 = set_unless_empty ''Access-Control-Allow-Headers'' (co_headers c) h2;
          h4 = set_unless_empty ''Access-Control-Allow-Methods'' (co_methods c) h3;
          h5 = set_credentials (co_credentials c) h4;
          h6 = (if 0 < co_max_age c then header_set ''Access-Control-Max-Age'' (show_nat (nat (co_max_age c))) h5 else h5) in
      WriteHeader 200 (w\<lparr>wr_header := h6\<rparr>))"

definition corsHeaders :: "cors_config \<Rightarrow> writer \<Rightarrow> writer" where
  "corsHeaders c w =
     (let h1 = header_add ''Vary'' ''Origin'' (wr_header w);
          h2 = set_unless_empty ''Access-Control-Allow-Origin'' (co_origin c) h1;
          h3 = set_unless_empty ''Access-Control-Allow-Headers'' (co_headers c) h2;
          h4 = set_unless_empty ''Access-Control-Expose-Headers'' (co_exposed c) h3 in
      w\<lparr>wr_header := set_credentials (co_credentials c) h4\<rparr>)"

definition headers_Middleware :: "headers_config \<Rightarrow> next_handler \<Rightarrow> http_request \<Rightarrow> writer \<Rightarrow> writer \<times> unit res" where
  "headers_Middleware c nxt r w =
     (let r1 = r\<lparr>ht_header := add_headers (he_request c) (ht_header r)\<rparr>;
          w1 = w\<lparr>wr_header := set_headers (he_response c) (wr_header w)\<rparr> in
      case he_cors c of
        Some cors \<Rightarrow>
          if ht_method r1 = ''OPTIONS'' then preflightRequest cors w1
          else run_writer (nxt r1) (corsHeaders cors w1)
      | None \<Rightarrow> run_writer (nxt r1) w1)"

section \<open>A writer that keeps the response\<close>

text \<open>
  New Relic and the cache hand the next handler a writer of their own.  Its \<open>Write\<close> replaces the data,
  its code is -1 until one is written.
\<close>

record cwriter =
  cw_code :: int
  cw_data :: bytes
  cw_hdr :: header

definition new_cwriter :: cwriter where
  "new_cwriter = \<lparr>cw_code = -1, cw_data = [], cw_hdr = Map.empty\<rparr>"

definition reset_cwriter :: "cwriter \<Rightarrow> cwriter" where
  "reset_cwriter w = w\<lparr>cw_code := -1, cw_data := [], cw_hdr := Map.empty\<rparr>"

fun run_cwriter :: "w_act list \<Rightarrow> cwriter \<Rightarrow> cwriter" where
  "run_cwriter [] w = w"
| "run_cwriter (Act_add k v # as) w = run_cwriter as (w\<lparr>cw_hdr := header_add k v (cw_hdr w)\<rparr>)"
| "run_cwriter (Act_set k v # as) w = run_cwriter as (w\<lparr>cw_hdr := header_set k v (cw_hdr w)\<rparr>)"
| "run_cwriter (Act_status c # as) w = run_cwriter as (w\<lparr>cw_code := c\<rparr>)"
| "run_cwriter (Act_body d # as) w = run_cwriter as (w\<lparr>cw_data := d\<rparr>)"

text \<open>The loops that copy the headers, the status and the data to the client; \<open>ks\<close> is the order of the keys.\<close>

definition copy_headers :: "string list \<Rightarrow> header \<Rightarrow> writer \<Rightarrow> writer" where
  "copy_headers ks h w = w\<lparr>wr_header := write_headers ks h (wr_header w)\<rparr>"

definition copy_response :: "int \<Rightarrow> bytes \<Rightarrow> writer \<Rightarrow> writer \<times> unit res" where
  "copy_response code data w =
     (case WriteHeader code w of (w1, Ok _) \<Rightarrow> (w_Write data w1, Ok ()) | (w1, r) \<Rightarrow> (w1, r))"

interpretation cwriter_pool: clean_pool new_cwriter reset_cwriter
  by unfold_locales (simp add: new_cwriter_def reset_cwriter_def)

section \<open>New Relic\<close>

definition nr_split :: "bytes \<Rightarrow> (bytes \<times> bytes) option" where
  "nr_split target =
     (case index_byte target CHR '':'' of
        None \<Rightarrow> None
      | Some pos \<Rightarrow> if pos = 0 then None else if length target < pos + 1 then None
                    else Some (take pos target, drop (pos + 1) target))"

datatype nr_event = Nr_name string | Nr_attribute string string | Nr_error string string "string option"

record nr_error =
  ne_message :: string
  ne_class :: string
  ne_attributes :: "string option"

text \<open>\<open>strings.EqualFold\<close> on the ASCII keys.\<close>

definition handle_header :: "string \<Rightarrow> nr_error \<Rightarrow> nr_error" where
  "handle_header h e =
     (let (k, v) = (case nr_split h of None \<Rightarrow> ([], []) | Some kv \<Rightarrow> kv) in
      if to_lower k = ''message'' then e\<lparr>ne_message := v\<rparr>
      else if to_lower k = ''class'' then e\<lparr>ne_class := v\<rparr>
      else if to_lower k = ''attributes'' then e\<lparr>ne_attributes := Some v\<rparr>
      else e)"

definition handleErr :: "string list \<Rightarrow> nr_error" where
  "handleErr hs = fold handle_header hs \<lparr>ne_message = [], ne_class = [], ne_attributes = None\<rparr>"

definition nr_attribute :: "string \<Rightarrow> nr_event list" where
  "nr_attribute h =
     (case nr_split h of
        None \<Rightarrow> []
      | Some (k, v) \<Rightarrow> if k = ''transaction_name'' then [Nr_name v] else [Nr_attribute k v])"

definition values_of :: "header \<Rightarrow> string \<Rightarrow> string list" where
  "values_of h k = (case h k of None \<Rightarrow> [] | Some vs \<Rightarrow> vs)"

text \<open>
  The events are what the transaction is told.  \<open>i\<close> is the choice of the pool; \<open>ks\<close> is the order of the
  loop over the headers that are left.
\<close>

definition newrelic_Middleware ::
  "nat \<Rightarrow> (header \<Rightarrow> string list) \<Rightarrow> next_handler \<Rightarrow> http_request \<Rightarrow> cwriter list \<Rightarrow> writer \<Rightarrow>
   cwriter list \<times> nr_event list \<times> writer \<times> unit res"
where
  "newrelic_Middleware i ks nxt r pool w =
     (let (wr0, rest) = pool_get new_cwriter i pool;
          wr = run_cwriter (nxt r) wr0;
          errs = values_of (cw_hdr wr) ''Rr_newrelic_error'';
          hdr = values_of (cw_hdr wr) ''Rr_newrelic'';
          left = (if errs \<noteq> [] then ((cw_hdr wr)(''Rr_newrelic'' := None))(''Rr_newrelic_error'' := None)
                  else (cw_hdr wr)(''Rr_newrelic'' := None));
          events = (if errs \<noteq> [] then (let e = handleErr errs in [Nr_error (ne_message e) (ne_class e) (ne_attributes e)])
                    else concat (map nr_attribute hdr));
          (w1, res) = copy_response (cw_code wr) (cw_data wr) (copy_headers (ks left) left w) in
      (if res = Ok () then pool_put (reset_cwriter wr) rest else rest, events, w1, res))"

lemma write_headers_other:
  assumes "\<forall>k \<in> set ks. canonical_key k \<noteq> key \<or> values_of hs k = []"
  shows "write_headers ks hs h key = h key"
  using assms
proof (induction ks arbitrary: h)
  case (Cons k ks)
  have "fold (header_add k) vs g key = g key" if "canonical_key k \<noteq> key" for vs g
    using that by (induction vs arbitrary: g) (auto simp: header_add_def)
  then have "fold (header_add k) (case hs k of None \<Rightarrow> [] | Some vs \<Rightarrow> vs) h key = h key"
    using Cons.prems by (auto simp: values_of_def split: option.splits)
  then show ?case using Cons by simp
qed simp

definition canonical_header :: "header \<Rightarrow> bool" where
  "canonical_header h \<longleftrightarrow> (\<forall>k \<in> dom h. canonical_key k = k)"

lemma canonical_header_upd: "canonical_header h \<Longrightarrow> canonical_header (h(canonical_key k \<mapsto> v))"
  unfolding canonical_header_def using canonical_key_idem by (metis domIff fun_upd_apply)

lemma run_cwriter_canonical: "canonical_header (cw_hdr w) \<Longrightarrow> canonical_header (cw_hdr (run_cwriter as w))"
  by (induction as w rule: run_cwriter.induct) (simp_all add: header_add_def header_set_def canonical_header_upd del: fun_upd_apply)

lemma copy_response_header: "wr_header (fst (copy_response c d w)) = wr_header w"
  by (simp add: copy_response_def WriteHeader_def w_Write_def Let_def split: res.split)

text \<open>
  C38: The headers a worker uses to report to New Relic never reach the client: whatever the handler does,
  the client's header is the same under both names as before the request, and the pooled writer goes back
  clean.
\<close>

theorem newrelic_hides:
  assumes "clean new_cwriter pool" "\<forall>h. set (ks h) \<subseteq> dom h" "key = ''Rr_newrelic'' \<or> key = ''Rr_newrelic_error''"
    and "newrelic_Middleware i ks nxt r pool w = (pool', events, w', res)"
  shows "wr_header w' key = wr_header w key \<and> clean new_cwriter pool'"
proof -
  obtain wr0 rest where g: "pool_get new_cwriter i pool = (wr0, rest)" by fastforce
  from pool_get_clean [OF assms(1) g] have z: "wr0 = new_cwriter" "clean new_cwriter rest" by auto
  define wr where "wr = run_cwriter (nxt r) wr0"
  define left where "left = (if values_of (cw_hdr wr) ''Rr_newrelic_error'' \<noteq> []
      then ((cw_hdr wr)(''Rr_newrelic'' := None))(''Rr_newrelic_error'' := None) else (cw_hdr wr)(''Rr_newrelic'' := None))"
  have can: "\<forall>k \<in> dom (cw_hdr wr). canonical_key k = k"
    using run_cwriter_canonical [of new_cwriter "nxt r"]
    unfolding wr_def z canonical_header_def by (simp add: new_cwriter_def)
  have key: "values_of left key = []"
    using assms(3) by (auto simp: left_def values_of_def split: if_splits option.splits)
  have "write_headers (ks left) left (wr_header w) key = wr_header w key"
  proof (rule write_headers_other, rule ballI)
    fix k assume "k \<in> set (ks left)"
    then have "k \<in> dom left" using assms(2) by blast
    then have "k \<in> dom (cw_hdr wr)" by (auto simp: left_def split: if_splits)
    with can have "canonical_key k = k" by blast
    with key show "canonical_key k \<noteq> key \<or> values_of left k = []" by auto
  qed
  then have h: "wr_header (fst (copy_response c d (copy_headers (ks left) left w))) key = wr_header w key" for c d
    by (simp add: copy_response_header copy_headers_def)
  have w': "w' = fst (copy_response (cw_code wr) (cw_data wr) (copy_headers (ks left) left w))"
    "pool' = (if res = Ok () then pool_put (reset_cwriter wr) rest else rest)"
    using assms(4) unfolding newrelic_Middleware_def Let_def g prod.case wr_def [symmetric] left_def [symmetric]
    by (auto split: prod.splits)
  show ?thesis using h z(2) cwriter_pool.put_clean by (simp add: w')
qed

definition sample_get :: http_request where
  "sample_get = \<lparr>ht_remote = [], ht_proto = [], ht_method = ''GET'', ht_host = [], ht_url = ''/a'', ht_url_host = [], ht_query = [], ht_tls = False,
     ht_header = Map.empty, ht_cookies = [], ht_body = Ok [], ht_form = Ok Map.empty, ht_multi = Err (Str []),
     ht_orders = ([], [], []), ht_attributes = None\<rparr>"

theorem newrelic_hides_witness:
  "let nxt = (\<lambda>_. [Act_add ''Rr_newrelic'' ''user:7'', Act_add ''X'' ''1'', Act_status 200, Act_body ''hi'']);
       ks = (\<lambda>h. filter (\<lambda>k. h k \<noteq> None) [''X'', ''Rr_newrelic'']);
       (pool', events, w', res) = newrelic_Middleware 0 ks nxt sample_get [] new_writer
   in events = [Nr_attribute ''user'' ''7''] \<and> wr_body w' = ''hi'' \<and> wr_header w' ''Rr_newrelic'' = None
      \<and> clean new_cwriter pool'"
proof -
  let ?nxt = "\<lambda>_. [Act_add ''Rr_newrelic'' ''user:7'', Act_add ''X'' ''1'', Act_status 200, Act_body ''hi'']"
    and ?ks = "\<lambda>h :: header. filter (\<lambda>k. h k \<noteq> None) [''X'', ''Rr_newrelic'']"
  obtain pool' events w' res where run: "newrelic_Middleware 0 ?ks ?nxt sample_get [] new_writer = (pool', events, w', res)"
    using prod_cases4 by blast
  have k: "canonical_key ''Rr_newrelic'' = ''Rr_newrelic''" "canonical_key ''X'' = ''X''" by code_simp+
  have "nr_attribute ''user:7'' = [Nr_attribute ''user'' ''7'']" by code_simp
  then have "events = [Nr_attribute ''user'' ''7''] \<and> wr_body w' = ''hi''"
    using run by (auto simp: newrelic_Middleware_def pool_get_def new_cwriter_def values_of_def header_add_def k
        copy_response_def copy_headers_def WriteHeader_def w_Write_def new_writer_def Let_def)
  moreover have "wr_header w' ''Rr_newrelic'' = wr_header new_writer ''Rr_newrelic'' \<and> clean new_cwriter pool'"
    by (rule newrelic_hides [OF _ _ _ run]) (auto simp: clean_def)
  ultimately show ?thesis unfolding Let_def run by (simp add: new_writer_def)
qed

end
