(* ===== verification/Http_Cache.thy ===== *)
theory Http_Cache
  imports Http_Mw Go_Time
begin

text \<open>
  The response cache (\<open>http/middleware/cache\<close>) with its memory driver (\<open>memory/memoryhttpcache\<close>), and the
  request metrics (\<open>http/middleware/prometheus\<close>).

  The encoding of a cached response (protobuf) is an argument.  An instant is its number of seconds
  since the epoch; the local time zone is UTC.
\<close>

section \<open>Cache-Control\<close>

record cc_req =
  cr_max_age :: "nat option"
  cr_max_stale :: "nat option"
  cr_min_fresh :: "nat option"
  cr_no_cache :: bool
  cr_no_store :: bool
  cr_no_transform :: bool
  cr_only_cached :: bool

definition zero_cc :: cc_req where
  "zero_cc = \<lparr>cr_max_age = None, cr_max_stale = None, cr_min_fresh = None, cr_no_cache = False, cr_no_store = False,
     cr_no_transform = False, cr_only_cached = False\<rparr>"

definition cc_Reset :: "cc_req \<Rightarrow> cc_req" where
  "cc_Reset r = r\<lparr>cr_max_age := None, cr_max_stale := None, cr_min_fresh := None, cr_no_cache := False, cr_no_store := False,
     cr_no_transform := False, cr_only_cached := False\<rparr>"

definition cc_value :: "string \<Rightarrow> string \<Rightarrow> cc_req \<Rightarrow> cc_req" where
  "cc_value token val r =
     (case parse_uint val of
        None \<Rightarrow> r
      | Some n \<Rightarrow>
          if token = ''max-age'' then r\<lparr>cr_max_age := Some n\<rparr>
          else if token = ''max-stale'' then r\<lparr>cr_max_stale := Some n\<rparr>
          else if token = ''min-fresh'' then r\<lparr>cr_min_fresh := Some n\<rparr>
          else r)"

definition cc_flag :: "string \<Rightarrow> cc_req \<Rightarrow> cc_req" where
  "cc_flag token r =
     (if token = ''no-cache'' then r\<lparr>cr_no_cache := True\<rparr>
      else if token = ''no-store'' then r\<lparr>cr_no_store := True\<rparr>
      else if token = ''no-transform'' then r\<lparr>cr_no_transform := True\<rparr>
      else if token = ''only-if-cached'' then r\<lparr>cr_only_cached := True\<rparr>
      else r)"

definition cc_directive :: "string \<Rightarrow> cc_req \<Rightarrow> cc_req" where
  "cc_directive s r =
     (case index_byte s CHR ''='' of
        Some idx \<Rightarrow>
          (let token = trim_set '' '' (take idx s); val = trim_set '' '' (drop (idx + 1) s) in
           if length s < idx + 1 \<or> val = [] \<or> token = [] then r else cc_value token val r)
      | None \<Rightarrow> cc_flag (trim_set '' '' s) r)"

definition ParseRequestCacheControl :: "string \<Rightarrow> cc_req \<Rightarrow> cc_req" where
  "ParseRequestCacheControl directives r = fold cc_directive (split_byte CHR '','' directives) r"

section \<open>The driver\<close>

text \<open>What the middleware relies on: a map from identifiers to stored bytes.\<close>

record 's cache_ops =
  ca_get :: "u64 \<Rightarrow> 's \<Rightarrow> bytes res"
  ca_set :: "u64 \<Rightarrow> bytes \<Rightarrow> 's \<Rightarrow> 's \<times> unit res"
  ca_delete :: "u64 \<Rightarrow> 's \<Rightarrow> 's"

locale response_cache =
  fixes ops :: "'s cache_ops" and abs :: "'s \<Rightarrow> u64 \<rightharpoonup> bytes"
  assumes get_abs: "ca_get ops k s = (case abs s k of Some d \<Rightarrow> Ok d | None \<Rightarrow> Err (Kind EmptyItem))"
    and set_abs: "ca_set ops k d s = (s', Ok ()) \<Longrightarrow> abs s' = (abs s)(k \<mapsto> d)"
    and set_total: "\<exists>s'. ca_set ops k d s = (s', Ok ())"
    and delete_abs: "abs (ca_delete ops k s) = (abs s)(k := None)"
begin

lemma get_after_set: "ca_set ops k d s = (s', Ok ()) \<Longrightarrow> ca_get ops k' s' = (if k' = k then Ok d else ca_get ops k' s)"
  by (simp add: get_abs set_abs)

lemma get_after_delete: "ca_get ops k' (ca_delete ops k s) = (if k' = k then Err (Kind EmptyItem) else ca_get ops k' s)"
  by (simp add: get_abs delete_abs)

end

record mem_cache =
  mc_data :: "u64 \<rightharpoonup> bytes"

definition NewCacheDriver :: "mem_cache res" where
  "NewCacheDriver = Ok \<lparr>mc_data = Map.empty\<rparr>"

definition mc_Get :: "u64 \<Rightarrow> mem_cache \<Rightarrow> bytes res" where
  "mc_Get k c = (case mc_data c k of None \<Rightarrow> Err (Kind EmptyItem) | Some d \<Rightarrow> Ok d)"

definition mc_Set :: "u64 \<Rightarrow> bytes \<Rightarrow> mem_cache \<Rightarrow> mem_cache \<times> unit res" where
  "mc_Set k d c = (c\<lparr>mc_data := (mc_data c)(k \<mapsto> d)\<rparr>, Ok ())"

definition mc_Delete :: "u64 \<Rightarrow> mem_cache \<Rightarrow> mem_cache" where
  "mc_Delete k c = c\<lparr>mc_data := (mc_data c)(k := None)\<rparr>"

definition mc_ops :: "mem_cache cache_ops" where
  "mc_ops = \<lparr>ca_get = mc_Get, ca_set = mc_Set, ca_delete = mc_Delete\<rparr>"

interpretation mem_responses: response_cache mc_ops mc_data
  by unfold_locales (auto simp: mc_ops_def mc_Get_def mc_Set_def mc_Delete_def split: option.split)

section \<open>The middleware\<close>

text \<open>\<open>fnv.New64a\<close>: the 64-bit FNV-1a hash.\<close>

definition fnv64a :: "string \<Rightarrow> u64" where
  "fnv64a s = foldl (\<lambda>h c. xor h (of_nat (of_char c)) * 1099511628211) 14695981039346656037 s"

record cache_rsp =
  cp_code :: u64
  cp_headers :: "string \<rightharpoonup> string list"
  cp_data :: bytes
  cp_time :: string

record cache_env =
  ce_encode :: "cache_rsp \<Rightarrow> bytes res"
  ce_decode :: "bytes \<Rightarrow> cache_rsp res"
  ce_uri :: "http_request \<Rightarrow> string"

text \<open>
  The headers of the payload are a new map of pointers, whose elements are nil: assigning to the value of
  one of them panics, so that only a response without a header value gets past the loop.
\<close>

definition writeCache :: "cache_env \<Rightarrow> 's cache_ops \<Rightarrow> nat \<Rightarrow> string list \<Rightarrow> cwriter \<Rightarrow> u64 \<Rightarrow> 's \<Rightarrow> 's \<times> unit res" where
  "writeCache E ops now ks wr cid s =
     (if cw_code wr \<noteq> 200 then (s, Ok ())
      else if list_ex (\<lambda>k. values_of (cw_hdr wr) k \<noteq> []) ks then (s, Panic)
      else case ce_encode E \<lparr>cp_code = of_int (cw_code wr), cp_headers = Map.empty, cp_data = cw_data wr, cp_time = fmt_utc now\<rparr> of
          Ok d \<Rightarrow> (fst (ca_set ops cid d s), Ok ())
        | Err e \<Rightarrow> (s, Ok ())
        | Panic \<Rightarrow> (s, Panic)
        | Block \<Rightarrow> (s, Block))"

definition writeResponse :: "string list \<Rightarrow> cwriter \<Rightarrow> writer \<Rightarrow> writer \<times> unit res" where
  "writeResponse ks wr w = copy_response (cw_code wr) (cw_data wr) (copy_headers ks (cw_hdr wr) w)"

text \<open>Serving the request and storing the answer; \<open>ord\<close> gives the order of a loop over headers.\<close>

definition cache_miss ::
  "cache_env \<Rightarrow> 's cache_ops \<Rightarrow> (header \<Rightarrow> string list) \<Rightarrow> next_handler \<Rightarrow> nat \<Rightarrow> cwriter \<Rightarrow> u64 \<Rightarrow> http_request \<Rightarrow> 's \<Rightarrow> writer \<Rightarrow>
   's \<times> writer \<times> unit res"
where
  "cache_miss E ops ord nxt now wr0 cid r s w =
     (let wr = run_cwriter (nxt r) wr0; (w1, res) = writeResponse (ord (cw_hdr wr)) wr w in
      if res \<noteq> Ok () then (s, w1, res)
      else let (s1, res1) = writeCache E ops now (ord (cw_hdr wr)) wr cid s in (s1, w1, res1))"

definition handleGET ::
  "cache_env \<Rightarrow> 's cache_ops \<Rightarrow> (header \<Rightarrow> string list) \<Rightarrow> next_handler \<Rightarrow> nat \<Rightarrow> cwriter \<Rightarrow> cc_req \<Rightarrow> http_request \<Rightarrow> 's \<Rightarrow> writer \<Rightarrow>
   's \<times> writer \<times> unit res"
where
  "handleGET E ops ord nxt now wr0 rq r s w =
     (let cid = fnv64a (ce_uri E r) in
      case ca_get ops cid s of
        Err e \<Rightarrow>
          if err_is EmptyItem e then cache_miss E ops ord nxt now wr0 cid r s w
          else (s, http_Error ''get hash'' 500 w, Ok ())
      | Ok out \<Rightarrow>
          (case ce_decode E out of
             Ok msg \<Rightarrow>
               (case time_parse (cp_time msg) of
                  None \<Rightarrow> (s, http_Error ''timestamp parse'' 500 w, Ok ())
                | Some ts \<Rightarrow>
                    (let age = nat (int now - ts div 10 ^ 9) in
                     if cr_max_age rq \<noteq> None \<and> the (cr_max_age rq) < age
                     then cache_miss E ops ord nxt now wr0 cid r (ca_delete ops cid s) w
                     else
                       let w1 = w\<lparr>wr_header := header_add ''Age'' (show_nat age) (wr_header w)\<rparr>;
                           (w2, res) = copy_response (uint (cp_code msg)) (cp_data msg) (copy_headers (ord (cp_headers msg)) (cp_headers msg) w1) in
                       (s, w2, res)))
           | Err e \<Rightarrow> (s, http_Error ''cache data unpack'' 500 w, Ok ())
           | Panic \<Rightarrow> (s, w, Panic)
           | Block \<Rightarrow> (s, w, Block))
      | Panic \<Rightarrow> (s, w, Panic)
      | Block \<Rightarrow> (s, w, Block))"

record 's cache_plugin =
  cl_cache :: 's
  cl_writers :: "cwriter list"
  cl_rqs :: "cc_req list"

text \<open>
  The deferred calls put the objects back on every path; the hash and the decoded response have no
  state that outlives the request.  \<open>i\<close> and \<open>j\<close> are the choices of the pools.
\<close>

definition cache_Middleware ::
  "cache_env \<Rightarrow> 's cache_ops \<Rightarrow> (header \<Rightarrow> string list) \<Rightarrow> next_handler \<Rightarrow> nat \<Rightarrow> nat \<Rightarrow> nat \<Rightarrow> http_request \<Rightarrow> 's cache_plugin \<Rightarrow> writer \<Rightarrow>
   's cache_plugin \<times> writer \<times> unit res"
where
  "cache_Middleware E ops ord nxt now i j r p w =
     (if header_get (wr_header w) ''Authorization'' \<noteq> []
      then (let (w1, res) = run_writer (nxt r) w in (p, w1, res))
      else
        let (rq0, rqs) = pool_get zero_cc i (cl_rqs p);
            rq = ParseRequestCacheControl (strip_crlf (header_get (ht_header r) ''Cache-Control'')) rq0;
            p1 = p\<lparr>cl_rqs := pool_put (cc_Reset rq) rqs\<rparr> in
        if cr_no_cache rq then (let (w1, res) = run_writer (nxt r) w in (p1, w1, res))
        else if ht_method r = ''GET''
        then
          let (wr0, wrs) = pool_get new_cwriter j (cl_writers p);
              (s, w1, res) = handleGET E ops ord nxt now wr0 rq r (cl_cache p) w in
          (p1\<lparr>cl_cache := s, cl_writers := pool_put (reset_cwriter wr0) wrs\<rparr>, w1, res)
        else (let (w1, res) = run_writer (nxt r) w in (p1, w1, res)))"

interpretation cc_pool: clean_pool zero_cc cc_Reset
  by unfold_locales (simp add: zero_cc_def cc_Reset_def)

section \<open>What is stored and what is replayed\<close>

text \<open>The data a captured response carries: the last chunk the handler wrote.\<close>

fun last_body :: "bytes \<Rightarrow> w_act list \<Rightarrow> bytes" where
  "last_body d [] = d"
| "last_body d (Act_body b # as) = last_body b as"
| "last_body d (_ # as) = last_body d as"

lemma run_cwriter_data: "cw_data (run_cwriter as w) = last_body (cw_data w) as"
  by (induction as w rule: run_cwriter.induct) auto

text \<open>The loops over a header visit its keys.\<close>

definition header_orders :: "(header \<Rightarrow> string list) \<Rightarrow> bool" where
  "header_orders ord \<longleftrightarrow> (\<forall>h. finite (dom h) \<longrightarrow> set (ord h) = dom h)"

lemma header_orders_sorted: "header_orders (\<lambda>h. sorted_list_of_set (dom h))"
  by (simp add: header_orders_def)

lemma header_orders_empty: "header_orders ord \<Longrightarrow> ord Map.empty = []"
proof -
  assume "header_orders ord"
  then have "set (ord Map.empty) = dom (Map.empty :: header)" unfolding header_orders_def by (metis finite.emptyI dom_empty)
  then show ?thesis by simp
qed

lemma run_cwriter_finite: "finite (dom (cw_hdr w)) \<Longrightarrow> finite (dom (cw_hdr (run_cwriter as w)))"
  by (induction as w rule: run_cwriter.induct) (simp_all add: header_add_def header_set_def)

text \<open>Decoding undoes encoding, on the responses that are stored.\<close>

definition cache_codec :: "cache_env \<Rightarrow> bool" where
  "cache_codec E \<longleftrightarrow> (\<forall>body t. t \<le> max_instant \<longrightarrow>
     (let p = \<lparr>cp_code = 200, cp_headers = Map.empty, cp_data = body, cp_time = fmt_utc t\<rparr> in
      \<exists>d. ce_encode E p = Ok d \<and> ce_decode E d = Ok p))"


definition sample_cache_env :: cache_env where
  "sample_cache_env = \<lparr>ce_encode = (\<lambda>p. Ok (cp_time p @ cp_data p)),
     ce_decode = (\<lambda>d. Ok \<lparr>cp_code = 200, cp_headers = Map.empty, cp_data = drop 20 d, cp_time = take 20 d\<rparr>), ce_uri = ht_url\<rparr>"

lemma sample_cache_codec: "cache_codec sample_cache_env"
proof -
  have "length (fmt_utc t) = 20" for t by (simp add: fmt_utc_def Let_def)
  then show ?thesis by (simp add: cache_codec_def sample_cache_env_def Let_def)
qed


text \<open>
  A response with any header value is never stored: with status 200 the request ends in a panic after
  the response was written, since the elements of the new header map are nil.
\<close>

theorem cache_headers_panic:
  assumes "ca_get ops (fnv64a (ce_uri E r)) s = Err (Kind EmptyItem)" "header_orders ord"
    and "run_cwriter (nxt r) new_cwriter = wr" "cw_code wr = 200" "cw_hdr wr k = Some vs" "vs \<noteq> []"
  shows "\<exists>w'. handleGET E ops ord nxt now new_cwriter rq r s new_writer = (s, w', Panic) \<and> wr_status w' = Some 200 \<and> wr_body w' = cw_data wr"
proof -
  obtain w1 where w1: "writeResponse (ord (cw_hdr wr)) wr new_writer = (w1, Ok ())" "wr_status w1 = Some 200" "wr_body w1 = cw_data wr"
    by (simp add: writeResponse_def assms(4) copy_response_def copy_headers_def new_writer_def WriteHeader_def w_Write_def Let_def)
  have "finite (dom (cw_hdr wr))" using run_cwriter_finite [of new_cwriter "nxt r"] unfolding assms(3) by (simp add: new_cwriter_def)
  then have "k \<in> set (ord (cw_hdr wr))" using assms(2,5) unfolding header_orders_def by blast
  then have "list_ex (\<lambda>k. values_of (cw_hdr wr) k \<noteq> []) (ord (cw_hdr wr))"
    using assms(5,6) by (auto simp: list_ex_iff values_of_def intro!: bexI [of _ k])
  with w1 show ?thesis
    by (simp add: handleGET_def Let_def assms(1) cache_miss_def assms(3) writeCache_def assms(4))
qed

theorem cache_headers_panic_witness:
  "let ord = (\<lambda>h. sorted_list_of_set (dom h)); nxt = (\<lambda>_. [Act_add ''X'' ''1'', Act_status 200, Act_body ''hi'']) in
   \<exists>w'. handleGET sample_cache_env mc_ops ord nxt 7 new_cwriter zero_cc sample_get \<lparr>mc_data = Map.empty\<rparr> new_writer =
       (\<lparr>mc_data = Map.empty\<rparr>, w', Panic) \<and> wr_body w' = ''hi''"
proof -
  have get: "ca_get mc_ops (fnv64a (ce_uri sample_cache_env sample_get)) \<lparr>mc_data = Map.empty\<rparr> = Err (Kind EmptyItem)"
    by (simp add: mc_ops_def mc_Get_def)
  have run: "run_cwriter ((\<lambda>_. [Act_add ''X'' ''1'', Act_status 200, Act_body ''hi'']) sample_get) new_cwriter =
      \<lparr>cw_code = 200, cw_data = ''hi'', cw_hdr = [canonical_key ''X'' \<mapsto> [''1'']]\<rparr>"
    by (simp add: new_cwriter_def header_add_def)
  show ?thesis
    unfolding Let_def
    using cache_headers_panic [OF get header_orders_sorted run, of "canonical_key ''X''" "[''1'']" 7 zero_cc] by auto
qed

section \<open>Request metrics\<close>

text \<open>The gauge of running requests, the counters by status, and the pooled writers with their code.\<close>

record prom =
  pm_queue :: int
  pm_no_workers :: nat
  pm_requests :: "int \<Rightarrow> nat"
  pm_writers :: "int list"

text \<open>The status the wrapping writer has seen: the last one written, -1 for none.\<close>

fun written_code :: "w_act list \<Rightarrow> int \<Rightarrow> int" where
  "written_code [] c = c"
| "written_code (Act_status n # as) c = written_code as n"
| "written_code (_ # as) c = written_code as c"

text \<open>A handler that panics leaves the gauge raised; the writer is put back by a deferred call.\<close>

definition prom_Middleware :: "nat \<Rightarrow> next_handler \<Rightarrow> http_request \<Rightarrow> prom \<Rightarrow> writer \<Rightarrow> prom \<times> writer \<times> unit res" where
  "prom_Middleware i nxt r p w =
     (let (code0, rest) = pool_get (-1) i (pm_writers p);
          p1 = p\<lparr>pm_queue := pm_queue p + 1, pm_writers := pool_put (-1) rest\<rparr>;
          (w1, res) = run_writer (nxt r) w in
      if res \<noteq> Ok () then (p1, w1, res)
      else
        let code = written_code (nxt r) code0;
            p2 = (if header_get (wr_header w1) ''No-Workers'' = ''true'' then p1\<lparr>pm_no_workers := Suc (pm_no_workers p1)\<rparr> else p1) in
        (p2\<lparr>pm_requests := (pm_requests p2)(code := Suc (pm_requests p2 code)), pm_queue := pm_queue p2 - 1\<rparr>, w1, Ok ()))"

text \<open>A request that returns leaves the gauge as it was and is counted once, under the status it wrote.\<close>

lemma prom_counts:
  assumes "clean (-1) (pm_writers p)" "run_writer (nxt r) w = (w1, Ok ())"
  shows "\<exists>p'. prom_Middleware i nxt r p w = (p', w1, Ok ()) \<and> pm_queue p' = pm_queue p \<and> clean (-1) (pm_writers p')
    \<and> pm_requests p' = (pm_requests p)(written_code (nxt r) (-1) := Suc (pm_requests p (written_code (nxt r) (-1))))"
proof -
  obtain c rest where g: "pool_get (-1) i (pm_writers p) = (c, rest)" by fastforce
  from pool_get_clean [OF assms(1) g] have "c = -1" "clean (-1) rest" by auto
  then show ?thesis using assms(2) by (simp add: prom_Middleware_def g Let_def pool_put_def clean_def)
qed

end
