(* ===== verification/Http_Plugin.thy ===== *)
theory Http_Plugin
  imports Http_Mw
begin

text \<open>
  The HTTP plugin (\<open>http/plugin.go\<close>, \<open>http/serve.go\<close>, \<open>http/http.go\<close>, \<open>http/ssl.go\<close>, \<open>http/metrics.go\<close>):
  initialisation, the servers it starts, the chain of middlewares, the redirect to TLS, the handler of a
  request, status and readiness.  The servers of \<open>net/http\<close>, the worker pool and the certificates are
  arguments.
\<close>

section \<open>Addresses and redirects\<close>

definition tlsAddr :: "ssl_config \<Rightarrow> string \<Rightarrow> bool \<Rightarrow> string" where
  "tlsAddr ssl host0 forcePort =
     (let host = hd (split_byte CHR '':'' host0) in
      if forcePort \<or> ssl_port ssl \<noteq> 443 then host @ '':'' @ itoa (ssl_port ssl) else host)"

text \<open>\<open>url.URL.String\<close> for a host and a path: the path is escaped byte by byte.\<close>

definition hex_digit :: "nat \<Rightarrow> char" where
  "hex_digit n = (if n < 10 then char_of (48 + n) else char_of (55 + n))"

definition escape_path_byte :: "char \<Rightarrow> string" where
  "escape_path_byte c =
     (let n = (of_char c :: nat) in
      if 48 \<le> n \<and> n \<le> 57 \<or> 65 \<le> n \<and> n \<le> 90 \<or> 97 \<le> n \<and> n \<le> 122 \<or> c \<in> set ''-_.~$&+,/:;=@'' then [c]
      else [CHR 0x25, hex_digit (n div 16), hex_digit (n mod 16)])"

definition https_url :: "string \<Rightarrow> string \<Rightarrow> string \<Rightarrow> string" where
  "https_url host path query =
     ''https://'' @ host @
     (if path \<noteq> [] \<and> hd path \<noteq> CHR ''/'' \<and> host \<noteq> [] then ''/'' else []) @
     concat (map escape_path_byte path) @ (if query = [] then [] else CHR ''?'' # query)"

text \<open>\<open>http.Redirect\<close> with status 308; the short HTML body it adds for a GET request is left out.\<close>

definition redirect :: "ssl_config \<Rightarrow> string \<Rightarrow> http_request \<Rightarrow> writer \<Rightarrow> writer" where
  "redirect ssl path r w =
     fst (WriteHeader 308 (w\<lparr>wr_header := header_set ''Location''
       (https_url (tlsAddr ssl (ht_host r) False) path (ht_query r)) (wr_header w)\<rparr>))"

definition headerContainsUpgrade :: "http_request \<Rightarrow> bool" where
  "headerContainsUpgrade r \<longleftrightarrow> ht_header r ''Upgrade'' \<noteq> None"

section \<open>Middlewares\<close>

text \<open>The loop from the last name of the order to the first; an unknown name is only logged.\<close>

definition apply_one :: "(string \<rightharpoonup> ('h \<Rightarrow> 'h)) \<Rightarrow> string \<Rightarrow> 'h \<Rightarrow> 'h" where
  "apply_one mws name h = (case mws name of Some mw \<Rightarrow> mw h | None \<Rightarrow> h)"

definition applyMiddlewares :: "(string \<rightharpoonup> ('h \<Rightarrow> 'h)) \<Rightarrow> string list \<Rightarrow> 'h \<Rightarrow> 'h" where
  "applyMiddlewares mws order h = fold (apply_one mws) (rev order) h"

section \<open>The plugin\<close>

datatype worker_state = Ready | Working | Inactive

definition is_active :: "worker_state \<Rightarrow> bool" where
  "is_active s \<longleftrightarrow> s = Ready \<or> s = Working"

text \<open>\<open>hp_https\<close> says that the TLS server exists; \<open>hp_pool\<close> is nil until the plugin serves.\<close>

record 'h http_plugin =
  hp_cfg :: http_config
  hp_env :: "string \<rightharpoonup> string"
  hp_order :: "string list"
  hp_mdwr :: "string \<rightharpoonup> ('h \<Rightarrow> 'h)"
  hp_pool :: "worker_state list option"
  hp_http :: bool
  hp_https :: bool
  hp_fcgi :: bool

definition http_Init ::
  "(http_config \<Rightarrow> http_config \<times> unit res) \<Rightarrow> (http_config \<times> string list \<times> (string \<rightharpoonup> string)) res option \<Rightarrow> 'h http_plugin res"
where
  "http_Init defaults cfg =
     (let op = ''http_plugin_init'' in
      case cfg of
        None \<Rightarrow> Err (EOp op (Kind Disabled))
      | Some (Ok (c0, order, env)) \<Rightarrow>
          (case defaults c0 of
             (c, Ok _) \<Rightarrow>
               if \<not> EnableHTTP c \<and> \<not> EnableTLS c \<and> \<not> EnableFCGI c then Err (EOp op (Kind Disabled))
               else Ok \<lparr>hp_cfg = c, hp_env = env(''RR_MODE'' \<mapsto> ''http''), hp_order = order, hp_mdwr = Map.empty,
                        hp_pool = None, hp_http = False, hp_https = False, hp_fcgi = False\<rparr>
           | (c, Err e) \<Rightarrow> Err (EOp op e)
           | (c, Panic) \<Rightarrow> Panic
           | (c, Block) \<Rightarrow> Block)
      | Some (Err e) \<Rightarrow> Err (EOp op e)
      | Some Panic \<Rightarrow> Panic
      | Some Block \<Rightarrow> Block)"

definition AddMiddleware :: "string \<Rightarrow> ('h \<Rightarrow> 'h) \<Rightarrow> 'h http_plugin \<Rightarrow> 'h http_plugin" where
  "AddMiddleware name mw p = p\<lparr>hp_mdwr := (hp_mdwr p)(name \<mapsto> mw)\<rparr>"

text \<open>
  \<open>serve\<close>: the pool, the handler, the certificates and the HTTP/2 configuration may fail, which ends it
  with the error on the channel (\<open>Some e\<close>) and without the servers that would have come after.
\<close>

record serve_env =
  sr_pool :: "worker_state list res"
  sr_handler :: "unit res"
  sr_root_ca :: "unit res"
  sr_acme :: "unit res"
  sr_http2 :: "unit res"

definition tls_setup :: "serve_env \<Rightarrow> http_config \<Rightarrow> unit res" where
  "tls_setup E c =
     (case hc_ssl c of
        None \<Rightarrow> Ok ()
      | Some ssl \<Rightarrow>
          (if ssl_root_ca ssl \<noteq> [] \<and> sr_root_ca E \<noteq> Ok () then sr_root_ca E
           else if EnableACME c \<and> sr_acme E \<noteq> Ok () then sr_acme E
           else if hc_http2 c \<noteq> None then sr_http2 E
           else Ok ()))"

definition http_serve :: "serve_env \<Rightarrow> 'h http_plugin \<Rightarrow> 'h http_plugin \<times> unit res" where
  "http_serve E p =
     (case sr_pool E of
        Ok ws \<Rightarrow>
          (let c = hp_cfg p; p1 = p\<lparr>hp_pool := Some ws\<rparr> in
           if sr_handler E \<noteq> Ok () then (p1, sr_handler E)
           else
             let p2 = p1\<lparr>hp_http := EnableHTTP c\<rparr>;
                 p3 = p2\<lparr>hp_https := EnableTLS c\<rparr> in
             if EnableTLS c \<and> tls_setup E c \<noteq> Ok () then (p3, tls_setup E c)
             else (p3\<lparr>hp_fcgi := EnableFCGI c\<rparr>, Ok ()))
      | Err e \<Rightarrow> (p, Err e)
      | Panic \<Rightarrow> (p, Panic)
      | Block \<Rightarrow> (p, Block))"

text \<open>
  The chain of a server: the middlewares around the plugin's own handler.  \<open>hijacked\<close> says that the
  connection of an upgraded request was taken over; \<open>inner\<close> is the handler of \<open>http/handler\<close>, run on the
  request with its attributes.
\<close>

definition plugin_ServeHTTP ::
  "'h http_plugin \<Rightarrow> bool \<Rightarrow> string \<Rightarrow> (http_request \<Rightarrow> writer \<Rightarrow> writer \<times> unit res) \<Rightarrow> http_request \<Rightarrow> writer \<Rightarrow> writer \<times> unit res"
where
  "plugin_ServeHTTP p hijacked path inner r w =
     (if headerContainsUpgrade r
      then (if hijacked then (w, Ok ()) else (http_Error ''server does not support upgrade header'' 500 (w_Write [] w), Ok ()))
      else case hc_ssl (hp_cfg p) of
          Some ssl \<Rightarrow>
            if hp_https p \<and> \<not> ht_tls r \<and> ssl_redirect ssl
            then (redirect ssl path r (w\<lparr>wr_header := header_add ''Strict-Transport-Security''
                    ''max-age=31536000; includeSubDomains; preload'' (wr_header w)\<rparr>), Ok ())
            else inner (if ht_attributes r = None then r\<lparr>ht_attributes := Some Map.empty\<rparr> else r) w
        | None \<Rightarrow> inner (if ht_attributes r = None then r\<lparr>ht_attributes := Some Map.empty\<rparr> else r) w)"

definition server_handler ::
  "(http_request \<Rightarrow> writer \<Rightarrow> writer \<times> unit res) http_plugin \<Rightarrow> bool \<Rightarrow> string \<Rightarrow>
   (http_request \<Rightarrow> writer \<Rightarrow> writer \<times> unit res) \<Rightarrow> http_request \<Rightarrow> writer \<Rightarrow> writer \<times> unit res"
where
  "server_handler p hijacked path inner = applyMiddlewares (hp_mdwr p) (hp_order p) (plugin_ServeHTTP p hijacked path inner)"

definition http_Reset :: "unit res \<Rightarrow> 'h http_plugin \<Rightarrow> unit res" where
  "http_Reset r p = (case hp_pool p of None \<Rightarrow> Ok () | Some ws \<Rightarrow> wrap ''http_plugin_reset'' r)"

definition plugin_workers :: "'h http_plugin \<Rightarrow> worker_state list" where
  "plugin_workers p = (case hp_pool p of None \<Rightarrow> [] | Some ws \<Rightarrow> ws)"

definition http_Status :: "'h http_plugin \<Rightarrow> int" where
  "http_Status p = (if list_ex is_active (plugin_workers p) then 200 else 503)"

definition http_Ready :: "'h http_plugin \<Rightarrow> int" where
  "http_Ready p = (if Ready \<in> set (plugin_workers p) then 200 else 503)"

text \<open>\<open>statsExporter.Collect\<close>: the memory of the workers, summed in 64 bits.\<close>

definition collect_memory :: "u64 list \<Rightarrow> u64" where
  "collect_memory ms = fold (\<lambda>m cum. cum + m) ms 0"

section \<open>Properties\<close>

text \<open>The first name of the order is the outermost middleware.\<close>

lemma applyMiddlewares_Cons: "applyMiddlewares mws (n # ns) h = apply_one mws n (applyMiddlewares mws ns h)"
  by (simp add: applyMiddlewares_def)

lemma applyMiddlewares_append:
  "applyMiddlewares mws (ns @ ns') h = applyMiddlewares mws ns (applyMiddlewares mws ns' h)"
  by (simp add: applyMiddlewares_def)

lemma http_Ready_Status: "http_Ready p = 200 \<Longrightarrow> http_Status p = 200"
  by (auto simp: http_Ready_def http_Status_def list_ex_iff is_active_def split: if_splits)

lemma hd_split_byte: "c \<notin> set h \<Longrightarrow> hd (split_byte c (h @ c # s)) = h" "c \<notin> set h \<Longrightarrow> hd (split_byte c h) = h"
proof -
  show "c \<notin> set h \<Longrightarrow> hd (split_byte c (h @ c # s)) = h"
    by (induction h) (auto split: list.split)
  show "c \<notin> set h \<Longrightarrow> hd (split_byte c h) = h"
    by (induction h) (auto split: list.split)
qed

text \<open>
  With the redirect on, a plain request without an upgrade is answered with status 308 and, whatever
  its port was, the same host, path and query at the TLS port, which is left out when it is 443; the
  worker never sees the request.
\<close>

lemma http_redirects:
  assumes "hc_ssl (hp_cfg p) = Some ssl" "ssl_redirect ssl" "hp_https p" "\<not> ht_tls r" "ht_header r ''Upgrade'' = None"
    and "ht_host r = h @ rest" "CHR '':'' \<notin> set h" "rest = [] \<or> hd rest = CHR '':''"
  shows "\<exists>w'. plugin_ServeHTTP p hj path inner r new_writer = (w', Ok ()) \<and> wr_status w' = Some 308 \<and> wr_body w' = []
    \<and> wr_header w' (canonical_key ''Location'') =
        Some [https_url (if ssl_port ssl = 443 then h else h @ '':'' @ itoa (ssl_port ssl)) path (ht_query r)]"
proof -
  have "hd (split_byte CHR '':'' (ht_host r)) = h"
    using assms(6-8) hd_split_byte [of "CHR '':''" h] by (cases rest) auto
  then have "tlsAddr ssl (ht_host r) False = (if ssl_port ssl = 443 then h else h @ '':'' @ itoa (ssl_port ssl))"
    by (simp add: tlsAddr_def Let_def)
  then show ?thesis
    using assms(1-5)
    by (simp add: plugin_ServeHTTP_def headerContainsUpgrade_def redirect_def WriteHeader_def new_writer_def header_set_def)
qed

text \<open>The address of an IPv6 literal is cut at its first colon.\<close>

lemma tlsAddr_ipv6: "tlsAddr ssl ''[::1]:8080'' True = ''[:'' @ itoa (ssl_port ssl)"
  by (simp add: tlsAddr_def)

end
