(* ===== verification/Grpc.thy ===== *)
theory Grpc
  imports Go_Lib
begin

text \<open>
  The gRPC plugin (\<open>grpc\<close>): the reader of proto files, the proxy that turns a call into a payload and
  its result into a response, the raw codec, and the configuration with the options of the server.

  The proto parser, the workers, JSON, protobuf and the OS are not part of the repository: a proto file
  is its list of elements or the error of opening or parsing it, the rest are arguments.
\<close>

section \<open>Proto files\<close>

record rpc_method =
  me_name :: string
  me_streams_req :: bool
  me_request :: string
  me_streams_ret :: bool
  me_returns :: string

datatype service_elem = Rpc rpc_method | Service_other

datatype proto_elem =
    Package string
  | Service string "service_elem list"
  | Import string
  | Proto_other

record grpc_service =
  sv_package :: string
  sv_name :: string
  sv_methods :: "rpc_method list"

definition parseMethods :: "service_elem list \<Rightarrow> rpc_method list" where
  "parseMethods es = concat (map (\<lambda>e. case e of Rpc m \<Rightarrow> [m] | Service_other \<Rightarrow> []) es)"

fun parsePackage :: "proto_elem list \<Rightarrow> string" where
  "parsePackage [] = []"
| "parsePackage (Package n # es) = n"
| "parsePackage (_ # es) = parsePackage es"

text \<open>The two walks of \<open>parseServices\<close>: the services of the file, and the files it imports.\<close>

definition own_services :: "proto_elem list \<Rightarrow> grpc_service list" where
  "own_services p =
     concat (map (\<lambda>e. case e of
         Service n es \<Rightarrow> [\<lparr>sv_package = parsePackage p, sv_name = n, sv_methods = parseMethods es\<rparr>]
       | _ \<Rightarrow> []) p)"

definition import_files :: "string \<Rightarrow> proto_elem list \<Rightarrow> string list" where
  "import_files ip p = concat (map (\<lambda>e. case e of Import f \<Rightarrow> [ip @ ''/'' @ f] | _ \<Rightarrow> []) p)"

text \<open>
  \<open>File\<close>, \<open>parse\<close> and \<open>parseServices\<close> call each other along the imports, without remembering what they
  have seen, so that they need not return: the value is then \<open>None\<close>.  \<open>parse_imports\<close> is the second walk
  on a list of imported files; a file that cannot be opened or parsed is skipped there.
\<close>

partial_function (option) parse_imports ::
  "(string \<Rightarrow> proto_elem list res) \<Rightarrow> string \<Rightarrow> string list \<Rightarrow> grpc_service list option"
where
  "parse_imports fs ip files =
     (case files of
        [] \<Rightarrow> Some []
      | f # rest \<Rightarrow>
          (case fs f of
             Ok p \<Rightarrow>
               Option.bind (parse_imports fs ip (import_files ip p)) (\<lambda>a.
               Option.bind (parse_imports fs ip rest) (\<lambda>b. Some (own_services p @ a @ b)))
           | _ \<Rightarrow> parse_imports fs ip rest))"

definition parseServices ::
  "(string \<Rightarrow> proto_elem list res) \<Rightarrow> string \<Rightarrow> proto_elem list \<Rightarrow> grpc_service list option"
where
  "parseServices fs ip p = map_option (\<lambda>ss. own_services p @ ss) (parse_imports fs ip (import_files ip p))"

definition proto_parse ::
  "(string \<Rightarrow> proto_elem list res) \<Rightarrow> string \<Rightarrow> proto_elem list res \<Rightarrow> grpc_service list res option"
where
  "proto_parse fs ip parsed =
     (case parsed of
        Ok p \<Rightarrow> map_option Ok (parseServices fs ip p)
      | Err e \<Rightarrow> Some (Err e)
      | Panic \<Rightarrow> Some Panic
      | Block \<Rightarrow> Some Block)"

definition parse_file ::
  "(string \<Rightarrow> proto_elem list res) \<Rightarrow> string \<Rightarrow> string \<Rightarrow> grpc_service list res option"
where
  "parse_file fs ip f = proto_parse fs ip (fs f)"

definition parse_bytes ::
  "(string \<Rightarrow> proto_elem list res) \<Rightarrow> proto_elem list res \<Rightarrow> grpc_service list res option"
where
  "parse_bytes fs data = proto_parse fs [] data"

section \<open>The codec\<close>

text \<open>A value is a raw message or something the base codec knows.\<close>

datatype 'v grpc_value = RawMessage bytes | Other 'v

definition codec_Marshal :: "('v \<Rightarrow> bytes res) \<Rightarrow> 'v grpc_value \<Rightarrow> bytes res" where
  "codec_Marshal base v = (case v of RawMessage r \<Rightarrow> Ok r | Other x \<Rightarrow> base x)"

text \<open>The second argument is the target of the decoding, the value of the result its new content.\<close>

definition codec_Unmarshal :: "(bytes \<Rightarrow> 'v \<Rightarrow> 'v res) \<Rightarrow> bytes \<Rightarrow> 'v grpc_value \<Rightarrow> 'v grpc_value res" where
  "codec_Unmarshal base d v = (case v of RawMessage r \<Rightarrow> Ok (RawMessage d) | Other x \<Rightarrow> map_res Other (base d x))"

section \<open>The proxy\<close>

record proxy =
  px_name :: string
  px_metadata :: string
  px_methods :: "string list"
  px_plds :: "payload list"

definition NewProxy :: "string \<Rightarrow> string \<Rightarrow> proxy" where
  "NewProxy name md = \<lparr>px_name = name, px_metadata = md, px_methods = [], px_plds = []\<rparr>"

definition RegisterMethod :: "string \<Rightarrow> proxy \<Rightarrow> proxy" where
  "RegisterMethod mt p = p\<lparr>px_methods := px_methods p @ [mt]\<rparr>"

text \<open>
  The context of a call: the incoming metadata and the peer, with its authentication type, when there
  are such.
\<close>

record call_ctx =
  cx_metadata :: "(string \<rightharpoonup> string list) option"
  cx_peer :: "(string \<times> string option) option"

datatype grpc_status = Status nat string "bytes list" | Plain error

record grpc_env =
  ge_context :: "string \<Rightarrow> string \<Rightarrow> (string \<rightharpoonup> string list) \<Rightarrow> bytes res"
  ge_exec :: "payload \<Rightarrow> payload res"
  ge_metadata :: "bytes \<Rightarrow> (string \<rightharpoonup> string) res"
  ge_set_header :: "(string \<rightharpoonup> string) option \<Rightarrow> unit res"
  ge_any :: "bytes \<Rightarrow> bool"
  ge_text :: "error \<Rightarrow> string"

definition delimiter :: string where
  "delimiter = ''|:|''"

text \<open>
  \<open>wrapError\<close>: the text of an error of the form \<open>code|:|message|:|detail...\<close> is the status it names; the
  details that are not an \<open>Any\<close> message are left out.  The code is a 32-bit number.
\<close>

definition codes_Internal :: nat where
  "codes_Internal = 13"

definition wrapError :: "grpc_env \<Rightarrow> error \<Rightarrow> grpc_status" where
  "wrapError E err =
     (let text = ge_text E err in
      if contains text delimiter
      then
        let chunks = split_str delimiter text in
        if length chunks < 2 then Plain err
        else case parse_uint (chunks ! 0) of
            None \<Rightarrow> Plain err
          | Some phpCode \<Rightarrow>
              if 2 ^ 32 \<le> phpCode then Plain err
              else Status (if 0 < phpCode \<and> phpCode < 2 ^ 32 - 1 then phpCode else codes_Internal)
                     (chunks ! 1) (filter (ge_any E) (drop 2 chunks))
      else Status codes_Internal text [])"

datatype 'a call_result = Reply 'a | Failed grpc_status | Call_panic | Call_block

definition px_zero :: payload where
  "px_zero = \<lparr>pld_body = [], pld_context = [], pld_codec = CODEC_JSON\<rparr>"

definition getPld :: "nat \<Rightarrow> proxy \<Rightarrow> payload \<times> proxy" where
  "getPld i p = (let (pld, rest) = pool_get px_zero i (px_plds p) in (pld\<lparr>pld_codec := CODEC_JSON\<rparr>, p\<lparr>px_plds := rest\<rparr>))"

definition px_reset :: "payload \<Rightarrow> payload" where
  "px_reset pld = pld\<lparr>pld_body := [], pld_context := []\<rparr>"

definition putPld :: "payload \<Rightarrow> proxy \<Rightarrow> proxy" where
  "putPld pld p = p\<lparr>px_plds := pool_put (px_reset pld) (px_plds p)\<rparr>"

definition call_metadata :: "call_ctx \<Rightarrow> string \<rightharpoonup> string list" where
  "call_metadata cx =
     (let md = (case cx_metadata cx of None \<Rightarrow> Map.empty | Some md \<Rightarrow> md) in
      case cx_peer cx of
        None \<Rightarrow> md
      | Some (addr, auth) \<Rightarrow>
          (let md1 = md('':peer.address'' \<mapsto> [addr]) in
           case auth of None \<Rightarrow> md1 | Some a \<Rightarrow> md1('':peer.auth-type'' \<mapsto> [a])))"

definition makePayload :: "grpc_env \<Rightarrow> call_ctx \<Rightarrow> string \<Rightarrow> string \<Rightarrow> bytes \<Rightarrow> payload \<Rightarrow> payload \<times> unit res" where
  "makePayload E cx name mt body pld =
     (case ge_context E name mt (call_metadata cx) of
        Ok d \<Rightarrow> (pld\<lparr>pld_body := body, pld_context := d\<rparr>, Ok ())
      | Err e \<Rightarrow> (pld, Err e)
      | Panic \<Rightarrow> (pld, Panic)
      | Block \<Rightarrow> (pld, Block))"

text \<open>A nil metadata and an empty one are both \<open>None\<close>; the metadata of an empty map is nil as well.\<close>

definition responseMetadata :: "grpc_env \<Rightarrow> payload \<Rightarrow> (string \<rightharpoonup> string) option res" where
  "responseMetadata E resp =
     (if pld_context resp = [] then Ok None
      else map_res (\<lambda>md. if md = Map.empty then None else Some md) (ge_metadata E (pld_context resp)))"

definition res_call :: "(error \<Rightarrow> grpc_status) \<Rightarrow> 'a res \<Rightarrow> ('a \<Rightarrow> 'b call_result) \<Rightarrow> 'b call_result" where
  "res_call f r k = (case r of Ok a \<Rightarrow> k a | Err e \<Rightarrow> Failed (f e) | Panic \<Rightarrow> Call_panic | Block \<Rightarrow> Call_block)"

definition px_invoke :: "grpc_env \<Rightarrow> nat \<Rightarrow> call_ctx \<Rightarrow> string \<Rightarrow> bytes \<Rightarrow> proxy \<Rightarrow> proxy \<times> bytes call_result" where
  "px_invoke E i cx mt body p =
     (let (pld0, p1) = getPld i p;
          (pld, r) = makePayload E cx (px_name p) mt body pld0 in
      (putPld pld p1,
       res_call Plain r (\<lambda>_.
       res_call (wrapError E) (ge_exec E pld) (\<lambda>resp.
       res_call Plain (responseMetadata E resp) (\<lambda>md.
       res_call Plain (ge_set_header E md) (\<lambda>_. Reply (pld_body resp)))))))"

text \<open>
  The handler of a method: \<open>dec\<close> is the result of decoding the request into a raw message.  The
  interceptor of the plugin only logs, so that both branches invoke the method.
\<close>

definition methodHandler ::
  "grpc_env \<Rightarrow> nat \<Rightarrow> call_ctx \<Rightarrow> string \<Rightarrow> bytes res \<Rightarrow> proxy \<Rightarrow> proxy \<times> bytes call_result"
where
  "methodHandler E i cx mt dec p =
     (case dec of
        Ok body \<Rightarrow> px_invoke E i cx mt body p
      | Err e \<Rightarrow> (p, Failed (wrapError E e))
      | Panic \<Rightarrow> (p, Call_panic)
      | Block \<Rightarrow> (p, Call_block))"

section \<open>Reading the proto files returns exactly when the imports have no cycle\<close>

definition imports_file :: "(string \<Rightarrow> proto_elem list res) \<Rightarrow> string \<Rightarrow> string \<Rightarrow> string \<Rightarrow> bool" where
  "imports_file fs ip f g \<longleftrightarrow> (\<exists>p. fs f = Ok p \<and> g \<in> set (import_files ip p))"

lemma imports_returns:
  assumes "\<forall>f \<in> set files. Wellfounded.accp (\<lambda>g f. imports_file fs ip f g) f"
  shows "\<exists>ss. parse_imports fs ip files = Some ss"
proof -
  have one: "\<forall>rest ss. parse_imports fs ip rest = Some ss \<longrightarrow> (\<exists>ss'. parse_imports fs ip (f # rest) = Some ss')"
    if "Wellfounded.accp (\<lambda>g f. imports_file fs ip f g) f" for f
    using that
  proof (induction rule: accp.induct)
    case (accI f)
    have all: "\<exists>ss. parse_imports fs ip l = Some ss" if "fs f = Ok p" "set l \<subseteq> set (import_files ip p)" for p l
      using that(2)
    proof (induction l)
      case (Cons g l)
      then have "imports_file fs ip f g" using that(1) by (auto simp: imports_file_def)
      with accI.IH Cons show ?case by auto
    qed (simp add: parse_imports.simps)
    show ?case
    proof (cases "fs f")
      case (Ok p)
      with all obtain a where "parse_imports fs ip (import_files ip p) = Some a" by blast
      with Ok show ?thesis by (subst parse_imports.simps) (auto simp: parse_imports.simps [of fs ip "f # _"])
    qed (auto simp: parse_imports.simps [of fs ip "f # _"])
  qed
  from assms show ?thesis
  proof (induction files)
    case (Cons f files)
    then show ?case using one [of f] by auto
  qed (simp add: parse_imports.simps)
qed

lemma returns_accp:
  assumes "parse_imports fs ip files = Some ss"
  shows "\<forall>f \<in> set files. Wellfounded.accp (\<lambda>g f. imports_file fs ip f g) f"
proof (rule parse_imports.raw_induct [where P = "\<lambda>fs ip files ss. \<forall>f \<in> set files. Wellfounded.accp (\<lambda>g f. imports_file fs ip f g) f", OF _ assms])
  fix F fs ip files ss
  assume IH: "\<And>fs ip files ss. F fs ip files = Some ss \<Longrightarrow> \<forall>f \<in> set files. Wellfounded.accp (\<lambda>g f. imports_file fs ip f g) f"
    and eq: "(case files of [] \<Rightarrow> Some [] | f # rest \<Rightarrow>
        (case fs f of Ok p \<Rightarrow> Option.bind (F fs ip (import_files ip p)) (\<lambda>a. Option.bind (F fs ip rest) (\<lambda>b. Some (own_services p @ a @ b)))
         | _ \<Rightarrow> F fs ip rest)) = Some (ss :: grpc_service list)"
  show "\<forall>f \<in> set files. Wellfounded.accp (\<lambda>g f. imports_file fs ip f g) f"
  proof (cases files)
    case (Cons f rest)
    show ?thesis
    proof (cases "fs f")
      case (Ok p)
      with eq Cons obtain a b where ab: "F fs ip (import_files ip p) = Some a" "F fs ip rest = Some b"
        by (auto simp: bind_eq_Some_conv)
      have "Wellfounded.accp (\<lambda>g f. imports_file fs ip f g) f"
        by (rule accp.accI) (use IH [OF ab(1)] Ok in \<open>auto simp: imports_file_def\<close>)
      with IH [OF ab(2)] Cons show ?thesis by simp
    qed (use eq Cons IH in \<open>auto simp: imports_file_def intro: accp.accI\<close>)
  qed simp
qed

lemma accp_acyclic:
  assumes "Wellfounded.accp (\<lambda>g f. R f g) f" "R\<^sup>*\<^sup>* f g"
  shows "\<not> R\<^sup>+\<^sup>+ g g"
proof -
  have down: "Wellfounded.accp (\<lambda>g f. R f g) g" using assms(2,1)
    by (induction rule: rtranclp_induct) (auto dest: accp_downward)
  then show ?thesis
  proof (induction rule: accp.induct)
    case (accI g)
    show ?case
    proof
      assume "R\<^sup>+\<^sup>+ g g"
      then obtain h where h: "R g h" "R\<^sup>*\<^sup>* h g" by (auto dest: tranclpD)
      then have "R\<^sup>+\<^sup>+ h h" by (auto intro: rtranclp_into_tranclp1)
      with accI.IH h(1) show False by blast
    qed
  qed
qed

lemma acyclic_accp:
  assumes fin: "finite {(x, y). R x y}" and acyc: "\<And>g. R\<^sup>*\<^sup>* f g \<Longrightarrow> \<not> R\<^sup>+\<^sup>+ g g"
  shows "Wellfounded.accp (\<lambda>g f. R f g) f"
proof -
  let ?r = "{(y, x). R x y \<and> R\<^sup>*\<^sup>* f x}"
  have "?r \<subseteq> (\<lambda>(x, y). (y, x)) ` {(x, y). R x y}" by auto
  then have "finite ?r" using fin finite_surj by blast
  moreover have "acyclic ?r"
  proof (rule acyclicI, rule allI, rule notI)
    fix x assume c: "(x, x) \<in> ?r\<^sup>+"
    have up: "(y, z) \<in> ?r\<^sup>+ \<Longrightarrow> R\<^sup>+\<^sup>+ z y \<and> R\<^sup>*\<^sup>* f z" for y z
      by (induction rule: trancl_induct) (auto intro: tranclp_into_tranclp2)
    from up [OF c] acyc show False by blast
  qed
  ultimately have wf: "wf ?r" by (rule finite_acyclic_wf)
  have "R\<^sup>*\<^sup>* f x \<Longrightarrow> Wellfounded.accp (\<lambda>g f. R f g) x" for x
    using wf by (induction x rule: wf_induct_rule) (auto intro: accp.accI rtranclp.rtrancl_into_rtrancl)
  then show ?thesis by simp
qed

lemma parse_file_accp:
  "(\<exists>r. parse_file fs ip f = Some r) \<longleftrightarrow> Wellfounded.accp (\<lambda>g f. imports_file fs ip f g) f"
proof (cases "fs f")
  case (Ok p)
  have "(\<exists>r. parse_file fs ip f = Some r) \<longleftrightarrow> (\<exists>ss. parse_imports fs ip (import_files ip p) = Some ss)"
    by (auto simp: parse_file_def proto_parse_def parseServices_def Ok)
  also have "\<dots> \<longleftrightarrow> (\<forall>g \<in> set (import_files ip p). Wellfounded.accp (\<lambda>g f. imports_file fs ip f g) g)"
    using imports_returns returns_accp by blast
  also have "\<dots> \<longleftrightarrow> Wellfounded.accp (\<lambda>g f. imports_file fs ip f g) f"
    by (auto simp: imports_file_def Ok intro: accp.accI elim: accp.cases)
  finally show ?thesis .
qed (auto simp: parse_file_def proto_parse_def imports_file_def intro: accp.accI)

lemma finite_imports: "finite {f. \<exists>p. fs f = Ok p} \<Longrightarrow> finite {(x, y). imports_file fs ip x y}"
proof -
  assume fin: "finite {f. \<exists>p. fs f = Ok p}"
  have "{(x, y). imports_file fs ip x y} \<subseteq>
      (SIGMA x : {f. \<exists>p. fs f = Ok p}. case fs x of Ok p \<Rightarrow> set (import_files ip p) | _ \<Rightarrow> {})"
    by (auto simp: imports_file_def)
  moreover have "finite \<dots>" using fin by (intro finite_SigmaI) (auto split: res.split)
  ultimately show ?thesis by (rule finite_subset)
qed

text \<open>
  C6: Reading a proto file returns exactly when no chain of imports from it runs into a cycle: there is
  no record of the files already read, so a cycle is followed forever.
\<close>

theorem grpc_parser_terminates:
  assumes "finite {f. \<exists>p. fs f = Ok p}"
  shows "(\<exists>r. parse_file fs ip f = Some r) \<longleftrightarrow>
    (\<forall>g. (imports_file fs ip)\<^sup>*\<^sup>* f g \<longrightarrow> \<not> (imports_file fs ip)\<^sup>+\<^sup>+ g g)"
  unfolding parse_file_accp
  using accp_acyclic [of "imports_file fs ip" f] acyclic_accp [OF finite_imports [OF assms]] by blast

lemma no_result: "\<nexists>r. x = Some r \<Longrightarrow> x = None"
  by (cases x) auto

theorem grpc_parser_terminates_witness:
  "let fs = (\<lambda>f. if f = ''./a'' then Ok [Import ''b''] else if f = ''./b'' then Ok [Import ''a''] else Err (Str ''no such file'')) in
   parse_file fs ''.'' ''./a'' = None"
proof -
  let ?fs = "\<lambda>f. if f = ''./a'' then Ok [Import ''b''] else if f = ''./b'' then Ok [Import ''a''] else Err (Str ''no such file'')"
  have fin: "finite {f. \<exists>p. ?fs f = Ok p}" by (rule finite_subset [of _ "{''./a'', ''./b''}"]) (auto split: if_splits)
  have ab: "imports_file ?fs ''.'' ''./a'' ''./b''" by (simp add: imports_file_def import_files_def)
  have ba: "imports_file ?fs ''.'' ''./b'' ''./a''" by (simp add: imports_file_def import_files_def)
  have "(imports_file ?fs ''.'')\<^sup>+\<^sup>+ ''./a'' ''./a''" 
    using tranclp.trancl_into_trancl [where r = "imports_file ?fs ''.''", OF tranclp.r_into_trancl [where r = "imports_file ?fs ''.''", OF ab] ba] .
  with grpc_parser_terminates [OF fin, of "''.''" "''./a''"] have "\<nexists>r. parse_file ?fs ''.'' ''./a'' = Some r" by blast
  then show ?thesis unfolding Let_def by (rule no_result)
qed

section \<open>Errors and calls\<close>

lemma digits_no_delimiter: "list_all is_digit w \<Longrightarrow> \<not> contains (w @ ''|:'') ''|:|''"
proof (induction w)
  case (Cons a w)
  then have "a \<noteq> CHR ''|''" by (auto simp: is_digit_def)
  with Cons show ?case by (simp add: has_prefix_def)
qed (simp add: has_prefix_def)

lemma contains_join: "contains (w @ p @ v) p"
proof (induction w)
  case Nil
  then show ?case by (cases "p @ v") (auto simp: has_prefix_def, metis append_eq_conv_conj)
qed simp

text \<open>
  C36: An error a worker reports as code, message and details is the gRPC status with that code, that
  message, and those of the details that are encoded messages.
\<close>

theorem wrapError_roundtrip:
  assumes "ge_text E err = join_str delimiter (show_nat code # msg # details)"
    and "0 < code" "code < 2 ^ 32 - 1" "list_all (\<lambda>w. \<not> contains (w @ ''|:'') delimiter) (msg # details)"
  shows "wrapError E err = Status code msg (filter (ge_any E) details)"
proof -
  have "list_all (\<lambda>w. \<not> contains (w @ butlast delimiter) delimiter) (show_nat code # msg # details)"
    using assms(4) digits_no_delimiter show_nat_digits by (simp add: delimiter_def)
  then have s: "split_str delimiter (ge_text E err) = show_nat code # msg # details"
    unfolding assms(1) by (intro split_join_str) (simp_all add: delimiter_def)
  have c: "contains (ge_text E err) delimiter"
    using contains_join by (simp add: assms(1))
  have "parse_uint (show_nat code) = Some code" using assms(3) by (intro parse_uint_show_nat) simp
  with s c assms(2,3) show ?thesis by (simp add: wrapError_def Let_def)
qed

theorem wrapError_roundtrip_witness:
  "let E = \<lparr>ge_context = (\<lambda>_ _ _. Ok []), ge_exec = Ok, ge_metadata = (\<lambda>_. Ok Map.empty), ge_set_header = (\<lambda>_. Ok ()),
            ge_any = (\<lambda>d. d \<noteq> []), ge_text = (\<lambda>_. ''5|:|not found|:||:|x'')\<rparr>
   in wrapError E (Str ''php'') = Status 5 ''not found'' [''x'']"
proof -
  let ?E = "\<lparr>ge_context = (\<lambda>_ _ _. Ok []), ge_exec = Ok, ge_metadata = (\<lambda>_. Ok Map.empty), ge_set_header = (\<lambda>_. Ok ()),
            ge_any = (\<lambda>d. d \<noteq> []), ge_text = (\<lambda>_. ''5|:|not found|:||:|x'')\<rparr>"
  have five: "show_nat 5 = ''5''" by (simp add: show_nat.simps digit_char_def char_of_def bit_Suc_0_iff)
  show ?thesis
    using wrapError_roundtrip [of ?E "Str ''php''" 5 "''not found''" "[[], ''x'']"]
    unfolding Let_def by (simp add: five delimiter_def has_prefix_def)
qed

lemma px_zero_codec: "clean px_zero (px_plds p) \<Longrightarrow> fst (getPld i p) = px_zero \<and> clean px_zero (px_plds (snd (getPld i p)))"
  by (cases "pool_get px_zero i (px_plds p)") (auto simp: getPld_def px_zero_def dest: pool_get_clean)

text \<open>
  A call hands the worker its body and context and no trace of an earlier call, whatever object the
  payload pool returns, and leaves the pool clean.
\<close>

lemma px_invoke_clean:
  assumes "clean px_zero (px_plds p)"
  shows "clean px_zero (px_plds (fst (px_invoke E i cx mt body p)))"
    and "snd (px_invoke E i cx mt body p) =
      res_call Plain (ge_context E (px_name p) mt (call_metadata cx)) (\<lambda>ctx.
      res_call (wrapError E) (ge_exec E \<lparr>pld_body = body, pld_context = ctx, pld_codec = CODEC_JSON\<rparr>) (\<lambda>resp.
      res_call Plain (responseMetadata E resp) (\<lambda>md.
      res_call Plain (ge_set_header E md) (\<lambda>_. Reply (pld_body resp)))))"
proof -
  obtain pld p1 where g: "getPld i p = (pld, p1)" by fastforce
  with px_zero_codec [OF assms, of i] have z: "pld = px_zero" "clean px_zero (px_plds p1)" by auto
  show "clean px_zero (px_plds (fst (px_invoke E i cx mt body p)))"
    using z by (auto simp: px_invoke_def g makePayload_def putPld_def pool_put_def clean_def px_reset_def px_zero_def split: res.split)
  show "snd (px_invoke E i cx mt body p) =
      res_call Plain (ge_context E (px_name p) mt (call_metadata cx)) (\<lambda>ctx.
      res_call (wrapError E) (ge_exec E \<lparr>pld_body = body, pld_context = ctx, pld_codec = CODEC_JSON\<rparr>) (\<lambda>resp.
      res_call Plain (responseMetadata E resp) (\<lambda>md.
      res_call Plain (ge_set_header E md) (\<lambda>_. Reply (pld_body resp)))))"
    by (auto simp: px_invoke_def g z(1) makePayload_def res_call_def px_zero_def split: res.split)
qed

section \<open>Configuration and server options\<close>

datatype file_stat = Exists | NotExist | StatErr error
datatype auth_type = NoClientCert | RequestClientCert | RequireAnyClientCert | VerifyClientCertIfGiven | RequireAndVerifyClientCert

record grpc_tls =
  gt_key :: string
  gt_cert :: string
  gt_root :: string
  gt_auth_type :: string
  gt_auth :: auth_type

type_synonym i64 = "64 word"

record 'p grpc_config =
  gc_listen :: string
  gc_proto :: "string list"
  gc_tls :: "grpc_tls option"
  gc_env :: "string \<rightharpoonup> string"
  gc_pool :: "'p option"
  gc_send :: i64
  gc_recv :: i64
  gc_idle :: i64
  gc_age :: i64
  gc_grace :: i64
  gc_streams :: i64
  gc_ping :: i64
  gc_timeout :: i64

definition grpc_EnableTLS :: "'p grpc_config \<Rightarrow> bool" where
  "grpc_EnableTLS c =
     (case gc_tls c of
        None \<Rightarrow> False
      | Some t \<Rightarrow> (gt_root t \<noteq> [] \<and> gt_key t \<noteq> [] \<and> gt_cert t \<noteq> []) \<or> (gt_key t \<noteq> [] \<and> gt_cert t \<noteq> []))"

text \<open>The check that a file exists: \<open>pre\<close> and \<open>post\<close> surround its name in the error.\<close>

definition must_exist :: "(string \<Rightarrow> file_stat) \<Rightarrow> string \<Rightarrow> string \<Rightarrow> unit res" where
  "must_exist stat pre f =
     (case stat f of
        Exists \<Rightarrow> Ok ()
      | NotExist \<Rightarrow> Err (Str (pre @ [CHR 0x27] @ f @ [CHR 0x27] @ '' does not exists''))
      | StatErr e \<Rightarrow> Err e)"

fun check_protos :: "(string \<Rightarrow> file_stat) \<Rightarrow> string list \<Rightarrow> unit res" where
  "check_protos stat [] = Ok ()"
| "check_protos stat (f # fs) =
     (if f = [] then check_protos stat fs
      else let r = must_exist stat ''proto file '' f in
        if r = Ok () then check_protos stat fs else r)"

definition auth_of :: "string \<Rightarrow> auth_type" where
  "auth_of s =
     (if s = ''no_client_cert'' then NoClientCert
      else if s = ''request_client_cert'' then RequestClientCert
      else if s = ''require_any_client_cert'' then RequireAnyClientCert
      else if s = ''verify_client_cert_if_given'' then VerifyClientCertIfGiven
      else if s = ''require_and_verify_client_cert'' then RequireAndVerifyClientCert
      else NoClientCert)"

definition check_tls :: "(string \<Rightarrow> file_stat) \<Rightarrow> grpc_tls \<Rightarrow> grpc_tls res" where
  "check_tls stat t =
     (let k = must_exist stat ''key file '' (gt_key t); c = must_exist stat ''cert file '' (gt_cert t) in
      if k \<noteq> Ok () then map_res (\<lambda>_. t) k
      else if c \<noteq> Ok () then map_res (\<lambda>_. t) c
      else if gt_root t = [] then Ok t
      else map_res (\<lambda>_. t\<lparr>gt_auth := auth_of (gt_auth_type t)\<rparr>)
             (must_exist stat ''root ca path provided, but key file '' (gt_root t)))"

definition infinity :: i64 where
  "infinity = 9223372036854775807"

definition or_default :: "i64 \<Rightarrow> i64 \<Rightarrow> i64" where
  "or_default d x = (if x = 0 then d else x)"

definition mega :: "i64 \<Rightarrow> i64" where
  "mega x = (if x = 0 then 1024 * 1024 * 50 else 1024 * 1024 * x)"

definition grpc_limits :: "'p grpc_config \<Rightarrow> 'p grpc_config" where
  "grpc_limits c = c\<lparr>gc_ping := or_default 7200000000000 (gc_ping c), gc_timeout := or_default 20000000000 (gc_timeout c),
     gc_streams := or_default 10 (gc_streams c), gc_age := or_default infinity (gc_age c),
     gc_idle := or_default infinity (gc_idle c), gc_grace := or_default infinity (gc_grace c),
     gc_recv := mega (gc_recv c), gc_send := mega (gc_send c)\<rparr>"

text \<open>\<open>pool\<close> is the defaulting of the worker pool's section, nil included.\<close>

definition grpc_InitDefaults :: "('p option \<Rightarrow> 'p) \<Rightarrow> (string \<Rightarrow> file_stat) \<Rightarrow> 'p grpc_config \<Rightarrow> 'p grpc_config \<times> unit res" where
  "grpc_InitDefaults pool stat c0 =
     (let op = ''grpc_plugin_config''; c = c0\<lparr>gc_pool := Some (pool (gc_pool c0))\<rparr> in
      if \<not> contains (gc_listen c) '':''
      then (c, Err (EOp op (Str (''mailformed grpc address, provided: '' @ gc_listen c))))
      else if check_protos stat (gc_proto c) \<noteq> Ok () then (c, wrap op (check_protos stat (gc_proto c)))
      else case gc_tls c of
          Some t \<Rightarrow>
            if grpc_EnableTLS c
            then (case check_tls stat t of
                Ok t' \<Rightarrow> (grpc_limits (c\<lparr>gc_tls := Some t'\<rparr>), Ok ())
              | r \<Rightarrow> (c, map_res (\<lambda>_. ()) (wrap op r)))
            else (grpc_limits c, Ok ())
        | None \<Rightarrow> (grpc_limits c, Ok ()))"

definition grpc_Init ::
  "('p option \<Rightarrow> 'p) \<Rightarrow> (string \<Rightarrow> file_stat) \<Rightarrow> 'p grpc_config res option \<Rightarrow> 'p grpc_config res"
where
  "grpc_Init pool stat cfg =
     (let op = ''grpc_plugin_init'' in
      case cfg of
        None \<Rightarrow> Err (Kind Disabled)
      | Some (Ok c) \<Rightarrow>
          (let (c1, r) = grpc_InitDefaults pool stat c in
           map_res (\<lambda>_. c1\<lparr>gc_env := (gc_env c1)(''RR_MODE'' \<mapsto> ''grpc'')\<rparr>) (wrap op r))
      | Some r \<Rightarrow> wrap op r)"

datatype server_option =
    MaxSendMsgSize int
  | MaxRecvMsgSize int
  | KeepaliveParams i64 i64 i64 i64 i64
  | MaxConcurrentStreams u32
  | Creds "auth_type option"
  | UnaryInterceptor
  | Extra nat

text \<open>
  \<open>load\<close> is the result of reading the certificates; the credentials carry the client authentication
  when there is a root authority.  The conversions to \<open>int\<close> keep all bits, the one to \<open>uint32\<close> does not.
\<close>

definition limit_options :: "'p grpc_config \<Rightarrow> server_option list" where
  "limit_options c =
     [MaxSendMsgSize (sint (gc_send c)), MaxRecvMsgSize (sint (gc_recv c)),
      KeepaliveParams (gc_idle c) (gc_age c) (gc_age c) (gc_ping c) (gc_timeout c),
      MaxConcurrentStreams (ucast (gc_streams c))]"

definition serverOptions ::
  "(grpc_tls \<Rightarrow> unit res) \<Rightarrow> server_option list \<Rightarrow> 'p grpc_config \<Rightarrow> server_option list res"
where
  "serverOptions load extra c =
     (case gc_tls c of
        Some t \<Rightarrow>
          if grpc_EnableTLS c
          then map_res (\<lambda>_. Creds (if gt_root t \<noteq> [] then Some (gt_auth t) else None) # limit_options c @ extra @ [UnaryInterceptor]) (load t)
          else Ok (extra @ [UnaryInterceptor])
      | None \<Rightarrow> Ok (extra @ [UnaryInterceptor]))"

text \<open>
  The services of every proto file are registered with their proxies, in order; the first file that
  cannot be read ends the construction.  \<open>path.Dir\<close> of the file is the import path.
\<close>

definition service_proxy :: "string \<Rightarrow> grpc_service \<Rightarrow> proxy" where
  "service_proxy file s =
     fold RegisterMethod (map me_name (sv_methods s)) (NewProxy (sv_package s @ ''.'' @ sv_name s) file)"

fun register_protos ::
  "(string \<Rightarrow> proto_elem list res) \<Rightarrow> (string \<Rightarrow> string) \<Rightarrow> string list \<Rightarrow> proxy list \<Rightarrow> proxy list res option"
where
  "register_protos fs dir [] ps = Some (Ok ps)"
| "register_protos fs dir (f # files) ps =
     (if f = [] then register_protos fs dir files ps
      else case parse_file fs (dir f) f of
          None \<Rightarrow> None
        | Some (Ok ss) \<Rightarrow> register_protos fs dir files (ps @ map (service_proxy f) ss)
        | Some (Err e) \<Rightarrow> Some (Err e)
        | Some Panic \<Rightarrow> Some Panic
        | Some Block \<Rightarrow> Some Block)"

definition createGRPCserver ::
  "(grpc_tls \<Rightarrow> unit res) \<Rightarrow> server_option list \<Rightarrow> (string \<Rightarrow> proto_elem list res) \<Rightarrow> (string \<Rightarrow> string) \<Rightarrow> 'p grpc_config \<Rightarrow>
   (server_option list \<times> proxy list) res option"
where
  "createGRPCserver load extra fs dir c =
     (case serverOptions load extra c of
        Ok opts \<Rightarrow> map_option (map_res (\<lambda>ps. (opts, ps))) (register_protos fs dir (gc_proto c) [])
      | Err e \<Rightarrow> Some (Err (EOp ''grpc_plugin_create_server'' e))
      | Panic \<Rightarrow> Some Panic
      | Block \<Rightarrow> Some Block)"

text \<open>
  The configured message sizes, keep-alive times and stream limit reach the server only when TLS is
  on, and the grace period of a connection is then its maximal age: without TLS the defaults of the
  library apply, whatever the configuration says.
\<close>

theorem grpc_limits_need_tls:
  assumes "serverOptions load [] c = Ok opts"
  shows "(MaxRecvMsgSize n \<in> set opts \<longleftrightarrow> grpc_EnableTLS c \<and> n = sint (gc_recv c))
    \<and> (KeepaliveParams a b d e f \<in> set opts \<longrightarrow> d = gc_age c)"
  using assms
  by (cases "gc_tls c"; cases "grpc_EnableTLS c")
     (auto simp: serverOptions_def limit_options_def grpc_EnableTLS_def map_res_def split: res.splits if_splits)

theorem grpc_limits_need_tls_witness:
  "let c = \<lparr>gc_listen = ''tcp://0:9001'', gc_proto = [], gc_tls = None, gc_env = Map.empty, gc_pool = Some (), gc_send = 1, gc_recv = 1,
            gc_idle = 1, gc_age = 1, gc_grace = 2, gc_streams = 1, gc_ping = 1, gc_timeout = 1\<rparr>
   in serverOptions (\<lambda>_. Ok ()) [] c = Ok [UnaryInterceptor] \<and> MaxRecvMsgSize (sint (gc_recv c)) \<notin> set [UnaryInterceptor]"
proof -
  let ?c = "\<lparr>gc_listen = ''tcp://0:9001'', gc_proto = [], gc_tls = None, gc_env = Map.empty, gc_pool = Some (), gc_send = 1, gc_recv = 1,
            gc_idle = 1, gc_age = 1, gc_grace = 2, gc_streams = 1, gc_ping = 1, gc_timeout = 1\<rparr>"
  have o: "serverOptions (\<lambda>_. Ok ()) [] ?c = Ok [UnaryInterceptor]" by (simp add: serverOptions_def)
  from grpc_limits_need_tls [OF o, of 1 0 0 0 0 0] o show ?thesis unfolding Let_def by (simp add: grpc_EnableTLS_def)
qed

end
