(* ===== verification/Grpc_Php.thy ===== *)
theory Grpc_Php
  imports Go_Net
begin

text \<open>
  The names of the PHP code generator (\<open>grpc/protoc_plugins/protoc-gen-php-grpc/php\<close>): identifiers,
  reserved words, namespaces and the resolution of message names.  Names of proto files are ASCII, so
  that the loops over runes are loops over bytes.
\<close>

section \<open>Identifiers\<close>

definition is_upper :: "char \<Rightarrow> bool" where
  "is_upper c \<longleftrightarrow> 65 \<le> (of_char c :: nat) \<and> (of_char c :: nat) \<le> 90"

definition isSpacerChar :: "char \<Rightarrow> bool" where
  "isSpacerChar c \<longleftrightarrow> c = CHR ''_'' \<or> c = CHR '' '' \<or> c = CHR '':'' \<or> c = CHR ''-''"

text \<open>The loop of \<open>splitAtCaseChangeWithTitlecase\<close> over the rest of the string, with its two slices.\<close>

fun split_words :: "string \<Rightarrow> string list \<Rightarrow> string \<Rightarrow> string list" where
  "split_words [] words word = words @ [word]"
| "split_words (c # cs) words word =
     (let spacer = isSpacerChar c;
          flush = (word \<noteq> [] \<and> (is_upper c \<or> spacer));
          words1 = (if flush then words @ [word] else words);
          word1 = (if flush then [] else word);
          word2 = (if spacer then word1
                   else if word1 \<noteq> [] then word1 @ [lower_char c] else word1 @ [upper_char c]) in
      split_words cs words1 word2)"

definition splitAtCaseChangeWithTitlecase :: "string \<Rightarrow> string list" where
  "splitAtCaseChangeWithTitlecase s = split_words s [] []"

definition Camelize :: "string \<Rightarrow> string" where
  "Camelize word = concat (splitAtCaseChangeWithTitlecase word)"

definition php_identifier :: "string \<Rightarrow> string \<Rightarrow> string" where
  "php_identifier name suffix = (if suffix \<noteq> [] then Camelize name @ Camelize suffix else Camelize name)"

definition reservedKeywords :: "string list" where
  "reservedKeywords = [''abstract'', ''and'', ''array'', ''as'', ''break'', ''callable'', ''case'', ''catch'', ''class'', ''clone'',
     ''const'', ''continue'', ''declare'', ''default'', ''die'', ''do'', ''echo'', ''else'', ''elseif'', ''empty'',
     ''enddeclare'', ''endfor'', ''endforeach'', ''endif'', ''endswitch'', ''endwhile'', ''eval'', ''exit'', ''extends'', ''final'',
     ''for'', ''foreach'', ''function'', ''global'', ''goto'', ''if'', ''implements'', ''include'', ''include_once'', ''instanceof'',
     ''insteadof'', ''interface'', ''isset'', ''list'', ''namespace'', ''new'', ''or'', ''print'', ''private'', ''protected'',
     ''public'', ''require'', ''require_once'', ''return'', ''static'', ''switch'', ''throw'', ''trait'', ''try'', ''unset'',
     ''use'', ''var'', ''while'', ''xor'', ''int'', ''float'', ''bool'', ''string'', ''true'', ''false'', ''null'', ''void'', ''iterable'']"

definition isReserved :: "string \<Rightarrow> bool" where
  "isReserved name \<longleftrightarrow> to_lower name \<in> set reservedKeywords"

definition resolveReserved :: "string \<Rightarrow> string \<Rightarrow> string" where
  "resolveReserved ident pkg =
     (if isReserved (to_lower ident) then (if pkg = ''.google.protobuf'' then ''GPB'' @ ident else ''PB'' @ ident) else ident)"

section \<open>Namespaces\<close>

text \<open>\<open>strings.Trim\<close> at a separator of one byte.\<close>

definition php_namespace :: "string option \<Rightarrow> char \<Rightarrow> string" where
  "php_namespace pkg sep =
     (case pkg of
        None \<Rightarrow> []
      | Some p \<Rightarrow> trim_set [sep] (concat (map (\<lambda>w. php_identifier w [] @ [sep]) (split_byte CHR ''.'' p))))"

record proto_file =
  pf_package :: string
  pf_namespace :: "string option"

record ns =
  ns_package :: string
  ns_namespace :: string
  ns_import :: "string \<rightharpoonup> string"

definition msg_package :: "string \<Rightarrow> string" where
  "msg_package msg = join_byte CHR ''.'' (butlast (split_byte CHR ''.'' msg))"

definition importMessage :: "proto_file list \<Rightarrow> string option \<Rightarrow> ns \<Rightarrow> ns" where
  "importMessage files msg n =
     (case msg of
        None \<Rightarrow> n
      | Some m \<Rightarrow>
          (let pkg = msg_package m in
           if pkg = CHR ''.'' # ns_package n then n
           else n\<lparr>ns_import := (ns_import n)(pkg \<mapsto>
             (case find (\<lambda>f. pkg = CHR ''.'' # pf_package f \<and> pf_namespace f \<noteq> None) files of
                Some f \<Rightarrow> the (pf_namespace f)
              | None \<Rightarrow> trim_set [CHR 0x5C]
                  (concat (map (\<lambda>w. php_identifier w [] @ [CHR 0x5C]) (butlast (split_byte CHR ''.'' m))))))\<rparr>))"

definition newNamespace :: "proto_file list \<Rightarrow> proto_file \<Rightarrow> (string option \<times> string option) list \<Rightarrow> ns" where
  "newNamespace files file methods =
     fold (\<lambda>(i, out) n. importMessage files out (importMessage files i n)) methods
       \<lparr>ns_package = pf_package file,
        ns_namespace = (case pf_namespace file of None \<Rightarrow> php_namespace (Some (pf_package file)) CHR 0x5C | Some x \<Rightarrow> x),
        ns_import = Map.empty\<rparr>"

definition ns_resolve :: "ns \<Rightarrow> string \<Rightarrow> string" where
  "ns_resolve n msg =
     (let chunks = split_byte CHR ''.'' msg; pkg = msg_package msg; ident = php_identifier (last chunks) [] in
      if pkg = CHR ''.'' # ns_package n then ident
      else case ns_import n pkg of
          Some x \<Rightarrow> last (split_byte CHR 0x5C x) @ [CHR 0x5C] @ resolveReserved ident pkg
        | None \<Rightarrow> CHR 0x5C # php_namespace (Some msg) CHR 0x5C)"

definition php_filename :: "proto_file \<Rightarrow> string \<Rightarrow> string" where
  "php_filename file name =
     (let n = (case pf_namespace file of
                 None \<Rightarrow> php_namespace (Some (pf_package file)) CHR ''/''
               | Some x \<Rightarrow> map (\<lambda>c. if c = CHR 0x5C then CHR ''/'' else c) x) in
      n @ ''/'' @ php_identifier name ''interface'' @ ''.php'')"

section \<open>Properties\<close>

text \<open>The identifier as a scan with one bit of state: whether the current word has begun.\<close>

fun camel :: "bool \<Rightarrow> string \<Rightarrow> string" where
  "camel b [] = []"
| "camel b (c # cs) =
     (if isSpacerChar c then camel False cs
      else (if b \<and> \<not> is_upper c then lower_char c else upper_char c) # camel True cs)"

lemma split_words_camel: "concat (split_words s words word) = concat words @ word @ camel (word \<noteq> []) s"
proof (induction s arbitrary: words word)
  case (Cons c s)
  show ?case
    by (cases "isSpacerChar c"; cases "word = []"; cases "is_upper c") (simp_all add: Cons)
qed simp

lemma Camelize_camel: "Camelize s = camel False s"
  by (simp add: Camelize_def splitAtCaseChangeWithTitlecase_def split_words_camel)

lemma spacer_code: "isSpacerChar c \<longleftrightarrow> (of_char c :: nat) \<in> {95, 32, 58, 45}"
proof -
  have "c = CHR ''_'' \<longleftrightarrow> (of_char c :: nat) = 95" "c = CHR '' '' \<longleftrightarrow> (of_char c :: nat) = 32"
    "c = CHR '':'' \<longleftrightarrow> (of_char c :: nat) = 58" "c = CHR ''-'' \<longleftrightarrow> (of_char c :: nat) = 45"
    using of_char_eq_iff [where 'a = nat, of c "CHR ''_''"] of_char_eq_iff [where 'a = nat, of c "CHR '' ''"]
      of_char_eq_iff [where 'a = nat, of c "CHR '':''"] of_char_eq_iff [where 'a = nat, of c "CHR ''-''"] by simp_all
  then show ?thesis by (simp add: isSpacerChar_def)
qed

lemma case_chars:
  "\<not> is_upper (lower_char c)" "\<not> isSpacerChar c \<Longrightarrow> \<not> isSpacerChar (lower_char c)"
  "\<not> isSpacerChar c \<Longrightarrow> \<not> isSpacerChar (upper_char c)" "is_upper c \<Longrightarrow> upper_char c = c"
  "upper_char (upper_char c) = upper_char c" "lower_char (lower_char c) = lower_char c"
  "\<not> is_upper (upper_char c) \<Longrightarrow> lower_char (upper_char c) = upper_char c"
  by (auto simp: is_upper_def upper_char_def lower_char_def spacer_code)

text \<open>A string that the scan keeps: no spacers, and every character is in the case the scan gives it.\<close>

lemma camel_camel: "camel True (camel b s) = camel b s"
  by (induction s arbitrary: b) (auto simp: case_chars)

lemma camel_first: "camel False (camel False s) = camel False s"
  by (induction s) (auto simp: case_chars camel_camel)

text \<open>
  Making an identifier is idempotent: the camel-cased name of a camel-cased name is itself.
\<close>

theorem Camelize_idem: "Camelize (Camelize s) = Camelize s"
  by (simp add: Camelize_camel camel_first)

end
