(* ===== verification/Spec2Isabelle.thy ===== *)
theory Spec2Isabelle
  imports Remote_System Beanstalk_Jobs Kv_System Http_System Ws_System Http_Cache Http_Plugin Grpc Grpc_Php
begin

text \<open>
  Verification library for the RoadRunner plugins.
\<close>

end
